(* ===== verification/Prelude.thy ===== *)
theory Prelude
  imports Complex_Main "HOL-Library.Word" "HOL-Library.List_Lexorder" "HOL-Library.Char_ord"
begin

text \<open>
  Shared vocabulary of the development.

  \<^item> The effect type \<open>io\<close>: a Go function that may fail and that changes a state is a
    function from the state to a result (\<open>Inl\<close> the error, \<open>Inr\<close> the value) and the
    new state. \<open>attempt\<close> is Go's ``call, and return the error if there is one'';
    \<open>wrapf\<close> maps the error on its way out.
  \<^item> Inversion lemmas for successful and failed runs, and two judgements on such
    functions: \<open>keeps\<close> (an invariant of the state) and \<open>frames\<close> (a reflexive and
    transitive relation between the state before and after).
  \<^item> Go's 64-bit \<open>int\<close>, and generic facts on lists.
  \<^item> A locale of transition systems with an invariant, interpreted by the components
    that have a step relation.
\<close>

named_theorems io_defs "definitions of the effect combinators"
named_theorems keeps_intros "rules that an effect keeps an invariant"
named_theorems frames_intros "rules that an effect stays inside a relation"

section \<open>Functions with errors and a state\<close>

type_synonym ('e, 's, 'a) io = "'s \<Rightarrow> ('e + 'a) \<times> 's"

definition ok :: "'a \<Rightarrow> ('e, 's, 'a) io" where
  [io_defs]: "ok a s = (Inr a, s)"

definition fail :: "'e \<Rightarrow> ('e, 's, 'a) io" where
  [io_defs]: "fail e s = (Inl e, s)"

definition attempt :: "('e, 's, 'a) io \<Rightarrow> ('a \<Rightarrow> ('e, 's, 'b) io) \<Rightarrow> ('e, 's, 'b) io" where
  [io_defs]: "attempt m f s = (case m s of (Inl e, s') \<Rightarrow> (Inl e, s') | (Inr a, s') \<Rightarrow> f a s')"

definition map_error :: "('e \<Rightarrow> 'f) \<Rightarrow> ('e, 's, 'a) io \<Rightarrow> ('f, 's, 'a) io" where
  [io_defs]: "map_error g m s = (case m s of (Inl e, s') \<Rightarrow> (Inl (g e), s') | (Inr a, s') \<Rightarrow> (Inr a, s'))"

subsection \<open>Inversion of a run\<close>

lemma ok_eq [simp]: "ok a s = (r, t) \<longleftrightarrow> r = Inr a \<and> t = s"
  by (auto simp: ok_def)

lemma fail_eq [simp]: "fail e s = (r, t) \<longleftrightarrow> r = Inl e \<and> t = s"
  by (auto simp: fail_def)

lemma attempt_Inr:
  "attempt m f s = (Inr b, t) \<longleftrightarrow> (\<exists>a s'. m s = (Inr a, s') \<and> f a s' = (Inr b, t))"
  by (auto simp: attempt_def split: prod.splits sum.splits)

lemma attempt_Inl:
  "attempt m f s = (Inl e, t) \<longleftrightarrow>
     m s = (Inl e, t) \<or> (\<exists>a s'. m s = (Inr a, s') \<and> f a s' = (Inl e, t))"
  by (auto simp: attempt_def split: prod.splits sum.splits)

lemma attempt_eq:
  "attempt m f s = (r, t) \<longleftrightarrow>
     (\<exists>e. m s = (Inl e, t) \<and> r = Inl e) \<or> (\<exists>a s'. m s = (Inr a, s') \<and> f a s' = (r, t))"
  by (cases r) (auto simp: attempt_Inr attempt_Inl)

lemma map_error_Inr [simp]: "map_error g m s = (Inr a, t) \<longleftrightarrow> m s = (Inr a, t)"
  by (auto simp: map_error_def split: prod.splits sum.splits)

lemma map_error_Inl: "map_error g m s = (Inl e, t) \<longleftrightarrow> (\<exists>e'. m s = (Inl e', t) \<and> e = g e')"
  by (auto simp: map_error_def split: prod.splits sum.splits)

lemma attempt_run: "m s = (Inr a, s') \<Longrightarrow> attempt m f s = f a s'"
  by (simp add: attempt_def)

lemma attempt_stop: "m s = (Inl e, s') \<Longrightarrow> attempt m f s = (Inl e, s')"
  by (simp add: attempt_def)

lemma map_error_run: "m s = (Inr a, s') \<Longrightarrow> map_error g m s = (Inr a, s')"
  by simp

lemma map_error_stop: "m s = (Inl e, s') \<Longrightarrow> map_error g m s = (Inl (g e), s')"
  by (simp add: map_error_def)

lemma snd_map_error [simp]: "snd (map_error g m s) = snd (m s)"
  by (simp add: map_error_def split: prod.splits sum.splits)

subsection \<open>Invariants and frames\<close>

definition keeps :: "('s \<Rightarrow> bool) \<Rightarrow> ('e, 's, 'a) io \<Rightarrow> bool" where
  "keeps I m \<longleftrightarrow> (\<forall>s. I s \<longrightarrow> I (snd (m s)))"

lemma keepsI: "(\<And>s. I s \<Longrightarrow> I (snd (m s))) \<Longrightarrow> keeps I m"
  by (simp add: keeps_def)

lemma keepsD: "keeps I m \<Longrightarrow> I s \<Longrightarrow> I (snd (m s))"
  by (simp add: keeps_def)

lemma keeps_run: "keeps I m \<Longrightarrow> I s \<Longrightarrow> m s = (r, t) \<Longrightarrow> I t"
  by (metis keepsD snd_conv)

lemma keeps_ok [keeps_intros]: "keeps I (ok a)"
  by (simp add: keeps_def ok_def)

lemma keeps_fail [keeps_intros]: "keeps I (fail e)"
  by (simp add: keeps_def fail_def)

lemma keeps_map_error [keeps_intros]: "keeps I m \<Longrightarrow> keeps I (map_error g m)"
  by (simp add: keeps_def)

lemma keeps_attempt [keeps_intros]:
  assumes "keeps I m" and "\<And>a. keeps I (f a)"
  shows "keeps I (attempt m f)"
proof (rule keepsI)
  fix s assume "I s"
  obtain r t where run: "m s = (r, t)" by fastforce
  with assms(1) \<open>I s\<close> have "I t" by (rule keeps_run)
  with run assms(2) show "I (snd (attempt m f s))"
    by (cases r) (auto simp: attempt_def keeps_def)
qed

lemma keeps_if [keeps_intros]: "keeps I m \<Longrightarrow> keeps I n \<Longrightarrow> keeps I (if b then m else n)"
  by simp

lemma keeps_prod [keeps_intros]: "(\<And>a b. keeps I (f a b)) \<Longrightarrow> keeps I (case p of (a, b) \<Rightarrow> f a b)"
  by (cases p) simp

definition frames :: "('s \<Rightarrow> 's \<Rightarrow> bool) \<Rightarrow> ('e, 's, 'a) io \<Rightarrow> bool" where
  "frames R m \<longleftrightarrow> (\<forall>s. R s (snd (m s)))"

lemma framesI: "(\<And>s. R s (snd (m s))) \<Longrightarrow> frames R m"
  by (simp add: frames_def)

lemma frames_run: "frames R m \<Longrightarrow> m s = (r, t) \<Longrightarrow> R s t"
  by (metis frames_def snd_conv)

lemma frames_ok [frames_intros]: "reflp R \<Longrightarrow> frames R (ok a)"
  by (simp add: frames_def ok_def reflp_def)

lemma frames_fail [frames_intros]: "reflp R \<Longrightarrow> frames R (fail e)"
  by (simp add: frames_def fail_def reflp_def)

lemma frames_map_error [frames_intros]: "frames R m \<Longrightarrow> frames R (map_error g m)"
  by (simp add: frames_def)

lemma frames_attempt [frames_intros]:
  assumes "transp R" and "frames R m" and "\<And>a. frames R (f a)"
  shows "frames R (attempt m f)"
proof (rule framesI)
  fix s
  obtain r t where run: "m s = (r, t)" by fastforce
  with assms(2) have "R s t" by (rule frames_run)
  with run assms(1,3) show "R s (snd (attempt m f s))"
    by (cases r) (auto simp: attempt_def frames_def dest: transpD)
qed

lemma frames_if [frames_intros]: "frames R m \<Longrightarrow> frames R n \<Longrightarrow> frames R (if b then m else n)"
  by simp

lemma frames_prod [frames_intros]: "(\<And>a b. frames R (f a b)) \<Longrightarrow> frames R (case p of (a, b) \<Rightarrow> f a b)"
  by (cases p) simp

section \<open>Go's 64-bit integers\<close>

text \<open>The value an \<open>int\<close> expression of Go has after wrapping to 64 bits, two's complement.\<close>

definition int64 :: "int \<Rightarrow> int" where
  "int64 x = sint (word_of_int x :: 64 word)"

lemma int64_id: "- (2 ^ 63) \<le> x \<Longrightarrow> x < 2 ^ 63 \<Longrightarrow> int64 x = x"
  by (simp add: int64_def sint_sbintrunc' signed_take_bit_int_eq_self)

lemma int64_range: "- (2 ^ 63) \<le> int64 x \<and> int64 x < 2 ^ 63"
  unfolding int64_def
  using sint_ge [of "word_of_int x :: 64 word"] sint_lt [of "word_of_int x :: 64 word"] by simp

section \<open>Lists\<close>

lemma find_append: "find P (xs @ ys) = (case find P xs of None \<Rightarrow> find P ys | Some x \<Rightarrow> Some x)"
  by (induction xs) auto

lemma find_SomeD: "find P xs = Some x \<Longrightarrow> x \<in> set xs \<and> P x"
  by (induction xs) (auto split: if_splits)

lemma find_distinct_key:
  "distinct (map k xs) \<Longrightarrow> x \<in> set xs \<Longrightarrow> find (\<lambda>y. k y = k x) xs = Some x"
  by (induction xs) auto

lemma sum_list_map_split:
  fixes f g :: "'a \<Rightarrow> 'b::comm_monoid_add"
  shows "sum_list (map (\<lambda>x. f x + g x) xs) = sum_list (map f xs) + sum_list (map g xs)"
  by (induction xs) (auto simp: algebra_simps)

section \<open>Transition systems with an invariant\<close>

text \<open>
  A component with an initial state, steps labelled by events and an invariant. The
  reachable states and the runs are defined once here; every component that interprets
  the locale gets that the invariant holds along its runs.
\<close>

locale step_system =
  fixes start :: "'s \<Rightarrow> bool"
    and step :: "'s \<Rightarrow> 'e \<Rightarrow> 's \<Rightarrow> bool"
    and inv :: "'s \<Rightarrow> bool"
  assumes start_inv: "start s \<Longrightarrow> inv s"
    and step_inv: "inv s \<Longrightarrow> step s e t \<Longrightarrow> inv t"
begin

inductive run :: "'s \<Rightarrow> 'e list \<Rightarrow> 's \<Rightarrow> bool" where
  run_nil: "run s [] s"
| run_cons: "step s e t \<Longrightarrow> run t es u \<Longrightarrow> run s (e # es) u"

lemma run_inv: "run s es t \<Longrightarrow> inv s \<Longrightarrow> inv t"
  by (induction rule: run.induct) (auto intro: step_inv)

lemma run_from_start: "start s \<Longrightarrow> run s es t \<Longrightarrow> inv t"
  by (blast intro: start_inv run_inv)

lemma run_append: "run s es t \<Longrightarrow> run t fs u \<Longrightarrow> run s (es @ fs) u"
  by (induction rule: run.induct) (auto intro: run_cons)

lemma run_rel:
  assumes "run s es t" and "reflp R" and "transp R"
    and "\<And>a e b. inv a \<Longrightarrow> step a e b \<Longrightarrow> R a b" and "inv s"
  shows "R s t"
  using assms(1,5)
proof (induction rule: run.induct)
  case (run_nil s)
  show ?case using assms(2) by (rule reflpD)
next
  case (run_cons s e t es u)
  then have "R s t" and "inv t" using assms(4) by (auto intro: step_inv)
  with run_cons.IH assms(3) show ?case by (auto dest: transpD)
qed

end

end
