(* ===== verification/Errs.thy ===== *)
theory Errs
  imports Prelude
begin

text \<open>
  The error values of the program (internal/errs/errors.go and the wrapping done with
  \<open>fmt.Errorf\<close> and the verb \<open>%w\<close>). A sentinel of the package is a constructor; a
  wrapped error keeps its prefix and its cause, so that \<open>errors.Is\<close> can look through
  it. Conditions that PostgreSQL raises from the schema carry the constraint; every
  other failure of a driver or a library is an opaque text.
\<close>

datatype sentinel =
    ErrInsufficientFunds
  | ErrAccountNotFound
  | ErrAccountNotActive
  | ErrDuplicateTransaction
  | ErrSameAccount
  | ErrInvalidAmount
  | ErrInvalidCredentials
  | ErrUsernameTaken
  | ErrEmailTaken
  | ErrMissingFields
  | ErrNotSystemUser

fun sentinel_text :: "sentinel \<Rightarrow> string" where
  "sentinel_text ErrInsufficientFunds = ''insufficient funds''"
| "sentinel_text ErrAccountNotFound = ''account not found''"
| "sentinel_text ErrAccountNotActive = ''account is not active''"
| "sentinel_text ErrDuplicateTransaction = ''duplicate transaction: idempotency key already processed''"
| "sentinel_text ErrSameAccount = ''cannot transfer to the same account''"
| "sentinel_text ErrInvalidAmount = ''transfer amount must be positive''"
| "sentinel_text ErrInvalidCredentials = ''invalid username or password''"
| "sentinel_text ErrUsernameTaken = ''username already taken''"
| "sentinel_text ErrEmailTaken = ''email already taken''"
| "sentinel_text ErrMissingFields = ''missing required fields''"
| "sentinel_text ErrNotSystemUser = ''forbidden: system user access required''"

text \<open>Conditions the database raises, with the constraint of sql/V1__init\_schema.sql.\<close>

datatype pq_condition =
    UniqueViolation string
  | ForeignKeyViolation string
  | CheckViolation string
  | StringTooLong string
  | InvalidText string
  | NumericOverflow string
  | NegativeLimit
  | NegativeOffset

datatype goerr =
    Sentinel sentinel
  | Wrapf string goerr
  | Plain string
  | PqError pq_condition
  | Driver string

type_synonym ('s, 'a) goio = "(goerr, 's, 'a) io"

abbreviation wrapf :: "string \<Rightarrow> ('s, 'a) goio \<Rightarrow> ('s, 'a) goio" where
  "wrapf prefix \<equiv> map_error (Wrapf prefix)"

text \<open>Go's \<open>errors.Is(err, target)\<close> for a sentinel target: follow the chain of causes.\<close>

primrec errors_Is :: "goerr \<Rightarrow> sentinel \<Rightarrow> bool" where
  "errors_Is (Sentinel s) t = (s = t)"
| "errors_Is (Wrapf p e) t = errors_Is e t"
| "errors_Is (Plain m) t = False"
| "errors_Is (PqError c) t = False"
| "errors_Is (Driver m) t = False"

text \<open>\<open>err.Error()\<close>; the texts of the driver's conditions are the parameter.\<close>

primrec Error :: "(pq_condition \<Rightarrow> string) \<Rightarrow> goerr \<Rightarrow> string" where
  "Error pq (Sentinel s) = sentinel_text s"
| "Error pq (Wrapf p e) = p @ Error pq e"
| "Error pq (Plain m) = m"
| "Error pq (PqError c) = pq c"
| "Error pq (Driver m) = m"

text \<open>An error chain ends in at most one sentinel, so the switch of a handler is unambiguous.\<close>

lemma errors_Is_unique: "errors_Is e s \<Longrightarrow> errors_Is e t \<Longrightarrow> s = t"
  by (induction e) auto

lemma inj_sentinel_text: "sentinel_text s = sentinel_text t \<Longrightarrow> s = t"
  by (cases s; cases t) simp_all

end
