(* ===== verification/Domain_Model.thy ===== *)
theory Domain_Model
  imports Errs
begin

text \<open>
  The domain types of internal/model/model.go: the three status enumerations, the
  entities and the request and response payloads. A UUID is the 16-byte array of the
  Go type. A \<open>decimal.Decimal\<close> is identified with the number it denotes
  (coefficient times a power of ten), a rational. A \<open>time.Time\<close> and a
  \<open>time.Duration\<close> are counted in nanoseconds, as the program reads them.
\<close>

type_synonym uuid = "128 word"
type_synonym decimal = rat
type_synonym time = int
type_synonym duration = int

abbreviation uuid_Nil :: uuid where
  "uuid_Nil \<equiv> 0"

definition Second :: duration where
  "Second = 1000000000"

definition Hour :: duration where
  "Hour = 3600 * Second"

text \<open>The zero \<open>time.Time\<close> (January 1, year 1, UTC) on the nanosecond scale.\<close>

definition time_Zero :: time where
  "time_Zero = - 62135596800 * Second"

section \<open>Enumerations\<close>

datatype AccountStatus = AccountStatusActive | AccountStatusFrozen | AccountStatusClosed

datatype TransactionStatus =
  TxnStatusPending | TxnStatusCompleted | TxnStatusFailed | TxnStatusReversed

datatype EntryType = EntryTypeCredit | EntryTypeDebit

section \<open>Entities\<close>

record User =
  u_ID :: uuid
  u_Username :: string
  u_Email :: string
  u_PasswordHash :: string
  u_FullName :: string
  u_IsSystemUser :: bool
  u_IsActive :: bool
  u_CreatedAt :: time
  u_UpdatedAt :: time

record Account =
  a_ID :: uuid
  a_UserID :: uuid
  a_Currency :: string
  a_Status :: AccountStatus
  a_CreatedAt :: time

record Transaction =
  t_ID :: uuid
  t_FromAccountID :: uuid
  t_ToAccountID :: uuid
  t_Amount :: decimal
  t_Status :: TransactionStatus
  t_IdempotencyKey :: uuid
  t_CreatedAt :: time
  t_UpdatedAt :: time

record LedgerEntry =
  l_ID :: uuid
  l_AccountID :: uuid
  l_TransactionID :: uuid
  l_Amount :: decimal
  l_EntryType :: EntryType
  l_CreatedAt :: time

section \<open>Requests and responses\<close>

record TransferRequest =
  req_FromAccountID :: uuid
  req_ToAccountID :: uuid
  req_Amount :: decimal
  req_IdempotencyKey :: uuid

record TransferResponse =
  res_TransactionID :: uuid
  res_Status :: TransactionStatus
  res_Message :: string

record RegisterRequest =
  reg_Username :: string
  reg_Email :: string
  reg_Password :: string
  reg_FullName :: string

record LoginRequest =
  log_Username :: string
  log_Password :: string

record AuthResponse =
  auth_User :: User
  auth_Token :: string

record FundRequest =
  fund_ToAccountID :: uuid
  fund_Amount :: decimal

record FundResponse =
  fres_TransactionID :: uuid
  fres_ToAccountID :: uuid
  fres_Amount :: decimal
  fres_Status :: TransactionStatus
  fres_Message :: string

record TransactionHistoryItem =
  h_ID :: uuid
  h_FromAccountID :: uuid
  h_ToAccountID :: uuid
  h_Amount :: decimal
  h_Status :: TransactionStatus
  h_IdempotencyKey :: uuid
  h_CreatedAt :: time
  h_UpdatedAt :: time
  h_Direction :: string

record PaginatedHistory =
  ph_Items :: "TransactionHistoryItem list"
  ph_Total :: int
  ph_Page :: int
  ph_PerPage :: int
  ph_TotalPages :: int

record BalanceResponse =
  b_AccountID :: uuid
  b_Currency :: string
  b_Balance :: string

end
