(* ===== verification/Schema.thy ===== *)
theory Schema
  imports Domain_Model
begin

text \<open>
  The database of sql/V1__init\_schema.sql: the four tables as lists of rows in
  insertion order, what an INSERT or UPDATE checks (column types, CHECK, UNIQUE,
  FOREIGN KEY) and what the triggers do. The ledger has no update or delete statement:
  the triggers reject both, and the program issues neither. A \<open>NUMERIC(18,4)\<close>
  column holds a whole number of units of 1/10000.

  The invariant \<open>schema_ok\<close> collects what the constraints promise of the committed
  rows; every statement keeps it. The balance of an account is the signed sum of its
  ledger rows.
\<close>

named_theorems stmt_defs "definitions of the SQL statements"

section \<open>Tables\<close>

record txn_row =
  tr_id :: uuid
  tr_from :: uuid
  tr_to :: uuid
  tr_amount :: int
  tr_status :: TransactionStatus
  tr_key :: uuid
  tr_created :: time
  tr_updated :: time

record ledger_row =
  lr_id :: uuid
  lr_account :: uuid
  lr_txn :: uuid
  lr_amount :: int
  lr_type :: EntryType
  lr_created :: time

record db =
  users :: "User list"
  accounts :: "Account list"
  transactions :: "txn_row list"
  ledger :: "ledger_row list"

section \<open>Column types\<close>

text \<open>
  Storing a number in \<open>NUMERIC(18,4)\<close> rounds it to four fractional digits, ties away
  from zero, and fails when more than fourteen integer digits remain.
\<close>

definition round_half_away :: "rat \<Rightarrow> int" where
  "round_half_away y = (if 0 \<le> y then \<lfloor>y + 1 / 2\<rfloor> else - \<lfloor>1 / 2 - y\<rfloor>)"

definition numeric_18_4 :: "rat \<Rightarrow> int option" where
  "numeric_18_4 x =
     (let n = round_half_away (x * 10000) in if \<bar>n\<bar> < 10 ^ 18 then Some n else None)"

definition decimal_of_numeric :: "int \<Rightarrow> decimal" where
  "decimal_of_numeric n = of_int n / 10000"

text \<open>
  \<open>VARCHAR(n)\<close> counts characters of UTF-8 text, that is bytes that do not continue a
  character. A longer text is an error, unless everything beyond the limit is spaces,
  which are cut off.
\<close>

definition utf8_starts :: "char \<Rightarrow> bool" where
  "utf8_starts c \<longleftrightarrow> \<not> (128 \<le> (of_char c :: nat) \<and> (of_char c :: nat) < 192)"

fun utf8_split :: "nat \<Rightarrow> string \<Rightarrow> string \<times> string" where
  "utf8_split n [] = ([], [])"
| "utf8_split n (c # cs) =
     (if utf8_starts c
      then (case n of 0 \<Rightarrow> ([], c # cs) | Suc m \<Rightarrow> (case utf8_split m cs of (p, q) \<Rightarrow> (c # p, q)))
      else (case utf8_split n cs of (p, q) \<Rightarrow> (c # p, q)))"

definition varchar :: "nat \<Rightarrow> string \<Rightarrow> string option" where
  "varchar n s =
     (case utf8_split n s of (p, q) \<Rightarrow>
        if q = [] then Some s else if list_all (\<lambda>c. c = CHR '' '') q then Some p else None)"

text \<open>
  Text parameters must be well-formed UTF-8 without a zero byte; the server refuses any
  other text before it looks at the column's limit. \<open>utf8_next\<close> reads one
  character: neither overlong forms nor surrogates are characters.
\<close>

definition in_range :: "nat \<Rightarrow> nat \<Rightarrow> char \<Rightarrow> bool" where
  "in_range lo hi c \<longleftrightarrow> lo \<le> of_char c \<and> of_char c \<le> hi"

definition utf8_next :: "string \<Rightarrow> string option" where
  "utf8_next s =
     (case s of
        [] \<Rightarrow> None
      | a # r \<Rightarrow>
        if in_range 1 127 a then Some r
        else (case r of
          [] \<Rightarrow> None
        | b # r \<Rightarrow>
          if in_range 0xC2 0xDF a then (if in_range 0x80 0xBF b then Some r else None)
          else (case r of
            [] \<Rightarrow> None
          | c # r \<Rightarrow>
            if in_range 0xE0 0xEF a
            then (if in_range (if a = CHR 0xE0 then 0xA0 else 0x80) (if a = CHR 0xED then 0x9F else 0xBF) b \<and>
                     in_range 0x80 0xBF c then Some r else None)
            else (case r of
              [] \<Rightarrow> None
            | d # r \<Rightarrow>
              if in_range 0xF0 0xF4 a \<and>
                 in_range (if a = CHR 0xF0 then 0x90 else 0x80) (if a = CHR 0xF4 then 0x8F else 0xBF) b \<and>
                 in_range 0x80 0xBF c \<and> in_range 0x80 0xBF d
              then Some r else None))))"

lemma utf8_next_shorter: "utf8_next s = Some r \<Longrightarrow> length r < length s"
  by (auto simp: utf8_next_def split: list.splits if_splits)

function pg_text :: "string \<Rightarrow> bool" where
  "pg_text s \<longleftrightarrow> s = [] \<or> (case utf8_next s of None \<Rightarrow> False | Some r \<Rightarrow> pg_text r)"
  by pat_completeness auto
termination by (relation "measure length") (auto dest: utf8_next_shorter)

declare pg_text.simps [simp del]

lemma pg_text_Nil: "pg_text []"
  by (subst pg_text.simps) simp

lemma pg_text_ascii: "list_all (in_range 1 127) s \<Longrightarrow> pg_text s"
proof (induction s)
  case Nil
  show ?case by (rule pg_text_Nil)
next
  case (Cons c cs)
  then have "utf8_next (c # cs) = Some cs" by (simp add: utf8_next_def)
  with Cons show ?case by (subst pg_text.simps) simp
qed

lemma utf8_split_short: "length s \<le> n \<Longrightarrow> utf8_split n s = (s, [])"
  by (induction n s rule: utf8_split.induct) (auto split: nat.splits)

lemma varchar_short: "length s \<le> n \<Longrightarrow> varchar n s = Some s"
  by (simp add: varchar_def utf8_split_short)

section \<open>Statements\<close>

text \<open>A statement fails with a condition, or gives a result and the new tables.\<close>

type_synonym 'a stmt = "db \<Rightarrow> pq_condition + ('a \<times> db)"

definition insert_users :: "User \<Rightarrow> time \<Rightarrow> unit stmt" where
  [stmt_defs]: "insert_users u now d =
     (if \<not> list_all pg_text [u_Username u, u_Email u, u_PasswordHash u, u_FullName u] then Inl (InvalidText ''users'')
      else
      case (varchar 50 (u_Username u), varchar 255 (u_Email u),
            varchar 255 (u_PasswordHash u), varchar 100 (u_FullName u)) of
        (Some un, Some em, Some ph, Some fn) \<Rightarrow>
          (let row = u\<lparr>u_Username := un, u_Email := em, u_PasswordHash := ph, u_FullName := fn,
                       u_CreatedAt := now, u_UpdatedAt := now\<rparr> in
           if u_ID row \<in> u_ID ` set (users d) then Inl (UniqueViolation ''users_pkey'')
           else if un \<in> u_Username ` set (users d) then Inl (UniqueViolation ''users_username_key'')
           else if em \<in> u_Email ` set (users d) then Inl (UniqueViolation ''users_email_key'')
           else Inr ((), d\<lparr>users := users d @ [row]\<rparr>))
      | _ \<Rightarrow> Inl (StringTooLong ''users''))"

definition insert_accounts :: "Account \<Rightarrow> time \<Rightarrow> unit stmt" where
  [stmt_defs]: "insert_accounts a now d =
     (if \<not> pg_text (a_Currency a) then Inl (InvalidText ''accounts'')
      else
      case varchar 3 (a_Currency a) of
        None \<Rightarrow> Inl (StringTooLong ''accounts'')
      | Some cur \<Rightarrow>
          (let row = a\<lparr>a_Currency := cur, a_CreatedAt := now\<rparr> in
           if a_ID row \<in> a_ID ` set (accounts d) then Inl (UniqueViolation ''accounts_pkey'')
           else if a_UserID row \<notin> u_ID ` set (users d)
             then Inl (ForeignKeyViolation ''accounts_user_id_fkey'')
           else Inr ((), d\<lparr>accounts := accounts d @ [row]\<rparr>)))"

definition insert_transactions :: "Transaction \<Rightarrow> time \<Rightarrow> unit stmt" where
  [stmt_defs]: "insert_transactions t now d =
     (case numeric_18_4 (t_Amount t) of
        None \<Rightarrow> Inl (NumericOverflow ''transactions.amount'')
      | Some n \<Rightarrow>
          if \<not> 0 < n then Inl (CheckViolation ''transactions_amount_check'')
          else if t_FromAccountID t = t_ToAccountID t
            then Inl (CheckViolation ''chk_different_accounts'')
          else if t_ID t \<in> tr_id ` set (transactions d)
            then Inl (UniqueViolation ''transactions_pkey'')
          else if t_IdempotencyKey t \<in> tr_key ` set (transactions d)
            then Inl (UniqueViolation ''transactions_idempotency_key_key'')
          else if t_FromAccountID t \<notin> a_ID ` set (accounts d)
            then Inl (ForeignKeyViolation ''transactions_from_account_id_fkey'')
          else if t_ToAccountID t \<notin> a_ID ` set (accounts d)
            then Inl (ForeignKeyViolation ''transactions_to_account_id_fkey'')
          else Inr ((), d\<lparr>transactions := transactions d @
                 [\<lparr>tr_id = t_ID t, tr_from = t_FromAccountID t, tr_to = t_ToAccountID t,
                   tr_amount = n, tr_status = t_Status t, tr_key = t_IdempotencyKey t,
                   tr_created = now, tr_updated = now\<rparr>]\<rparr>))"

definition insert_ledger :: "LedgerEntry \<Rightarrow> time \<Rightarrow> unit stmt" where
  [stmt_defs]: "insert_ledger e now d =
     (case numeric_18_4 (l_Amount e) of
        None \<Rightarrow> Inl (NumericOverflow ''ledger.amount'')
      | Some n \<Rightarrow>
          if \<not> 0 < n then Inl (CheckViolation ''ledger_amount_check'')
          else if l_ID e \<in> lr_id ` set (ledger d) then Inl (UniqueViolation ''ledger_pkey'')
          else if l_AccountID e \<notin> a_ID ` set (accounts d)
            then Inl (ForeignKeyViolation ''ledger_account_id_fkey'')
          else if l_TransactionID e \<notin> tr_id ` set (transactions d)
            then Inl (ForeignKeyViolation ''ledger_transaction_id_fkey'')
          else Inr ((), d\<lparr>ledger := ledger d @
                 [\<lparr>lr_id = l_ID e, lr_account = l_AccountID e, lr_txn = l_TransactionID e,
                   lr_amount = n, lr_type = l_EntryType e, lr_created = now\<rparr>]\<rparr>))"

text \<open>
  \<open>UPDATE transactions SET status = $1 WHERE id = $2\<close>, with the trigger
  \<open>trg_transactions_updated_at\<close>; the result is the number of rows changed.
\<close>

definition update_txn_status :: "TransactionStatus \<Rightarrow> uuid \<Rightarrow> time \<Rightarrow> int stmt" where
  [stmt_defs]: "update_txn_status st i now d =
     Inr (int (length (filter (\<lambda>r. tr_id r = i) (transactions d))),
          d\<lparr>transactions := map (\<lambda>r. if tr_id r = i then r\<lparr>tr_status := st, tr_updated := now\<rparr> else r)
                              (transactions d)\<rparr>)"

section \<open>Balances\<close>

text \<open>
  \<open>SUM(CASE WHEN entry_type = 'Credit' THEN amount WHEN entry_type = 'Debit' THEN -amount END)\<close>
  over the ledger rows of an account, 0 when there is none.
\<close>

definition signed_amount :: "ledger_row \<Rightarrow> int" where
  "signed_amount l = (case lr_type l of EntryTypeCredit \<Rightarrow> lr_amount l | EntryTypeDebit \<Rightarrow> - lr_amount l)"

definition balance_of :: "ledger_row list \<Rightarrow> uuid \<Rightarrow> int" where
  "balance_of ls a = sum_list (map signed_amount (filter (\<lambda>l. lr_account l = a) ls))"

definition total_balance :: "db \<Rightarrow> int" where
  "total_balance d = sum_list (map (\<lambda>a. balance_of (ledger d) (a_ID a)) (accounts d))"

section \<open>Seed\<close>

definition system_uuid :: uuid where
  "system_uuid = 1"

definition seed_db :: "time \<Rightarrow> db" where
  "seed_db now =
     \<lparr>users = [\<lparr>u_ID = system_uuid, u_Username = ''the_vault_system'',
                u_Email = ''system@thevault.internal'',
                u_PasswordHash = ''--- SYSTEM ACCOUNT '' @ [CHR 0xE2, CHR 0x80, CHR 0x94] @ '' NO LOGIN ---'',
                u_FullName = ''The Vault System'', u_IsSystemUser = True, u_IsActive = True,
                u_CreatedAt = now, u_UpdatedAt = now\<rparr>],
      accounts = [\<lparr>a_ID = system_uuid, a_UserID = system_uuid, a_Currency = ''INR'',
                   a_Status = AccountStatusActive, a_CreatedAt = now\<rparr>],
      transactions = [],
      ledger = []\<rparr>"


section \<open>Rounding\<close>

lemma round_half_away_le: "y \<le> of_int n \<Longrightarrow> round_half_away y \<le> n"
proof -
  assume le: "y \<le> of_int n"
  have "\<lfloor>y + 1 / 2\<rfloor> \<le> n" using le by (simp add: floor_le_iff)
  moreover have "- n \<le> \<lfloor>1 / 2 - y\<rfloor>" using le by (simp add: le_floor_iff)
  ultimately show ?thesis by (simp add: round_half_away_def)
qed

lemma round_half_away_of_int [simp]: "round_half_away (of_int n) = n"
proof -
  have "\<lfloor>of_int n + 1 / 2 :: rat\<rfloor> = n" by (simp add: floor_eq_iff)
  moreover have "\<lfloor>1 / 2 - of_int n :: rat\<rfloor> = - n" by (simp add: floor_eq_iff)
  ultimately show ?thesis by (simp add: round_half_away_def)
qed

lemma numeric_18_4_SomeD:
  "numeric_18_4 x = Some n \<Longrightarrow> n = round_half_away (x * 10000) \<and> \<bar>n\<bar> < 10 ^ 18"
  by (auto simp: numeric_18_4_def Let_def split: if_splits)

text \<open>
  The check against the balance is made on the exact amount, the booking on the rounded
  one: a balance is a whole number of units, so rounding never passes it.
\<close>

lemma numeric_le_balance:
  assumes "x \<le> decimal_of_numeric b" and "numeric_18_4 x = Some n"
  shows "n \<le> b"
proof -
  from assms(1) have "x * 10000 \<le> of_int b" by (simp add: decimal_of_numeric_def)
  then have "round_half_away (x * 10000) \<le> b" by (rule round_half_away_le)
  with assms(2) show ?thesis by (auto dest: numeric_18_4_SomeD)
qed

lemma numeric_decimal_roundtrip: "\<bar>n\<bar> < 10 ^ 18 \<Longrightarrow> numeric_18_4 (decimal_of_numeric n) = Some n"
  by (simp add: numeric_18_4_def decimal_of_numeric_def)

section \<open>The books of an account\<close>

text \<open>
  What a book of postings promises: posting an entry adds its signed amount to the
  balance of its account and to no other. From this law alone follow that a debit and a
  credit of the same amount leave the total unchanged, that a single credit raises it by
  the amount, and that a covered debit keeps every balance non-negative.
\<close>

locale posting_book =
  fixes bal :: "'b \<Rightarrow> 'a \<Rightarrow> int"
    and post :: "'e \<Rightarrow> 'b \<Rightarrow> 'b"
    and acct :: "'e \<Rightarrow> 'a"
    and delta :: "'e \<Rightarrow> int"
  assumes bal_post: "bal (post e b) a = bal b a + (if acct e = a then delta e else 0)"
begin

lemma sum_post:
  assumes "finite A"
  shows "(\<Sum>a\<in>A. bal (post e b) a) = (\<Sum>a\<in>A. bal b a) + (if acct e \<in> A then delta e else 0)"
  using assms by (simp add: bal_post sum.distrib sum.delta)

lemma sum_post_pair:
  assumes "finite A" and "acct d \<in> A" and "acct c \<in> A" and "delta c = - delta d"
  shows "(\<Sum>a\<in>A. bal (post c (post d b)) a) = (\<Sum>a\<in>A. bal b a)"
  using assms by (simp add: sum_post)

lemma post_covered_nonneg:
  assumes "\<And>a. 0 \<le> bal b a" and "- delta d \<le> bal b (acct d)" and "0 \<le> delta c"
  shows "0 \<le> bal (post c (post d b)) a"
  using assms(1) [of a] assms(2,3) by (auto simp: bal_post)

lemma post_credit_nonneg:
  assumes "\<And>a. 0 \<le> bal b a" and "0 \<le> delta c"
  shows "0 \<le> bal (post c b) a"
  using assms(1) [of a] assms(2) by (simp add: bal_post)

end

definition post_row :: "ledger_row \<Rightarrow> ledger_row list \<Rightarrow> ledger_row list" where
  "post_row l ls = ls @ [l]"

lemma balance_of_Nil [simp]: "balance_of [] a = 0"
  by (simp add: balance_of_def)

lemma balance_of_append [simp]: "balance_of (ls @ ms) a = balance_of ls a + balance_of ms a"
  by (simp add: balance_of_def)

lemma balance_of_single [simp]:
  "balance_of [l] a = (if lr_account l = a then signed_amount l else 0)"
  by (simp add: balance_of_def)

interpretation book: posting_book balance_of post_row lr_account signed_amount
  by unfold_locales (simp add: post_row_def)

lemma balance_of_Cons:
  "balance_of (l # ls) a = (if lr_account l = a then signed_amount l else 0) + balance_of ls a"
  by (simp add: balance_of_def)

lemma total_balance_sum:
  "distinct (map a_ID (accounts d)) \<Longrightarrow>
     total_balance d = (\<Sum>a \<in> a_ID ` set (accounts d). balance_of (ledger d) a)"
  using sum_list_distinct_conv_sum_set [of "map a_ID (accounts d)" "balance_of (ledger d)"]
  by (simp add: total_balance_def comp_def)

section \<open>What the constraints promise\<close>

definition users_ok :: "db \<Rightarrow> bool" where
  "users_ok d \<longleftrightarrow> distinct (map u_ID (users d)) \<and> distinct (map u_Username (users d)) \<and>
     distinct (map u_Email (users d))"

definition accounts_ok :: "db \<Rightarrow> bool" where
  "accounts_ok d \<longleftrightarrow> distinct (map a_ID (accounts d)) \<and>
     a_UserID ` set (accounts d) \<subseteq> u_ID ` set (users d)"

definition transactions_ok :: "db \<Rightarrow> bool" where
  "transactions_ok d \<longleftrightarrow> distinct (map tr_id (transactions d)) \<and> distinct (map tr_key (transactions d)) \<and>
     (\<forall>r \<in> set (transactions d). 0 < tr_amount r \<and> tr_amount r < 10 ^ 18 \<and> tr_from r \<noteq> tr_to r \<and>
        tr_from r \<in> a_ID ` set (accounts d) \<and> tr_to r \<in> a_ID ` set (accounts d))"

definition ledger_ok :: "db \<Rightarrow> bool" where
  "ledger_ok d \<longleftrightarrow> distinct (map lr_id (ledger d)) \<and>
     (\<forall>l \<in> set (ledger d). 0 < lr_amount l \<and> lr_amount l < 10 ^ 18 \<and>
        lr_account l \<in> a_ID ` set (accounts d) \<and> lr_txn l \<in> tr_id ` set (transactions d))"

definition schema_ok :: "db \<Rightarrow> bool" where
  "schema_ok d \<longleftrightarrow> users_ok d \<and> accounts_ok d \<and> transactions_ok d \<and> ledger_ok d"

lemmas schema_defs = schema_ok_def users_ok_def accounts_ok_def transactions_ok_def ledger_ok_def

lemma schema_ok_seed: "schema_ok (seed_db now)"
  by (simp add: schema_defs seed_db_def)

text \<open>Inversion of the statements: what a successful one has checked and appended.\<close>

lemma insert_users_Inr:
  assumes "insert_users u now d = Inr (x, d')"
  obtains un em ph fn where
    "d' = d\<lparr>users := users d @ [u\<lparr>u_Username := un, u_Email := em, u_PasswordHash := ph,
            u_FullName := fn, u_CreatedAt := now, u_UpdatedAt := now\<rparr>]\<rparr>"
    and "varchar 50 (u_Username u) = Some un" and "varchar 255 (u_Email u) = Some em"
    and "varchar 255 (u_PasswordHash u) = Some ph" and "varchar 100 (u_FullName u) = Some fn"
    and "u_ID u \<notin> u_ID ` set (users d)" and "un \<notin> u_Username ` set (users d)"
    and "em \<notin> u_Email ` set (users d)"
  using assms by (auto simp: insert_users_def Let_def split: option.splits if_splits)

lemma insert_accounts_Inr:
  assumes "insert_accounts a now d = Inr (x, d')"
  obtains cur where "d' = d\<lparr>accounts := accounts d @ [a\<lparr>a_Currency := cur, a_CreatedAt := now\<rparr>]\<rparr>"
    and "varchar 3 (a_Currency a) = Some cur"
    and "a_ID a \<notin> a_ID ` set (accounts d)" and "a_UserID a \<in> u_ID ` set (users d)"
  using assms by (auto simp: insert_accounts_def Let_def split: option.splits if_splits)

lemma insert_transactions_Inr:
  assumes "insert_transactions t now d = Inr (x, d')"
  obtains n where "numeric_18_4 (t_Amount t) = Some n" and "0 < n" and "n < 10 ^ 18"
    and "t_FromAccountID t \<noteq> t_ToAccountID t"
    and "t_ID t \<notin> tr_id ` set (transactions d)"
    and "t_IdempotencyKey t \<notin> tr_key ` set (transactions d)"
    and "t_FromAccountID t \<in> a_ID ` set (accounts d)" and "t_ToAccountID t \<in> a_ID ` set (accounts d)"
    and "d' = d\<lparr>transactions := transactions d @
                 [\<lparr>tr_id = t_ID t, tr_from = t_FromAccountID t, tr_to = t_ToAccountID t,
                   tr_amount = n, tr_status = t_Status t, tr_key = t_IdempotencyKey t,
                   tr_created = now, tr_updated = now\<rparr>]\<rparr>"
  using assms
  by (auto simp: insert_transactions_def split: option.splits if_splits dest: numeric_18_4_SomeD)

lemma insert_ledger_Inr:
  assumes "insert_ledger e now d = Inr (x, d')"
  obtains n where "numeric_18_4 (l_Amount e) = Some n" and "0 < n" and "n < 10 ^ 18"
    and "l_ID e \<notin> lr_id ` set (ledger d)"
    and "l_AccountID e \<in> a_ID ` set (accounts d)" and "l_TransactionID e \<in> tr_id ` set (transactions d)"
    and "d' = d\<lparr>ledger := ledger d @
                 [\<lparr>lr_id = l_ID e, lr_account = l_AccountID e, lr_txn = l_TransactionID e,
                   lr_amount = n, lr_type = l_EntryType e, lr_created = now\<rparr>]\<rparr>"
  using assms
  by (auto simp: insert_ledger_def split: option.splits if_splits dest: numeric_18_4_SomeD)

lemma insert_users_ok:
  assumes "insert_users u now d = Inr (x, d')" and "schema_ok d"
  shows "schema_ok d'"
proof -
  obtain row where d': "d' = d\<lparr>users := users d @ [row]\<rparr>" and "u_ID row \<notin> u_ID ` set (users d)"
    and "u_Username row \<notin> u_Username ` set (users d)" and "u_Email row \<notin> u_Email ` set (users d)"
    by (rule insert_users_Inr [OF assms(1)]) simp
  then have "users_ok d'" using assms(2) by (simp add: schema_ok_def users_ok_def)
  then show ?thesis using assms(2)
    by (auto simp: d' schema_ok_def accounts_ok_def transactions_ok_def ledger_ok_def)
qed

lemma insert_accounts_ok:
  assumes "insert_accounts a now d = Inr (x, d')" and "schema_ok d"
  shows "schema_ok d'"
  using assms(1)
proof (rule insert_accounts_Inr)
  fix cur
  assume d': "d' = d\<lparr>accounts := accounts d @ [a\<lparr>a_Currency := cur, a_CreatedAt := now\<rparr>]\<rparr>"
    and "a_ID a \<notin> a_ID ` set (accounts d)" and "a_UserID a \<in> u_ID ` set (users d)"
  then have "accounts_ok d'" using assms(2) by (simp add: schema_ok_def accounts_ok_def)
  then show ?thesis using assms(2)
    by (simp add: d' schema_ok_def users_ok_def transactions_ok_def ledger_ok_def)
qed

lemma insert_transactions_ok:
  assumes "insert_transactions t now d = Inr (x, d')" and "schema_ok d"
  shows "schema_ok d'"
  by (rule insert_transactions_Inr [OF assms(1)])
    (use assms(2) in \<open>simp add: schema_ok_def users_ok_def accounts_ok_def transactions_ok_def ledger_ok_def\<close>)

lemma insert_ledger_ok:
  assumes "insert_ledger e now d = Inr (x, d')" and "schema_ok d"
  shows "schema_ok d'"
  by (rule insert_ledger_Inr [OF assms(1)])
    (use assms(2) in \<open>simp add: schema_ok_def users_ok_def accounts_ok_def transactions_ok_def ledger_ok_def\<close>)

lemma map_status_keys [simp]:
  "map tr_id (map (\<lambda>r. if tr_id r = i then r\<lparr>tr_status := st, tr_updated := now\<rparr> else r) rs) = map tr_id rs"
  "map tr_key (map (\<lambda>r. if tr_id r = i then r\<lparr>tr_status := st, tr_updated := now\<rparr> else r) rs) = map tr_key rs"
  by (induction rs) auto

lemma update_txn_status_ok:
  "update_txn_status st i now d = Inr (n, d') \<Longrightarrow> schema_ok d \<Longrightarrow> schema_ok d'"
proof -
  let ?g = "\<lambda>r. if tr_id r = i then r\<lparr>tr_status := st, tr_updated := now\<rparr> else r"
  assume "update_txn_status st i now d = Inr (n, d')" and ok: "schema_ok d"
  then have d': "d' = d\<lparr>transactions := map ?g (transactions d)\<rparr>"
    by (simp add: stmt_defs)
  have "tr_id ` set (map ?g (transactions d)) = tr_id ` set (transactions d)"
    by (simp only: list.set_map [symmetric] map_status_keys)
  moreover have "transactions_ok d'"
    using ok by (auto simp: d' schema_ok_def transactions_ok_def simp del: map_map)
  ultimately show ?thesis
    using ok by (simp add: d' schema_ok_def users_ok_def accounts_ok_def ledger_ok_def)
qed

end
