(* ===== verification/Go_Std.thy ===== *)
theory Go_Std
  imports Domain_Model
begin

text \<open>
  What the program uses of Go's standard library for numbers: decimal integers
  (\<open>strconv\<close>), the text of a duration, and the conversion of a 64-bit integer to a
  double.
\<close>

section \<open>Numbers as texts and as doubles\<close>

fun nat_digits :: "nat \<Rightarrow> string" where
  "nat_digits n = (if n < 10 then [char_of (48 + n)] else nat_digits (n div 10) @ [char_of (48 + n mod 10)])"

declare nat_digits.simps [simp del]

text \<open>\<open>strconv.Itoa\<close> and \<open>strconv.FormatInt(n, 10)\<close>.\<close>

definition FormatInt :: "int \<Rightarrow> string" where
  "FormatInt n = (if n < 0 then CHR ''-'' # nat_digits (nat (- n)) else nat_digits (nat n))"

text \<open>\<open>float64(n)\<close>: 53 significant bits, ties to even. The value is again an integer.\<close>

definition round_even :: "nat \<Rightarrow> nat \<Rightarrow> nat" where
  "round_even a k =
     (let q = a div 2 ^ k; r = a mod 2 ^ k in
      (if 2 ^ k < 2 * r \<or> (2 * r = 2 ^ k \<and> odd q) then Suc q else q) * 2 ^ k)"

fun bit_length :: "nat \<Rightarrow> nat" where
  "bit_length n = (if n = 0 then 0 else Suc (bit_length (n div 2)))"

declare bit_length.simps [simp del]

definition float64_of_int :: "int \<Rightarrow> int" where
  "float64_of_int n = sgn n * int (round_even (nat \<bar>n\<bar>) (bit_length (nat \<bar>n\<bar>) - 53))"

text \<open>
  The double \<open>float64(a) / float64(b)\<close> of two integers that are doubles, the second positive:
  the quotient with \<open>53 + bit_length b\<close> more bits than its integer part has at least 53
  significant ones; what lies beyond them decides the rounding.
\<close>

definition float64_div :: "nat \<Rightarrow> nat \<Rightarrow> rat" where
  "float64_div a b =
     (let s = 53 + bit_length b; N = a * 2 ^ s div b; sticky = (if a * 2 ^ s mod b = 0 then 0 else 1 :: nat);
          k = bit_length N - 53; q = N div 2 ^ k; r = 2 * (N mod 2 ^ k) + sticky in
      of_nat ((if 2 ^ k < r \<or> (r = 2 ^ k \<and> odd q) then Suc q else q) * 2 ^ k) / 2 ^ s)"

text \<open>\<open>Duration.String\<close>.\<close>

fun frac_digits :: "nat \<Rightarrow> nat \<Rightarrow> string" where
  "frac_digits 0 v = []"
| "frac_digits (Suc k) v = frac_digits k (v div 10) @ [char_of (48 + v mod 10)]"

definition fmtFrac :: "nat \<Rightarrow> nat \<Rightarrow> string" where
  "fmtFrac prec v =
     (let ds = rev (dropWhile (\<lambda>c. c = CHR ''0'') (rev (frac_digits prec v))) in
      if ds = [] then [] else CHR ''.'' # ds)"

definition Duration_String :: "duration \<Rightarrow> string" where
  "Duration_String d =
     (if d = 0 then ''0s''
      else (let u = nat \<bar>d\<bar>; sign = (if d < 0 then ''-'' else '''') in
        sign @
        (if u < 1000 then nat_digits u @ ''ns''
         else if u < 1000000 then nat_digits (u div 1000) @ fmtFrac 3 u @ [CHR 0xC2, CHR 0xB5, CHR ''s'']
         else if u < 1000000000 then nat_digits (u div 1000000) @ fmtFrac 6 u @ ''ms''
         else
           (let secs = u div 1000000000; mins = secs div 60; hours = mins div 60 in
            (if hours = 0 then '''' else nat_digits hours @ ''h'') @
            (if mins = 0 then '''' else nat_digits (mins mod 60) @ ''m'') @
            nat_digits (secs mod 60) @ fmtFrac 9 u @ ''s''))))"

text \<open>
  \<open>strconv.Atoi\<close>: an optional sign and decimal digits; reading stops with a range error
  as soon as the value leaves 64 unsigned bits, and with a syntax error at anything that is
  no digit. The second component is the value \<open>n\<close> of \<open>n, err := strconv.Atoi(s)\<close>: a
  syntax error leaves it at 0, a range error at the nearest representable number.
\<close>

definition is_digit :: "char \<Rightarrow> bool" where
  "is_digit c \<longleftrightarrow> 48 \<le> (of_char c :: nat) \<and> (of_char c :: nat) \<le> 57"

fun parse_uint :: "nat \<Rightarrow> string \<Rightarrow> nat option" where
  "parse_uint v [] = Some v"
| "parse_uint v (c # cs) =
     (if \<not> is_digit c then None
      else (let n = 10 * v + (of_char c - 48) in if 2 ^ 64 \<le> n then Some (2 ^ 64 - 1) else parse_uint n cs))"

definition Atoi :: "string \<Rightarrow> bool \<times> int" where
  "Atoi s =
     (let neg = (case s of c # _ \<Rightarrow> c = CHR ''-'' | [] \<Rightarrow> False);
          ds = (case s of c # cs \<Rightarrow> if c = CHR ''-'' \<or> c = CHR ''+'' then cs else s | [] \<Rightarrow> []) in
      if ds = [] then (False, 0)
      else (case parse_uint 0 ds of
          None \<Rightarrow> (False, 0)
        | Some un \<Rightarrow>
            if \<not> neg \<and> 2 ^ 63 \<le> un then (False, 2 ^ 63 - 1)
            else if neg \<and> 2 ^ 63 < un then (False, - (2 ^ 63))
            else (True, if neg then - int un else int un)))"

section \<open>Laws\<close>

lemma of_char_digit: "n < 10 \<Longrightarrow> of_char (char_of (48 + n) :: char) = (48 + n :: nat)"
  by (simp add: of_char_of)

lemma is_digit_char: "n < 10 \<Longrightarrow> is_digit (char_of (48 + n :: nat))"
  unfolding is_digit_def by (simp add: of_char_digit del: of_char_of)

lemma nat_digits_Nil [simp]: "nat_digits n \<noteq> []"
  by (subst nat_digits.simps) simp

lemma nat_digits_is_digit: "c \<in> set (nat_digits n) \<Longrightarrow> is_digit c"
  by (induction n arbitrary: c rule: nat_digits.induct) (subst (asm) (2) nat_digits.simps, auto simp: is_digit_char split: if_splits)

lemma parse_uint_snoc:
  "parse_uint v s = Some u \<Longrightarrow> 10 * u + d < 2 ^ 64 \<Longrightarrow> d < 10 \<Longrightarrow>
     parse_uint v (s @ [char_of (48 + d :: nat)]) = Some (10 * u + d)"
  by (induction v s rule: parse_uint.induct)
    (auto simp: Let_def is_digit_char of_char_digit split: if_splits simp del: of_char_of)

lemma parse_uint_digits: "n < 2 ^ 64 \<Longrightarrow> parse_uint 0 (nat_digits n) = Some n"
proof (induction n rule: nat_digits.induct)
  case (1 n)
  show ?case
  proof (cases "n < 10")
    case True
    then show ?thesis using 1 by (subst nat_digits.simps) (simp add: is_digit_char of_char_digit del: of_char_of)
  next
    case False
    then have "parse_uint 0 (nat_digits (n div 10)) = Some (n div 10)" using 1 by simp
    from parse_uint_snoc [OF this, of "n mod 10"] False 1 show ?thesis
      by (subst nat_digits.simps) simp
  qed
qed

lemma nat_digits_no_sign: "nat_digits n = c # cs \<Longrightarrow> c \<noteq> CHR ''-'' \<and> c \<noteq> CHR ''+''"
  using nat_digits_is_digit [of c n] by (auto simp: is_digit_def)

text \<open>Reading back what \<open>FormatInt\<close> printed.\<close>

lemma Atoi_FormatInt:
  assumes "- (2 ^ 63) \<le> n" and "n < 2 ^ 63"
  shows "Atoi (FormatInt n) = (True, n)"
proof (cases "n < 0")
  case True
  then have "parse_uint 0 (nat_digits (nat (- n))) = Some (nat (- n))"
    using assms by (intro parse_uint_digits) simp
  then show ?thesis using True assms by (simp add: FormatInt_def Atoi_def)
next
  case False
  then have p: "parse_uint 0 (nat_digits (nat n)) = Some (nat n)"
    using assms by (intro parse_uint_digits) simp
  obtain c cs where ds: "nat_digits (nat n) = c # cs" by (cases "nat_digits (nat n)") auto
  show ?thesis using p nat_digits_no_sign [OF ds] False assms
    unfolding FormatInt_def Atoi_def ds by (simp add: Let_def)
qed

definition digits_value :: "string \<Rightarrow> nat" where
  "digits_value s = foldl (\<lambda>v c. 10 * v + (of_char c - 48)) 0 s"

lemma nat_digits_value: "digits_value (nat_digits n) = n"
proof (induction n rule: nat_digits.induct)
  case (1 n)
  show ?case
  proof (cases "n < 10")
    case True
    then show ?thesis by (subst nat_digits.simps) (simp add: digits_value_def of_char_digit)
  next
    case False
    then show ?thesis using 1 by (subst nat_digits.simps) (simp add: digits_value_def of_char_digit)
  qed
qed

lemma nat_digits_inj: "nat_digits m = nat_digits n \<Longrightarrow> m = n"
  by (metis nat_digits_value)

lemma FormatInt_inj: "FormatInt m = FormatInt n \<Longrightarrow> m = n"
  using nat_digits_inj [of "nat m" "nat n"] nat_digits_inj [of "nat (- m)" "nat (- n)"] nat_digits_no_sign
  by (auto simp: FormatInt_def split: if_splits)
    (metis list.distinct(1))+

end
