(* ===== verification/Externals.thy ===== *)
theory Externals
  imports Schema Go_Std "HOL-Library.Multiset"
begin

text \<open>
  What the program calls but does not define: the libraries (uuid, decimal, bcrypt, jwt,
  the clock, the JSON decoding of a request body), the PostgreSQL server behind the driver and the Redis server. They are the
  fields of one record \<open>env\<close>, an argument of every definition that uses them; nothing
  is assumed of them here. What a theorem relies on is a predicate on \<open>env\<close> in its
  statement (the \<open>_spec\<close> definitions below).

  Every external call happens at an instant, a natural number that the program state
  counts up: \<open>uuid_New E n\<close> is the value \<open>uuid.New()\<close> returns at instant \<open>n\<close>,
  \<open>time_Now E n\<close> the clock then, \<open>pg_outcome E n\<close> what the driver reports for the
  statement sent then. So one theorem for all \<open>env\<close> covers every sequence of random
  values, clock readings and failures.
\<close>

section \<open>Tokens\<close>

text \<open>The claims of internal/auth/token.go: the registered ones that are set, and the own ones.\<close>

record Claims =
  c_ID :: string
  c_Issuer :: string
  c_Subject :: string
  c_IssuedAt :: time
  c_ExpiresAt :: time
  c_UserID :: uuid
  c_Username :: string
  c_IsSystemUser :: bool

text \<open>The signing method in a token's header, as the key function can tell it.\<close>

datatype jwt_method = SigningMethodHMAC string | OtherMethod string

section \<open>Outcomes of a statement and Redis commands\<close>

text \<open>
  The driver reports success (\<open>PgOk\<close>), or a failure before the server acted
  (\<open>PgFail\<close>: no connection, a serialization failure, a cancelled context), or a
  failure after it (\<open>PgLost\<close>: the acknowledgement was lost).
\<close>

datatype pg_outcome = PgOk | PgFail string | PgLost string

datatype redis_cmd =
    ZRemRangeByScore string int
  | ZCard string
  | ZAdd string int string
  | Expire string duration

section \<open>The environment\<close>

record 'r env =
  uuid_New :: "nat \<Rightarrow> uuid"
  uuid_String :: "uuid \<Rightarrow> string"
  uuid_Parse :: "string \<Rightarrow> uuid option"
  dec_IsPositive :: "decimal \<Rightarrow> bool"
  dec_LessThan :: "decimal \<Rightarrow> decimal \<Rightarrow> bool"
  dec_StringFixed :: "decimal \<Rightarrow> int \<Rightarrow> string"
  time_Now :: "nat \<Rightarrow> time"
  bcrypt_Generate :: "nat \<Rightarrow> string \<Rightarrow> int \<Rightarrow> string + string"
  bcrypt_Compare :: "string \<Rightarrow> string \<Rightarrow> string option"
  jwt_NewNumericDate :: "time \<Rightarrow> time"
  jwt_SignHS256 :: "Claims \<Rightarrow> string \<Rightarrow> string + string"
  jwt_Parse :: "nat \<Rightarrow> string \<Rightarrow> (jwt_method \<Rightarrow> goerr + string) \<Rightarrow> goerr + (Claims option \<times> bool)"
  pg_outcome :: "nat \<Rightarrow> pg_outcome"
  pg_now :: "nat \<Rightarrow> time"
  pg_scan_accounts :: "nat \<Rightarrow> Account list \<Rightarrow> Account list"
  pg_scan_transactions :: "nat \<Rightarrow> txn_row list \<Rightarrow> txn_row list"
  pq_Error :: "pq_condition \<Rightarrow> string"
  rdb_SetNX :: "nat \<Rightarrow> string \<Rightarrow> string \<Rightarrow> duration \<Rightarrow> 'r \<Rightarrow> (string + bool) \<times> 'r"
  rdb_Set :: "nat \<Rightarrow> string \<Rightarrow> string \<Rightarrow> duration \<Rightarrow> 'r \<Rightarrow> string option \<times> 'r"
  rdb_Del :: "nat \<Rightarrow> string \<Rightarrow> 'r \<Rightarrow> string option \<times> 'r"
  rdb_Exists :: "nat \<Rightarrow> string \<Rightarrow> 'r \<Rightarrow> (string + int) \<times> 'r"
  rdb_Pipeline :: "nat \<Rightarrow> redis_cmd list \<Rightarrow> 'r \<Rightarrow> (string + int list) \<times> 'r"
  rdb_ZRem :: "nat \<Rightarrow> string \<Rightarrow> string \<Rightarrow> 'r \<Rightarrow> 'r"
  json_Transfer :: "string \<Rightarrow> TransferRequest option"
  json_Fund :: "string \<Rightarrow> FundRequest option"
  json_Register :: "string \<Rightarrow> RegisterRequest option"
  json_Login :: "string \<Rightarrow> LoginRequest option"

section \<open>The state of the running system\<close>

text \<open>
  The committed database, the Redis server and the instant of the next external call.
  A transaction works on its own copy of the tables; it also records the row locks it
  has taken, in order.
\<close>

record 'r world =
  w_db :: db
  w_redis :: 'r
  w_tick :: nat

record pgtx =
  tx_db :: db
  tx_locks :: "uuid list"
  tx_now :: time
  tx_tick :: nat

section \<open>Documented behaviour that theorems rely on\<close>

text \<open>shopspring/decimal: \<open>IsPositive\<close> is \<open>d > 0\<close>, \<open>LessThan\<close> is \<open>d < d2\<close>.\<close>

definition decimal_spec :: "'r env \<Rightarrow> bool" where
  "decimal_spec E \<longleftrightarrow> (\<forall>x. dec_IsPositive E x = (0 < x)) \<and> (\<forall>x y. dec_LessThan E x y = (x < y))"

text \<open>google/uuid: the canonical text determines the identifier.\<close>

definition uuid_spec :: "'r env \<Rightarrow> bool" where
  "uuid_spec E \<longleftrightarrow> inj (uuid_String E)"

text \<open>PostgreSQL: a SELECT returns every row once; in which order is the server's choice.\<close>

definition scan_spec :: "'r env \<Rightarrow> bool" where
  "scan_spec E \<longleftrightarrow>
     (\<forall>n xs. mset (pg_scan_accounts E n xs) = mset xs) \<and> (\<forall>n xs. mset (pg_scan_transactions E n xs) = mset xs)"

lemma scan_accounts_set: "scan_spec E \<Longrightarrow> set (pg_scan_accounts E n xs) = set xs"
  by (metis scan_spec_def mset_eq_setD)

text \<open>
  Redis string commands, seen through \<open>kv r n\<close>, the live keys of server state
  \<open>r\<close> at instant \<open>n\<close>: a command that reports success has done what its
  documentation says, and touches no other key.
\<close>

definition redis_kv_spec :: "'r env \<Rightarrow> ('r \<Rightarrow> nat \<Rightarrow> string \<rightharpoonup> string) \<Rightarrow> bool" where
  "redis_kv_spec E kv \<longleftrightarrow>
     (\<forall>n k v ttl r b r'. rdb_SetNX E n k v ttl r = (Inr b, r') \<longrightarrow>
        b = (kv r n k = None) \<and> kv r' n = (if b then (kv r n)(k \<mapsto> v) else kv r n)) \<and>
     (\<forall>n k v ttl r r'. rdb_Set E n k v ttl r = (None, r') \<longrightarrow> kv r' n = (kv r n)(k \<mapsto> v)) \<and>
     (\<forall>n k r r'. rdb_Del E n k r = (None, r') \<longrightarrow> kv r' n = (kv r n)(k := None)) \<and>
     (\<forall>n k r c r'. rdb_Exists E n k r = (Inr c, r') \<longrightarrow>
        c = (if kv r n k = None then 0 else 1) \<and> kv r' n = kv r n)"

text \<open>
  Redis sorted sets, seen through \<open>zs r k\<close>, the scores stored under key \<open>k\<close>, and
  \<open>dl r k\<close>, the time at which the key expires: what the pipeline of the rate limiter and
  a removal do. Scores are doubles, so the limit of a removal is rounded like one. The time
  to live is exact, as it is for whole seconds, which the program's is (go-redis cuts off a
  fraction of a second), and a removal is taken to reach the server.
\<close>

definition live_zset ::
  "('r \<Rightarrow> string \<Rightarrow> string \<rightharpoonup> int) \<Rightarrow> ('r \<Rightarrow> string \<Rightarrow> time) \<Rightarrow> 'r \<Rightarrow> time \<Rightarrow> string \<Rightarrow> string \<rightharpoonup> int" where
  "live_zset zs dl r t k = (if dl r k \<le> t then Map.empty else zs r k)"

definition above :: "int \<Rightarrow> (string \<rightharpoonup> int) \<Rightarrow> (string \<rightharpoonup> int)" where
  "above hi z m = (case z m of None \<Rightarrow> None | Some s \<Rightarrow> if s \<le> float64_of_int hi then None else Some s)"

definition redis_zset_spec ::
  "'r env \<Rightarrow> ('r \<Rightarrow> string \<Rightarrow> string \<rightharpoonup> int) \<Rightarrow> ('r \<Rightarrow> string \<Rightarrow> time) \<Rightarrow> bool" where
  "redis_zset_spec E zs dl \<longleftrightarrow>
     (\<forall>n k hi sc m ttl r vs r'.
        rdb_Pipeline E n [ZRemRangeByScore k hi, ZCard k, ZAdd k sc m, Expire k ttl] r = (Inr vs, r') \<longrightarrow> 0 < ttl \<longrightarrow>
        (let kept = above hi (live_zset zs dl r (time_Now E n) k) in
         (\<exists>a c d. vs = [a, int (card (dom kept)), c, d]) \<and> zs r' k = kept(m \<mapsto> sc) \<and> dl r' k = time_Now E n + ttl)) \<and>
     (\<forall>n k m r. zs (rdb_ZRem E n k m r) k = (live_zset zs dl r (time_Now E n) k)(m := None) \<and>
        dl (rdb_ZRem E n k m r) k = dl r k)"

text \<open>
  golang-jwt: a token signed with HS256 parses back to its claims under the same secret
  before it expires, and is rejected from then on; a date of a claim is a time cut to
  whole seconds.
\<close>

definition jwt_spec :: "'r env \<Rightarrow> bool" where
  "jwt_spec E \<longleftrightarrow>
     (\<forall>t. jwt_NewNumericDate E t \<le> t \<and> t - Second < jwt_NewNumericDate E t) \<and>
     (\<forall>c s t n key. jwt_SignHS256 E c s = Inr t \<longrightarrow>
        c_IssuedAt c \<in> range (jwt_NewNumericDate E) \<longrightarrow> c_ExpiresAt c \<in> range (jwt_NewNumericDate E) \<longrightarrow>
        (key (SigningMethodHMAC ''HS256'') = Inr s \<longrightarrow> time_Now E n < c_ExpiresAt c \<longrightarrow>
           jwt_Parse E n t key = Inr (Some c, True)) \<and>
        (c_ExpiresAt c \<le> time_Now E n \<longrightarrow> (\<exists>e. jwt_Parse E n t key = Inl e)))"

text \<open>bcrypt: a hash accepts the password it was made from, and is text that fits a column of 255 characters.\<close>

definition bcrypt_spec :: "'r env \<Rightarrow> bool" where
  "bcrypt_spec E \<longleftrightarrow>
     (\<forall>n p cost h. bcrypt_Generate E n p cost = Inr h \<longrightarrow> bcrypt_Compare E h p = None \<and> varchar 255 h = Some h)"

lemma redis_SetNX_D:
  assumes "redis_kv_spec E kv" and "rdb_SetNX E n k v ttl r = (Inr b, r')"
  shows "b = (kv r n k = None)" and "kv r' n = (if b then (kv r n)(k \<mapsto> v) else kv r n)"
  using assms unfolding redis_kv_spec_def by auto

lemma redis_Set_D:
  assumes "redis_kv_spec E kv" and "rdb_Set E n k v ttl r = (None, r')"
  shows "kv r' n = (kv r n)(k \<mapsto> v)"
  using assms unfolding redis_kv_spec_def by auto

lemma redis_Del_D:
  assumes "redis_kv_spec E kv" and "rdb_Del E n k r = (None, r')"
  shows "kv r' n = (kv r n)(k := None)"
  using assms unfolding redis_kv_spec_def by auto

lemma redis_Exists_D:
  assumes "redis_kv_spec E kv" and "rdb_Exists E n k r = (Inr c, r')"
  shows "c = (if kv r n k = None then 0 else 1)" and "kv r' n = kv r n"
  using assms unfolding redis_kv_spec_def by auto

end
