(* ===== verification/Store.thy ===== *)
theory Store
  imports Externals
begin

text \<open>
  The data-access layer, internal/store/store.go: one definition per method of
  \<open>Store\<close>. A statement is sent to the server at the current instant; its outcome is
  success, a failure before the server acted, or a lost acknowledgement. Statements inside
  a transaction work on the transaction's tables (\<open>pgtx\<close>), the others commit at once.

  The inversion lemmas say what a successful call has read or written; \<open>schema_tx\<close>
  is the invariant that every call inside a transaction keeps.
\<close>

named_theorems store_defs "definitions of the methods of Store"

section \<open>Sending a statement\<close>

fun run_stmt :: "pg_outcome \<Rightarrow> 'a stmt \<Rightarrow> db \<Rightarrow> (goerr + 'a) \<times> db" where
  "run_stmt PgOk st d = (case st d of Inl c \<Rightarrow> (Inl (PqError c), d) | Inr (a, d') \<Rightarrow> (Inr a, d'))"
| "run_stmt (PgFail e) st d = (Inl (Driver e), d)"
| "run_stmt (PgLost e) st d = (case st d of Inl c \<Rightarrow> (Inl (Driver e), d) | Inr (a, d') \<Rightarrow> (Inl (Driver e), d'))"

definition tx_stmt :: "'r env \<Rightarrow> (time \<Rightarrow> 'a stmt) \<Rightarrow> (pgtx, 'a) goio" where
  "tx_stmt E st tx =
     (case run_stmt (pg_outcome E (tx_tick tx)) (st (tx_now tx)) (tx_db tx) of
        (r, d) \<Rightarrow> (r, tx\<lparr>tx_db := d, tx_tick := Suc (tx_tick tx)\<rparr>))"

definition db_stmt :: "'r env \<Rightarrow> (nat \<Rightarrow> 'a stmt) \<Rightarrow> ('r world, 'a) goio" where
  "db_stmt E st w =
     (case run_stmt (pg_outcome E (w_tick w)) (st (w_tick w)) (w_db w) of
        (r, d) \<Rightarrow> (r, w\<lparr>w_db := d, w_tick := Suc (w_tick w)\<rparr>))"

text \<open>A query reads the tables and changes nothing.\<close>

definition select :: "(db \<Rightarrow> 'a) \<Rightarrow> 'a stmt" where
  "select q d = Inr (q d, d)"

text \<open>A random identifier drawn while a transaction is open.\<close>

definition tx_new_uuid :: "'r env \<Rightarrow> (pgtx, uuid) goio" where
  "tx_new_uuid E tx = (Inr (uuid_New E (tx_tick tx)), tx\<lparr>tx_tick := Suc (tx_tick tx)\<rparr>)"

section \<open>Transactions\<close>

definition begin_tx :: "'r env \<Rightarrow> 'r world \<Rightarrow> pgtx" where
  "begin_tx E w = \<lparr>tx_db = w_db w, tx_locks = [], tx_now = pg_now E (w_tick w), tx_tick = Suc (w_tick w)\<rparr>"

definition WithTx :: "'r env \<Rightarrow> (pgtx, 'a) goio \<Rightarrow> ('r world, 'a) goio" where
  "WithTx E fn w =
     (case pg_outcome E (w_tick w) of
        PgFail e \<Rightarrow> (Inl (Wrapf ''begin tx: '' (Driver e)), w\<lparr>w_tick := Suc (w_tick w)\<rparr>)
      | PgLost e \<Rightarrow> (Inl (Wrapf ''begin tx: '' (Driver e)), w\<lparr>w_tick := Suc (w_tick w)\<rparr>)
      | PgOk \<Rightarrow>
         (case fn (begin_tx E w) of
            (Inl e, tx) \<Rightarrow> (Inl e, w\<lparr>w_tick := Suc (tx_tick tx)\<rparr>)
          | (Inr a, tx) \<Rightarrow>
             (case pg_outcome E (tx_tick tx) of
                PgOk \<Rightarrow> (Inr a, w\<lparr>w_db := tx_db tx, w_tick := Suc (tx_tick tx)\<rparr>)
              | PgFail e \<Rightarrow> (Inl (Wrapf ''commit tx: '' (Driver e)), w\<lparr>w_tick := Suc (tx_tick tx)\<rparr>)
              | PgLost e \<Rightarrow> (Inl (Wrapf ''commit tx: '' (Driver e)),
                             w\<lparr>w_db := tx_db tx, w_tick := Suc (tx_tick tx)\<rparr>))))"

section \<open>Inside a transaction\<close>

definition lookup_account :: "db \<Rightarrow> uuid \<Rightarrow> Account option" where
  "lookup_account d i = find (\<lambda>a. a_ID a = i) (accounts d)"

definition active_account :: "db \<Rightarrow> uuid \<Rightarrow> bool" where
  "active_account d i \<longleftrightarrow> (case lookup_account d i of None \<Rightarrow> False | Some a \<Rightarrow> a_Status a = AccountStatusActive)"

definition GetAccountForUpdate :: "'r env \<Rightarrow> uuid \<Rightarrow> (pgtx, Account) goio" where
  [store_defs]: "GetAccountForUpdate E accountID tx =
     (case tx_stmt E (\<lambda>_. select (\<lambda>d. lookup_account d accountID)) tx of
        (Inl e, tx') \<Rightarrow> (Inl (Wrapf ''get account for update: '' e), tx')
      | (Inr None, tx') \<Rightarrow> (Inl (Sentinel ErrAccountNotFound), tx')
      | (Inr (Some a), tx') \<Rightarrow> (Inr a, tx'\<lparr>tx_locks := tx_locks tx' @ [accountID]\<rparr>))"

definition GetBalance :: "'r env \<Rightarrow> uuid \<Rightarrow> (pgtx, decimal) goio" where
  [store_defs]: "GetBalance E accountID =
     wrapf ''get balance: ''
       (tx_stmt E (\<lambda>_. select (\<lambda>d. decimal_of_numeric (balance_of (ledger d) accountID))))"

definition CreateTransaction :: "'r env \<Rightarrow> Transaction \<Rightarrow> (pgtx, unit) goio" where
  [store_defs]: "CreateTransaction E t =
     wrapf ''create transaction: '' (tx_stmt E (insert_transactions t))"

definition UpdateTransactionStatus :: "'r env \<Rightarrow> uuid \<Rightarrow> TransactionStatus \<Rightarrow> (pgtx, unit) goio" where
  [store_defs]: "UpdateTransactionStatus E txnID status =
     attempt (wrapf ''update transaction status: '' (tx_stmt E (update_txn_status status txnID)))
       (\<lambda>rows. if rows = 0 then fail (Plain (''transaction '' @ uuid_String E txnID @ '' not found''))
               else ok ())"

definition InsertLedgerEntry :: "'r env \<Rightarrow> LedgerEntry \<Rightarrow> (pgtx, unit) goio" where
  [store_defs]: "InsertLedgerEntry E entry =
     wrapf ''insert ledger entry: '' (tx_stmt E (insert_ledger entry))"

section \<open>Users\<close>

text \<open>
  A lookup by a text that the server does not accept fails there, and finds no row here: no
  such text is ever stored, and the callers treat a failure and a missing row alike.
\<close>

definition GetUserByUsername :: "'r env \<Rightarrow> string \<Rightarrow> ('r world, User) goio" where
  [store_defs]: "GetUserByUsername E username w =
     (case db_stmt E (\<lambda>_. select (\<lambda>d. find (\<lambda>u. u_Username u = username) (users d))) w of
        (Inl e, w') \<Rightarrow> (Inl (Wrapf ''get user by username: '' e), w')
      | (Inr None, w') \<Rightarrow> (Inl (Plain ''user not found''), w')
      | (Inr (Some u), w') \<Rightarrow> (Inr u, w'))"

definition GetUserByEmail :: "'r env \<Rightarrow> string \<Rightarrow> ('r world, User) goio" where
  [store_defs]: "GetUserByEmail E email w =
     (case db_stmt E (\<lambda>_. select (\<lambda>d. find (\<lambda>u. u_Email u = email) (users d))) w of
        (Inl e, w') \<Rightarrow> (Inl (Wrapf ''get user by email: '' e), w')
      | (Inr None, w') \<Rightarrow> (Inl (Plain ''user not found''), w')
      | (Inr (Some u), w') \<Rightarrow> (Inr u, w'))"

definition IsFirstUser :: "'r env \<Rightarrow> ('r world, bool) goio" where
  [store_defs]: "IsFirstUser E =
     attempt (wrapf ''count users: '' (db_stmt E (\<lambda>_. select (\<lambda>d. int (length (users d))))))
       (\<lambda>count. ok (count = 0))"

definition CreateUser :: "'r env \<Rightarrow> User \<Rightarrow> ('r world, unit) goio" where
  [store_defs]: "CreateUser E u =
     wrapf ''create user: '' (db_stmt E (\<lambda>n. insert_users u (pg_now E n)))"

section \<open>Accounts and history\<close>

definition CreateAccount :: "'r env \<Rightarrow> Account \<Rightarrow> ('r world, unit) goio" where
  [store_defs]: "CreateAccount E a =
     wrapf ''create account: '' (db_stmt E (\<lambda>n. insert_accounts a (pg_now E n)))"

text \<open>
  \<open>LIMIT 1\<close> without an order takes whichever row the server scans first, and
  \<open>ORDER BY\<close> leaves rows with equal keys in scan order; the scan order is the
  environment's.
\<close>

definition GetAccountByUserID :: "'r env \<Rightarrow> uuid \<Rightarrow> ('r world, Account) goio" where
  [store_defs]: "GetAccountByUserID E userID w =
     (case db_stmt E (\<lambda>n. select (\<lambda>d. find (\<lambda>a. a_UserID a = userID \<and> a_Status a = AccountStatusActive)
                                       (pg_scan_accounts E n (accounts d)))) w of
        (Inl e, w') \<Rightarrow> (Inl (Wrapf ''get account by user: '' e), w')
      | (Inr None, w') \<Rightarrow> (Inl (Sentinel ErrAccountNotFound), w')
      | (Inr (Some a), w') \<Rightarrow> (Inr a, w'))"

definition GetAccountsByUserID :: "'r env \<Rightarrow> uuid \<Rightarrow> ('r world, Account list) goio" where
  [store_defs]: "GetAccountsByUserID E userID =
     wrapf ''get accounts by user: ''
       (db_stmt E (\<lambda>n. select (\<lambda>d. sort_key a_CreatedAt
          (filter (\<lambda>a. a_UserID a = userID) (pg_scan_accounts E n (accounts d))))))"

definition GetBalanceReadOnly :: "'r env \<Rightarrow> uuid \<Rightarrow> ('r world, decimal) goio" where
  [store_defs]: "GetBalanceReadOnly E accountID =
     wrapf ''get balance read-only: ''
       (db_stmt E (\<lambda>_. select (\<lambda>d. decimal_of_numeric (balance_of (ledger d) accountID))))"

definition involves :: "uuid \<Rightarrow> txn_row \<Rightarrow> bool" where
  "involves a r \<longleftrightarrow> tr_from r = a \<or> tr_to r = a"

definition history_item :: "uuid \<Rightarrow> txn_row \<Rightarrow> TransactionHistoryItem" where
  "history_item a r =
     \<lparr>h_ID = tr_id r, h_FromAccountID = tr_from r, h_ToAccountID = tr_to r,
      h_Amount = decimal_of_numeric (tr_amount r), h_Status = tr_status r,
      h_IdempotencyKey = tr_key r, h_CreatedAt = tr_created r, h_UpdatedAt = tr_updated r,
      h_Direction = (if tr_from r = a then ''sent'' else ''received'')\<rparr>"

text \<open>\<open>LIMIT $2 OFFSET $3\<close>; the server rejects negative values.\<close>

definition select_history ::
  "(txn_row list \<Rightarrow> txn_row list) \<Rightarrow> uuid \<Rightarrow> int \<Rightarrow> int \<Rightarrow> TransactionHistoryItem list stmt" where
  "select_history scan a limit offset d =
     (if limit < 0 then Inl NegativeLimit
      else if offset < 0 then Inl NegativeOffset
      else Inr (map (history_item a)
                 (take (nat limit) (drop (nat offset)
                   (sort_key (\<lambda>r. - tr_created r) (filter (involves a) (scan (transactions d)))))), d))"

definition GetTransactionHistory ::
  "'r env \<Rightarrow> uuid \<Rightarrow> int \<Rightarrow> int \<Rightarrow> ('r world, TransactionHistoryItem list \<times> int) goio" where
  [store_defs]: "GetTransactionHistory E accountID limit offset =
     attempt (wrapf ''count transactions: ''
         (db_stmt E (\<lambda>_. select (\<lambda>d. int (length (filter (involves accountID) (transactions d)))))))
       (\<lambda>total. attempt (wrapf ''get transaction history: ''
           (db_stmt E (\<lambda>n. select_history (pg_scan_transactions E n) accountID limit offset)))
         (\<lambda>items. ok (items, total)))"

section \<open>What a successful call has done\<close>

lemma run_stmt_Inr: "run_stmt c st d = (Inr a, d') \<longleftrightarrow> c = PgOk \<and> st d = Inr (a, d')"
  by (cases c) (auto split: sum.splits)

lemma run_stmt_db: "run_stmt c st d = (r, d') \<Longrightarrow> d' = d \<or> (\<exists>a. st d = Inr (a, d'))"
  by (cases c) (auto split: sum.splits)

lemma tx_stmt_Inr:
  "tx_stmt E st tx = (Inr a, tx') \<longleftrightarrow>
     pg_outcome E (tx_tick tx) = PgOk \<and>
     (\<exists>d. st (tx_now tx) (tx_db tx) = Inr (a, d) \<and> tx' = tx\<lparr>tx_db := d, tx_tick := Suc (tx_tick tx)\<rparr>)"
  by (auto simp: tx_stmt_def run_stmt_Inr split: prod.splits)

lemma tx_stmt_select_Inr:
  "tx_stmt E (\<lambda>_. select q) tx = (Inr a, tx') \<longleftrightarrow>
     pg_outcome E (tx_tick tx) = PgOk \<and> a = q (tx_db tx) \<and> tx' = tx\<lparr>tx_tick := Suc (tx_tick tx)\<rparr>"
  by (auto simp: tx_stmt_Inr select_def)

lemma db_stmt_Inr:
  "db_stmt E st w = (Inr a, w') \<longleftrightarrow>
     pg_outcome E (w_tick w) = PgOk \<and>
     (\<exists>d. st (w_tick w) (w_db w) = Inr (a, d) \<and> w' = w\<lparr>w_db := d, w_tick := Suc (w_tick w)\<rparr>)"
  by (auto simp: db_stmt_def run_stmt_Inr split: prod.splits)

lemma GetAccountForUpdate_Inr:
  "GetAccountForUpdate E i tx = (Inr a, tx') \<longleftrightarrow>
     pg_outcome E (tx_tick tx) = PgOk \<and> lookup_account (tx_db tx) i = Some a \<and>
     tx' = tx\<lparr>tx_locks := tx_locks tx @ [i], tx_tick := Suc (tx_tick tx)\<rparr>"
  by (cases "pg_outcome E (tx_tick tx)"; cases "lookup_account (tx_db tx) i")
    (auto simp: GetAccountForUpdate_def tx_stmt_def select_def)

lemma GetBalance_Inr:
  "GetBalance E i tx = (Inr b, tx') \<longleftrightarrow>
     pg_outcome E (tx_tick tx) = PgOk \<and> b = decimal_of_numeric (balance_of (ledger (tx_db tx)) i) \<and>
     tx' = tx\<lparr>tx_tick := Suc (tx_tick tx)\<rparr>"
  by (simp add: GetBalance_def tx_stmt_select_Inr)

lemma CreateTransaction_Inr:
  "CreateTransaction E t tx = (Inr u, tx') \<longleftrightarrow>
     pg_outcome E (tx_tick tx) = PgOk \<and>
     (\<exists>d. insert_transactions t (tx_now tx) (tx_db tx) = Inr (u, d) \<and>
          tx' = tx\<lparr>tx_db := d, tx_tick := Suc (tx_tick tx)\<rparr>)"
  by (simp add: CreateTransaction_def tx_stmt_Inr)

lemma InsertLedgerEntry_Inr:
  "InsertLedgerEntry E e tx = (Inr u, tx') \<longleftrightarrow>
     pg_outcome E (tx_tick tx) = PgOk \<and>
     (\<exists>d. insert_ledger e (tx_now tx) (tx_db tx) = Inr (u, d) \<and>
          tx' = tx\<lparr>tx_db := d, tx_tick := Suc (tx_tick tx)\<rparr>)"
  by (simp add: InsertLedgerEntry_def tx_stmt_Inr)

lemma UpdateTransactionStatus_Inr:
  "UpdateTransactionStatus E i st tx = (Inr u, tx') \<longleftrightarrow>
     pg_outcome E (tx_tick tx) = PgOk \<and> i \<in> tr_id ` set (transactions (tx_db tx)) \<and>
     tx' = tx\<lparr>tx_db := (tx_db tx)\<lparr>transactions :=
              map (\<lambda>r. if tr_id r = i then r\<lparr>tr_status := st, tr_updated := tx_now tx\<rparr> else r)
                (transactions (tx_db tx))\<rparr>, tx_tick := Suc (tx_tick tx)\<rparr>"
  by (auto simp: UpdateTransactionStatus_def attempt_Inr tx_stmt_Inr update_txn_status_def
        filter_empty_conv image_iff split: if_splits)

lemma tx_new_uuid_Inr:
  "tx_new_uuid E tx = (Inr i, tx') \<longleftrightarrow>
     i = uuid_New E (tx_tick tx) \<and> tx' = tx\<lparr>tx_tick := Suc (tx_tick tx)\<rparr>"
  by (auto simp: tx_new_uuid_def)

lemma tx_new_uuid_Inl [simp]: "tx_new_uuid E tx \<noteq> (Inl e, tx')"
  by (simp add: tx_new_uuid_def)

lemmas store_Inr = GetAccountForUpdate_Inr GetBalance_Inr CreateTransaction_Inr InsertLedgerEntry_Inr
  UpdateTransactionStatus_Inr tx_new_uuid_Inr

section \<open>Transactions are all or nothing\<close>

lemma WithTx_Inr:
  "WithTx E fn w = (Inr a, w') \<longleftrightarrow>
     pg_outcome E (w_tick w) = PgOk \<and>
     (\<exists>tx. fn (begin_tx E w) = (Inr a, tx) \<and> pg_outcome E (tx_tick tx) = PgOk \<and>
           w' = w\<lparr>w_db := tx_db tx, w_tick := Suc (tx_tick tx)\<rparr>)"
  by (auto simp: WithTx_def split: pg_outcome.splits prod.splits sum.splits)

lemma WithTx_Inl:
  "WithTx E fn w = (Inl e, w') \<Longrightarrow>
     w_db w' = w_db w \<or>
     (\<exists>a tx s. fn (begin_tx E w) = (Inr a, tx) \<and> pg_outcome E (tx_tick tx) = PgLost s \<and>
               w_db w' = tx_db tx \<and> e = Wrapf ''commit tx: '' (Driver s))"
  by (auto simp: WithTx_def split: pg_outcome.splits prod.splits sum.splits)

lemma WithTx_db:
  "w_db (snd (WithTx E fn w)) = w_db w \<or>
   (\<exists>a tx. fn (begin_tx E w) = (Inr a, tx) \<and> w_db (snd (WithTx E fn w)) = tx_db tx)"
  by (auto simp: WithTx_def split: pg_outcome.splits prod.splits sum.splits)

lemma WithTx_redis [simp]: "w_redis (snd (WithTx E fn w)) = w_redis w"
  by (auto simp: WithTx_def split: pg_outcome.splits prod.splits sum.splits)

lemma WithTx_redis_run: "WithTx E fn w = (r, w') \<Longrightarrow> w_redis w' = w_redis w"
  by (metis WithTx_redis snd_conv)

lemma begin_tx_sel [simp]:
  "tx_db (begin_tx E w) = w_db w" "tx_locks (begin_tx E w) = []"
  "tx_now (begin_tx E w) = pg_now E (w_tick w)" "tx_tick (begin_tx E w) = Suc (w_tick w)"
  by (simp_all add: begin_tx_def)

lemma keeps_WithTx:
  fixes E :: "'r env"
  assumes "keeps (\<lambda>tx. I (tx_db tx)) fn"
  shows "keeps (\<lambda>w. I (w_db w)) (WithTx E fn)"
proof (rule keepsI)
  fix w :: "'r world" assume "I (w_db w)"
  then have "fn (begin_tx E w) = (r, tx) \<Longrightarrow> I (tx_db tx)" for r tx
    using keeps_run [OF assms, of "begin_tx E w"] by simp
  with \<open>I (w_db w)\<close> show "I (w_db (snd (WithTx E fn w)))"
    using WithTx_db [of E fn w] by auto
qed

lemma frames_WithTx:
  fixes E :: "'r env"
  assumes "frames (\<lambda>a b. R (tx_db a) (tx_db b)) fn" and "reflp R"
  shows "frames (\<lambda>v w. R (w_db v) (w_db w)) (WithTx E fn)"
proof (rule framesI)
  fix w :: "'r world"
  have "fn (begin_tx E w) = (r, tx) \<Longrightarrow> R (w_db w) (tx_db tx)" for r tx
    using frames_run [OF assms(1), of "begin_tx E w"] by simp
  with reflpD [OF assms(2)] show "R (w_db w) (w_db (snd (WithTx E fn w)))"
    using WithTx_db [of E fn w] by metis
qed

section \<open>Every method keeps the schema\<close>

abbreviation schema_tx :: "pgtx \<Rightarrow> bool" where
  "schema_tx tx \<equiv> schema_ok (tx_db tx)"

lemma keeps_tx_stmt:
  assumes "\<And>now d a d'. st now d = Inr (a, d') \<Longrightarrow> I d \<Longrightarrow> I d'"
  shows "keeps (\<lambda>tx. I (tx_db tx)) (tx_stmt E st)"
proof (rule keepsI)
  fix tx :: pgtx assume "I (tx_db tx)"
  obtain r d where run: "run_stmt (pg_outcome E (tx_tick tx)) (st (tx_now tx)) (tx_db tx) = (r, d)"
    by fastforce
  from run_stmt_db [OF run] \<open>I (tx_db tx)\<close> assms have "I d" by blast
  with run show "I (tx_db (snd (tx_stmt E st tx)))" by (simp add: tx_stmt_def)
qed

lemma keeps_db_stmt:
  fixes E :: "'r env"
  assumes "\<And>n d a d'. st n d = Inr (a, d') \<Longrightarrow> I d \<Longrightarrow> I d'"
  shows "keeps (\<lambda>w. I (w_db w)) (db_stmt E st)"
proof (rule keepsI)
  fix w :: "'r world" assume "I (w_db w)"
  obtain r d where run: "run_stmt (pg_outcome E (w_tick w)) (st (w_tick w)) (w_db w) = (r, d)"
    by fastforce
  from run_stmt_db [OF run] \<open>I (w_db w)\<close> assms have "I d" by blast
  with run show "I (w_db (snd (db_stmt E st w)))" by (simp add: db_stmt_def)
qed

lemma run_stmt_select_db [simp]: "snd (run_stmt c (select q) d) = d"
  by (cases c) (auto simp: select_def)

lemma tx_stmt_select_db [simp]: "tx_db (snd (tx_stmt E (\<lambda>_. select q) tx)) = tx_db tx"
  by (simp add: tx_stmt_def split: prod.splits) (metis run_stmt_select_db snd_conv)

lemma db_stmt_select_db [simp]: "w_db (snd (db_stmt E (\<lambda>n. select (q n)) w)) = w_db w"
  by (simp add: db_stmt_def split: prod.splits) (metis run_stmt_select_db snd_conv)

lemma db_stmt_select_run:
  "db_stmt E (\<lambda>n. select (q n)) w = (r, w') \<Longrightarrow> w' = w\<lparr>w_tick := Suc (w_tick w)\<rparr>"
  by (cases "pg_outcome E (w_tick w)") (auto simp: db_stmt_def select_def)

lemma GetAccountForUpdate_db [simp]: "tx_db (snd (GetAccountForUpdate E i tx)) = tx_db tx"
  by (cases "pg_outcome E (tx_tick tx)"; cases "lookup_account (tx_db tx) i")
    (auto simp: GetAccountForUpdate_def tx_stmt_def select_def)

lemma GetBalance_db [simp]: "tx_db (snd (GetBalance E i tx)) = tx_db tx"
  by (simp add: GetBalance_def)

lemma tx_new_uuid_db [simp]: "tx_db (snd (tx_new_uuid E tx)) = tx_db tx"
  by (simp add: tx_new_uuid_def)

lemma keeps_store [keeps_intros]:
  "keeps (\<lambda>tx. I (tx_db tx)) (GetAccountForUpdate E i)"
  "keeps (\<lambda>tx. I (tx_db tx)) (GetBalance E i)"
  "keeps (\<lambda>tx. I (tx_db tx)) (tx_new_uuid E)"
  by (auto intro!: keepsI)

lemma keeps_schema_store [keeps_intros]:
  "keeps schema_tx (CreateTransaction E t)"
  "keeps schema_tx (InsertLedgerEntry E e)"
  "keeps schema_tx (UpdateTransactionStatus E j st)"
  unfolding CreateTransaction_def InsertLedgerEntry_def UpdateTransactionStatus_def
  by (intro keeps_intros keeps_tx_stmt;
      (erule (1) insert_transactions_ok insert_ledger_ok update_txn_status_ok)?)+


section \<open>Queries outside a transaction\<close>

text \<open>They use up an instant and change nothing else.\<close>

lemma query_state [simp]:
  "snd (GetUserByUsername E name w) = w\<lparr>w_tick := Suc (w_tick w)\<rparr>"
  "snd (GetUserByEmail E mail w) = w\<lparr>w_tick := Suc (w_tick w)\<rparr>"
  "snd (IsFirstUser E w) = w\<lparr>w_tick := Suc (w_tick w)\<rparr>"
  "snd (GetAccountByUserID E u w) = w\<lparr>w_tick := Suc (w_tick w)\<rparr>"
  "snd (GetAccountsByUserID E u w) = w\<lparr>w_tick := Suc (w_tick w)\<rparr>"
  "snd (GetBalanceReadOnly E a w) = w\<lparr>w_tick := Suc (w_tick w)\<rparr>"
  by (auto simp: store_defs attempt_def map_error_def ok_def split: prod.splits sum.splits option.splits
      dest!: db_stmt_select_run)

lemma GetUserByUsername_Inr:
  "GetUserByUsername E name w = (Inr u, w') \<longleftrightarrow>
     pg_outcome E (w_tick w) = PgOk \<and> w' = w\<lparr>w_tick := Suc (w_tick w)\<rparr> \<and>
     find (\<lambda>u. u_Username u = name) (users (w_db w)) = Some u"
  by (cases "pg_outcome E (w_tick w)")
    (auto simp: GetUserByUsername_def db_stmt_def select_def split: option.splits)

lemma query_run:
  "GetUserByUsername E name w = (r1, w') \<Longrightarrow> w' = w\<lparr>w_tick := Suc (w_tick w)\<rparr>"
  "GetUserByEmail E mail w = (r2, w') \<Longrightarrow> w' = w\<lparr>w_tick := Suc (w_tick w)\<rparr>"
  "IsFirstUser E w = (r3, w') \<Longrightarrow> w' = w\<lparr>w_tick := Suc (w_tick w)\<rparr>"
  "GetAccountByUserID E u w = (r4, w') \<Longrightarrow> w' = w\<lparr>w_tick := Suc (w_tick w)\<rparr>"
  "GetAccountsByUserID E u w = (r5, w') \<Longrightarrow> w' = w\<lparr>w_tick := Suc (w_tick w)\<rparr>"
  "GetBalanceReadOnly E a w = (r6, w') \<Longrightarrow> w' = w\<lparr>w_tick := Suc (w_tick w)\<rparr>"
  by (metis query_state snd_conv)+

lemma IsFirstUser_Inr:
  "IsFirstUser E w = (Inr b, w') \<longleftrightarrow> pg_outcome E (w_tick w) = PgOk \<and> w' = w\<lparr>w_tick := Suc (w_tick w)\<rparr> \<and>
     b = (users (w_db w) = [])"
  by (auto simp: IsFirstUser_def attempt_Inr db_stmt_Inr select_def)

lemma create_db:
  "CreateUser E u w = (r, w') \<Longrightarrow> w_db w' = w_db w \<or> (\<exists>now. insert_users u now (w_db w) = Inr ((), w_db w'))"
  "CreateAccount E a w = (r, w') \<Longrightarrow> w_db w' = w_db w \<or> (\<exists>now. insert_accounts a now (w_db w) = Inr ((), w_db w'))"
  by (auto simp: CreateUser_def CreateAccount_def db_stmt_def map_error_def split: prod.splits sum.splits
      dest!: run_stmt_db)

lemma create_Inr:
  "CreateUser E u w = (Inr x, w') \<longleftrightarrow> pg_outcome E (w_tick w) = PgOk \<and>
     (\<exists>d. insert_users u (pg_now E (w_tick w)) (w_db w) = Inr (x, d) \<and> w' = w\<lparr>w_db := d, w_tick := Suc (w_tick w)\<rparr>)"
  "CreateAccount E a w = (Inr x, w') \<longleftrightarrow> pg_outcome E (w_tick w) = PgOk \<and>
     (\<exists>d. insert_accounts a (pg_now E (w_tick w)) (w_db w) = Inr (x, d) \<and> w' = w\<lparr>w_db := d, w_tick := Suc (w_tick w)\<rparr>)"
  by (simp_all add: CreateUser_def CreateAccount_def db_stmt_Inr)

lemma GetAccountByUserID_Inr:
  "GetAccountByUserID E u w = (Inr a, w') \<longleftrightarrow>
     pg_outcome E (w_tick w) = PgOk \<and> w' = w\<lparr>w_tick := Suc (w_tick w)\<rparr> \<and>
     find (\<lambda>a. a_UserID a = u \<and> a_Status a = AccountStatusActive)
       (pg_scan_accounts E (w_tick w) (accounts (w_db w))) = Some a"
  by (cases "pg_outcome E (w_tick w)")
    (auto simp: GetAccountByUserID_def db_stmt_def select_def split: option.splits)

lemma GetAccountsByUserID_Inr:
  "GetAccountsByUserID E u w = (Inr as, w') \<longleftrightarrow>
     pg_outcome E (w_tick w) = PgOk \<and> w' = w\<lparr>w_tick := Suc (w_tick w)\<rparr> \<and>
     as = sort_key a_CreatedAt (filter (\<lambda>a. a_UserID a = u) (pg_scan_accounts E (w_tick w) (accounts (w_db w))))"
  by (auto simp: GetAccountsByUserID_def db_stmt_Inr select_def)

lemma GetTransactionHistory_db [simp]: "w_db (snd (GetTransactionHistory E a l f w)) = w_db w"
proof -
  have "keeps (\<lambda>v. w_db v = w_db w) (GetTransactionHistory E a l f)"
    unfolding GetTransactionHistory_def
    by (intro keeps_intros keeps_db_stmt [where I = "\<lambda>d. d = w_db w"])
      (auto simp: select_def select_history_def split: if_splits)
  then show ?thesis by (simp add: keeps_def)
qed

lemma keeps_schema_create [keeps_intros]:
  "keeps (\<lambda>w. schema_ok (w_db w)) (CreateUser E u)"
  "keeps (\<lambda>w. schema_ok (w_db w)) (CreateAccount E a)"
  unfolding CreateUser_def CreateAccount_def
  by (intro keeps_intros keeps_db_stmt; erule (1) insert_users_ok insert_accounts_ok)+

section \<open>Runs in which the server answers\<close>

text \<open>
  When every statement reaches the server and is acknowledged, the methods are functions of
  the tables: the equations below evaluate a transaction step by step.
\<close>

definition pg_reliable :: "'r env \<Rightarrow> bool" where
  "pg_reliable E \<longleftrightarrow> (\<forall>n. pg_outcome E n = PgOk)"

lemma tx_stmt_reliable:
  "pg_reliable E \<Longrightarrow> tx_stmt E st tx =
     (case st (tx_now tx) (tx_db tx) of
        Inl c \<Rightarrow> (Inl (PqError c), tx\<lparr>tx_tick := Suc (tx_tick tx)\<rparr>)
      | Inr (a, d) \<Rightarrow> (Inr a, tx\<lparr>tx_db := d, tx_tick := Suc (tx_tick tx)\<rparr>))"
  by (auto simp: pg_reliable_def tx_stmt_def split: sum.splits)

lemma db_stmt_reliable:
  "pg_reliable E \<Longrightarrow> db_stmt E st w =
     (case st (w_tick w) (w_db w) of
        Inl c \<Rightarrow> (Inl (PqError c), w\<lparr>w_tick := Suc (w_tick w)\<rparr>)
      | Inr (a, d) \<Rightarrow> (Inr a, w\<lparr>w_db := d, w_tick := Suc (w_tick w)\<rparr>))"
  by (auto simp: pg_reliable_def db_stmt_def split: sum.splits)

lemma GetAccountForUpdate_reliable:
  "pg_reliable E \<Longrightarrow> GetAccountForUpdate E i tx =
     (case lookup_account (tx_db tx) i of
        None \<Rightarrow> (Inl (Sentinel ErrAccountNotFound), tx\<lparr>tx_tick := Suc (tx_tick tx)\<rparr>)
      | Some a \<Rightarrow> (Inr a, tx\<lparr>tx_locks := tx_locks tx @ [i], tx_tick := Suc (tx_tick tx)\<rparr>))"
  by (simp add: GetAccountForUpdate_def tx_stmt_reliable select_def split: option.splits)

lemma GetBalance_reliable:
  "pg_reliable E \<Longrightarrow> GetBalance E i tx =
     (Inr (decimal_of_numeric (balance_of (ledger (tx_db tx)) i)), tx\<lparr>tx_tick := Suc (tx_tick tx)\<rparr>)"
  by (simp add: GetBalance_def tx_stmt_reliable select_def map_error_def)

lemma GetUserByUsername_reliable:
  "pg_reliable E \<Longrightarrow> GetUserByUsername E name w =
     (case find (\<lambda>u. u_Username u = name) (users (w_db w)) of
        None \<Rightarrow> (Inl (Plain ''user not found''), w\<lparr>w_tick := Suc (w_tick w)\<rparr>)
      | Some u \<Rightarrow> (Inr u, w\<lparr>w_tick := Suc (w_tick w)\<rparr>))"
  by (simp add: GetUserByUsername_def db_stmt_reliable select_def split: option.splits)

lemma WithTx_reliable:
  "pg_reliable E \<Longrightarrow> WithTx E fn w =
     (case fn (begin_tx E w) of
        (Inl e, tx) \<Rightarrow> (Inl e, w\<lparr>w_tick := Suc (tx_tick tx)\<rparr>)
      | (Inr a, tx) \<Rightarrow> (Inr a, w\<lparr>w_db := tx_db tx, w_tick := Suc (tx_tick tx)\<rparr>))"
  by (simp add: WithTx_def pg_reliable_def split: prod.splits sum.splits)

lemmas reliable_simps = GetAccountForUpdate_reliable GetBalance_reliable CreateTransaction_def InsertLedgerEntry_def
  UpdateTransactionStatus_def tx_stmt_reliable tx_new_uuid_def io_defs

end
