(* ===== verification/Books.thy ===== *)
theory Books
  imports Store
begin

text \<open>
  The bookkeeping that both services do: one transaction row together with its ledger
  rows is appended to the tables. \<open>posting_ok\<close> says when such a posting is proper;
  \<open>bank_ok\<close> is the invariant of the committed tables: the schema's constraints, every
  transaction completed and booked, and no account overdrawn. Booked is a transaction with a
  debit of its sender and a credit of its receiver; a credit alone is accepted only where
  the sender's account belongs to a system user, which is how money is minted.
\<close>

section \<open>Postings\<close>

definition is_debit_of :: "txn_row \<Rightarrow> ledger_row \<Rightarrow> bool" where
  "is_debit_of t l \<longleftrightarrow> lr_txn l = tr_id t \<and> lr_account l = tr_from t \<and>
     lr_amount l = tr_amount t \<and> lr_type l = EntryTypeDebit"

definition is_credit_of :: "txn_row \<Rightarrow> ledger_row \<Rightarrow> bool" where
  "is_credit_of t l \<longleftrightarrow> lr_txn l = tr_id t \<and> lr_account l = tr_to t \<and>
     lr_amount l = tr_amount t \<and> lr_type l = EntryTypeCredit"

definition double_entry :: "txn_row \<Rightarrow> ledger_row list \<Rightarrow> bool" where
  "double_entry t es \<longleftrightarrow> (case es of [x, y] \<Rightarrow> is_debit_of t x \<and> is_credit_of t y | _ \<Rightarrow> False)"

definition single_entry :: "txn_row \<Rightarrow> ledger_row list \<Rightarrow> bool" where
  "single_entry t es \<longleftrightarrow> (case es of [y] \<Rightarrow> is_credit_of t y | _ \<Rightarrow> False)"

lemmas entry_defs = double_entry_def single_entry_def is_debit_of_def is_credit_of_def

definition append_txn :: "txn_row \<Rightarrow> ledger_row list \<Rightarrow> db \<Rightarrow> db" where
  "append_txn t es d = d\<lparr>transactions := transactions d @ [t], ledger := ledger d @ es\<rparr>"

definition posting_ok :: "db \<Rightarrow> txn_row \<Rightarrow> ledger_row list \<Rightarrow> bool" where
  "posting_ok d t es \<longleftrightarrow>
     tr_id t \<notin> tr_id ` set (transactions d) \<and> tr_key t \<notin> tr_key ` set (transactions d) \<and>
     0 < tr_amount t \<and> tr_amount t < 10 ^ 18 \<and> tr_from t \<noteq> tr_to t \<and>
     tr_from t \<in> a_ID ` set (accounts d) \<and> tr_to t \<in> a_ID ` set (accounts d) \<and>
     tr_status t = TxnStatusCompleted \<and> distinct (map lr_id es) \<and>
     lr_id ` set es \<inter> lr_id ` set (ledger d) = {} \<and>
     (double_entry t es \<or> single_entry t es)"

lemma append_txn_sel [simp]:
  "users (append_txn t es d) = users d" "accounts (append_txn t es d) = accounts d"
  "transactions (append_txn t es d) = transactions d @ [t]" "ledger (append_txn t es d) = ledger d @ es"
  by (simp_all add: append_txn_def)

lemma complete_fresh_row [simp]:
  assumes "i \<notin> tr_id ` set rs"
  shows "map (\<lambda>r. if tr_id r = i then r\<lparr>tr_status := st, tr_updated := now\<rparr> else r) rs = rs"
  using assms by (intro map_idI) auto

lemma active_account_exists: "active_account d i \<Longrightarrow> i \<in> a_ID ` set (accounts d)"
  by (auto simp: active_account_def lookup_account_def split: option.splits dest!: find_SomeD)

lemma entries_rows:
  assumes "double_entry t es \<or> single_entry t es"
  obtains (transfer) x y where "es = [x, y]" and "is_debit_of t x" and "is_credit_of t y"
  | (funding) y where "es = [y]" and "is_credit_of t y"
  using assms by (auto simp: double_entry_def single_entry_def split: list.splits)

section \<open>The invariant of the committed tables\<close>

text \<open>The accounts that may mint: those of the users with \<open>is_system_user\<close>.\<close>

definition privileged :: "db \<Rightarrow> uuid \<Rightarrow> bool" where
  "privileged d u \<longleftrightarrow> list_ex (\<lambda>x. u_ID x = u \<and> u_IsSystemUser x) (users d)"

definition mints :: "db \<Rightarrow> uuid \<Rightarrow> bool" where
  "mints d a \<longleftrightarrow> list_ex (\<lambda>x. a_ID x = a \<and> privileged d (a_UserID x)) (accounts d)"

definition entered :: "db \<Rightarrow> txn_row \<Rightarrow> ledger_row list \<Rightarrow> bool" where
  "entered d t es \<longleftrightarrow> double_entry t es \<or> (single_entry t es \<and> mints d (tr_from t))"

lemma mints_grow:
  assumes "mints d a" and "set (users d) \<subseteq> set (users d')" and "set (accounts d) \<subseteq> set (accounts d')"
  shows "mints d' a"
  using assms by (fastforce simp: mints_def privileged_def list_ex_iff)

lemma entered_grow:
  "entered d t es \<Longrightarrow> set (users d) \<subseteq> set (users d') \<Longrightarrow> set (accounts d) \<subseteq> set (accounts d') \<Longrightarrow> entered d' t es"
  using mints_grow by (auto simp: entered_def)

definition entries_of :: "db \<Rightarrow> txn_row \<Rightarrow> ledger_row list" where
  "entries_of d t = filter (\<lambda>l. lr_txn l = tr_id t) (ledger d)"

definition booked :: "db \<Rightarrow> bool" where
  "booked d \<longleftrightarrow> list_all (\<lambda>t. tr_status t = TxnStatusCompleted \<and> entered d t (entries_of d t)) (transactions d)"

definition nonneg_balances :: "db \<Rightarrow> bool" where
  "nonneg_balances d \<longleftrightarrow> list_all (\<lambda>a. 0 \<le> balance_of (ledger d) (a_ID a)) (accounts d)"

definition bank_ok :: "db \<Rightarrow> bool" where
  "bank_ok d \<longleftrightarrow> schema_ok d \<and> booked d \<and> nonneg_balances d"

lemma bank_ok_seed: "bank_ok (seed_db now)"
  using schema_ok_seed [of now]
  by (simp add: bank_ok_def booked_def nonneg_balances_def seed_db_def)

lemma balance_of_unused: "a \<notin> lr_account ` set ls \<Longrightarrow> balance_of ls a = 0"
  by (induction ls) (auto simp: balance_of_Cons)

text \<open>An identifier that is no account has no ledger rows, so the account list may be dropped.\<close>

lemma nonneg_balances_all:
  "ledger_ok d \<Longrightarrow> nonneg_balances d \<longleftrightarrow> (\<forall>a. 0 \<le> balance_of (ledger d) a)"
proof -
  assume "ledger_ok d"
  then have "0 \<le> balance_of (ledger d) a" if "a \<notin> a_ID ` set (accounts d)" for a
    using that by (subst balance_of_unused) (auto simp: ledger_ok_def)
  then have "0 \<le> balance_of (ledger d) a"
    if "\<forall>a\<in>a_ID ` set (accounts d). 0 \<le> balance_of (ledger d) a" for a
    using that by blast
  then show ?thesis by (auto simp: nonneg_balances_def list_all_iff)
qed

section \<open>A proper posting keeps it\<close>

lemma posting_row:
  "posting_ok d t es \<Longrightarrow> l \<in> set es \<Longrightarrow>
     lr_txn l = tr_id t \<and> lr_amount l = tr_amount t \<and> lr_account l \<in> {tr_from t, tr_to t}"
  by (auto simp: posting_ok_def entry_defs split: list.splits)

lemma append_txn_schema:
  assumes "posting_ok d t es" and "schema_ok d"
  shows "schema_ok (append_txn t es d)"
proof -
  have rows: "0 < lr_amount l \<and> lr_amount l < 10 ^ 18 \<and> lr_account l \<in> a_ID ` set (accounts d) \<and> lr_txn l = tr_id t"
    if "l \<in> set es" for l
    using posting_row [OF assms(1) that] assms(1) by (auto simp: posting_ok_def)
  have "transactions_ok (append_txn t es d)"
    using assms by (auto simp: schema_ok_def transactions_ok_def posting_ok_def)
  moreover have "ledger_ok (append_txn t es d)"
    using assms rows by (auto simp: schema_ok_def ledger_ok_def posting_ok_def)
  ultimately show ?thesis
    using assms(2) by (simp add: schema_ok_def users_ok_def accounts_ok_def)
qed

lemma append_txn_entries:
  assumes "posting_ok d t es" and "schema_ok d"
  shows "entries_of (append_txn t es d) t = es"
proof -
  have "filter (\<lambda>l. lr_txn l = tr_id t) (ledger d) = []"
    using assms unfolding filter_empty_conv schema_ok_def ledger_ok_def posting_ok_def by metis
  moreover have "filter (\<lambda>l. lr_txn l = tr_id t) es = es"
    using posting_row [OF assms(1)] by (simp add: filter_id_conv)
  ultimately show ?thesis by (simp add: entries_of_def)
qed

lemma append_txn_booked:
  assumes "posting_ok d t es" and "schema_ok d" and "booked d" and "entered d t es"
  shows "booked (append_txn t es d)"
proof -
  have fresh: "tr_id t \<notin> tr_id ` set (transactions d)"
    using assms(1) by (simp add: posting_ok_def)
  have "entries_of (append_txn t es d) s = entries_of d s" if "s \<in> set (transactions d)" for s
    using posting_row [OF assms(1)] that fresh by (auto simp: entries_of_def filter_empty_conv)
  moreover have "entries_of (append_txn t es d) t = es" by (rule append_txn_entries [OF assms(1,2)])
  moreover have "entered (append_txn t es d) s fs = entered d s fs" for s fs
    by (simp add: entered_def mints_def privileged_def)
  ultimately show ?thesis
    using assms(1,3,4) by (auto simp: booked_def list_all_iff posting_ok_def)
qed

text \<open>Balances: these are the laws of the book, at one or two postings.\<close>

lemma signed_debit: "is_debit_of t l \<Longrightarrow> signed_amount l = - tr_amount t"
  by (simp add: is_debit_of_def signed_amount_def)

lemma signed_credit: "is_credit_of t l \<Longrightarrow> signed_amount l = tr_amount t"
  by (simp add: is_credit_of_def signed_amount_def)

lemma post_rows: "ls @ [x] = post_row x ls" "ls @ [x, y] = post_row y (post_row x ls)"
  by (simp_all add: post_row_def)

lemma append_txn_nonneg:
  assumes "posting_ok d t es" and "schema_ok d" and "nonneg_balances d"
    and "double_entry t es \<Longrightarrow> tr_amount t \<le> balance_of (ledger d) (tr_from t)"
  shows "nonneg_balances (append_txn t es d)"
proof -
  have nn: "0 \<le> balance_of (ledger d) a" for a
    using assms(2,3) nonneg_balances_all by (auto simp: schema_ok_def)
  have pos: "0 < tr_amount t" and "double_entry t es \<or> single_entry t es"
    using assms(1) by (simp_all add: posting_ok_def)
  from this(2) have "0 \<le> balance_of (ledger d @ es) a" for a
  proof (cases rule: entries_rows)
    case (transfer x y)
    have "0 \<le> balance_of (post_row y (post_row x (ledger d))) a"
      using transfer assms(4) pos
      by (intro book.post_covered_nonneg nn) (auto simp: signed_debit signed_credit entry_defs)
    with transfer show ?thesis by (simp add: post_row_def)
  next
    case (funding y)
    have "0 \<le> balance_of (post_row y (ledger d)) a"
      using funding pos by (intro book.post_credit_nonneg nn) (simp add: signed_credit)
    with funding show ?thesis by (simp add: post_row_def)
  qed
  then show ?thesis by (simp add: nonneg_balances_def list_all_iff)
qed

lemma append_txn_bank_ok:
  assumes "posting_ok d t es" and "bank_ok d" and "entered d t es"
    and "double_entry t es \<Longrightarrow> tr_amount t \<le> balance_of (ledger d) (tr_from t)"
  shows "bank_ok (append_txn t es d)"
  using assms append_txn_schema append_txn_booked append_txn_nonneg by (auto simp: bank_ok_def)

lemma append_txn_total:
  assumes "posting_ok d t es" and "schema_ok d"
  shows "total_balance (append_txn t es d) = total_balance d + (if double_entry t es then 0 else tr_amount t)"
proof -
  have dist: "distinct (map a_ID (accounts d))"
    using assms(2) by (simp add: schema_ok_def accounts_ok_def)
  have acc: "tr_from t \<in> a_ID ` set (accounts d)" "tr_to t \<in> a_ID ` set (accounts d)"
    and "double_entry t es \<or> single_entry t es"
    using assms(1) by (auto simp: posting_ok_def)
  from this(3) have "(\<Sum>a\<in>a_ID ` set (accounts d). balance_of (ledger d @ es) a) =
      (\<Sum>a\<in>a_ID ` set (accounts d). balance_of (ledger d) a) + (if double_entry t es then 0 else tr_amount t)"
  proof (cases rule: entries_rows)
    case (transfer x y)
    then have "lr_account x = tr_from t" "lr_account y = tr_to t" "double_entry t es"
      by (auto simp: entry_defs)
    with transfer acc show ?thesis
      by (simp only: post_rows) (simp add: book.sum_post_pair signed_debit signed_credit)
  next
    case (funding y)
    then have "lr_account y = tr_to t" "\<not> double_entry t es"
      by (auto simp: entry_defs)
    with funding acc show ?thesis
      by (simp only: post_rows) (simp add: book.sum_post signed_credit)
  qed
  then show ?thesis using dist by (simp add: total_balance_sum)
qed

text \<open>Nothing is ever taken out of the books: the relation of the immutable ledger.\<close>

definition appends :: "db \<Rightarrow> db \<Rightarrow> bool" where
  "appends d d' \<longleftrightarrow> (\<exists>ts es. transactions d' = transactions d @ ts \<and> ledger d' = ledger d @ es)"

lemma appends_refl: "reflp appends"
  by (simp add: reflp_def appends_def)

lemma appends_trans: "transp appends"
  by (rule transpI) (auto simp: appends_def)

lemma append_txn_appends: "appends d (append_txn t es d)"
  by (simp add: appends_def)

section \<open>Fresh identifiers\<close>

text \<open>The identifiers drawn in the next \<open>k\<close> instants are distinct and not yet in the tables.\<close>

definition fresh_ids :: "'r env \<Rightarrow> nat \<Rightarrow> nat \<Rightarrow> db \<Rightarrow> bool" where
  "fresh_ids E m k d \<longleftrightarrow> distinct (map (uuid_New E) [m..<m + k]) \<and>
     list_all (\<lambda>n. uuid_New E n \<notin> tr_id ` set (transactions d) \<and> uuid_New E n \<notin> lr_id ` set (ledger d)) [m..<m + k]"

lemma fresh_idsD:
  assumes "fresh_ids E m k d" and "m \<le> n" and "n < m + k"
  shows "uuid_New E n \<notin> tr_id ` set (transactions d)" "uuid_New E n \<notin> lr_id ` set (ledger d)"
    "m \<le> p \<Longrightarrow> p < m + k \<Longrightarrow> uuid_New E n = uuid_New E p \<longleftrightarrow> n = p"
  using assms by (auto simp: fresh_ids_def list_all_iff distinct_map inj_on_eq_iff)

lemma fresh_ids_later: "fresh_ids E m k d \<Longrightarrow> i + j \<le> k \<Longrightarrow> fresh_ids E (m + i) j d"
  by (auto simp: fresh_ids_def list_all_iff distinct_map intro: inj_on_subset)

lemma lookup_account_exists: "lookup_account d i = Some a \<Longrightarrow> i \<in> a_ID ` set (accounts d)"
  by (auto simp: lookup_account_def dest: find_SomeD)

end
