(* ===== verification/Sample_Env.thy ===== *)
theory Sample_Env
  imports Books "HOL-Library.AList"
begin

text \<open>
  A concrete environment that satisfies every documented behaviour the theorems rely on,
  with a small world to run the program in: the witnesses of the development evaluate the
  definitions here. No statement fails, identifiers are numbered, the clock counts
  seconds, and Redis keeps its keys in lists.
\<close>

section \<open>Texts of identifiers\<close>

definition hexdigit :: "nat \<Rightarrow> char" where
  "hexdigit n = (if n < 10 then char_of (48 + n) else char_of (87 + n))"

fun hex :: "nat \<Rightarrow> nat \<Rightarrow> string" where
  "hex 0 n = []"
| "hex (Suc k) n = hex k (n div 16) @ [hexdigit (n mod 16)]"

lemma hexdigit_inj: "m < 16 \<Longrightarrow> n < 16 \<Longrightarrow> hexdigit m = hexdigit n \<Longrightarrow> m = n"
  by (auto simp: hexdigit_def char_of_eq_iff take_bit_nat_eq_self dest!: arg_cong [of _ _ "of_char :: char \<Rightarrow> nat"]
      split: if_splits)

lemma length_hex [simp]: "length (hex k n) = k"
  by (induction k arbitrary: n) auto

lemma hex_inj: "m < 16 ^ k \<Longrightarrow> n < 16 ^ k \<Longrightarrow> hex k m = hex k n \<Longrightarrow> m = n"
proof (induction k arbitrary: m n)
  case 0
  then show ?case by simp
next
  case (Suc k)
  have "m div 16 < 16 ^ k" and "n div 16 < 16 ^ k"
    using Suc.prems(1,2) by (auto simp: less_mult_imp_div_less mult.commute)
  moreover have "hex k (m div 16) = hex k (n div 16)" and d: "hexdigit (m mod 16) = hexdigit (n mod 16)"
    using Suc.prems(3) by auto
  ultimately have "m div 16 = n div 16" using Suc.IH by blast
  moreover have "m mod 16 = n mod 16" using d by (intro hexdigit_inj) auto
  ultimately show ?case by (metis div_mult_mod_eq)
qed

definition sample_uuid_String :: "uuid \<Rightarrow> string" where
  "sample_uuid_String u = hex 32 (unat u)"

lemma inj_sample_uuid_String: "inj sample_uuid_String"
proof (rule injI)
  fix u v assume "sample_uuid_String u = sample_uuid_String v"
  moreover have "unat u < 16 ^ 32" and "unat v < 16 ^ 32"
    using unsigned_less [of u] unsigned_less [of v] by simp_all
  ultimately have "unat u = unat v" unfolding sample_uuid_String_def by (intro hex_inj)
  then show "u = v" by (rule unsigned_word_eqI)
qed

definition undigit :: "char \<Rightarrow> nat" where
  "undigit c = (let n = of_char c in if n < 58 then n - 48 else n - 87)"

definition unhex :: "string \<Rightarrow> nat" where
  "unhex s = foldl (\<lambda>v c. 16 * v + undigit c) 0 s"

lemma undigit_hexdigit: "d < 16 \<Longrightarrow> undigit (hexdigit d) = d"
  by (auto simp: undigit_def hexdigit_def Let_def of_char_of)

lemma unhex_hex: "n < 16 ^ k \<Longrightarrow> unhex (hex k n) = n"
proof (induction k arbitrary: n)
  case 0
  then show ?case by (simp add: unhex_def)
next
  case (Suc k)
  then have "n div 16 < 16 ^ k" by (auto simp: less_mult_imp_div_less mult.commute)
  then have "unhex (hex k (n div 16)) = n div 16" by (rule Suc.IH)
  then show ?case by (simp add: unhex_def undigit_hexdigit)
qed

section \<open>Tokens\<close>

text \<open>
  A sample token format: the fields one after the other, each behind its length in unary,
  and the secret itself in place of the signature.
\<close>

definition frame :: "string \<Rightarrow> string" where
  "frame x = replicate (length x) (CHR ''1'') @ CHR ''0'' # x"

fun unframe :: "nat \<Rightarrow> string \<Rightarrow> (string \<times> string) option" where
  "unframe k [] = None"
| "unframe k (c # cs) =
     (if c = CHR ''1'' then unframe (Suc k) cs else if c = CHR ''0'' then Some (take k cs, drop k cs) else None)"

fun unframes :: "nat \<Rightarrow> string \<Rightarrow> string list" where
  "unframes 0 s = []"
| "unframes (Suc n) s = (case unframe 0 s of None \<Rightarrow> [] | Some (x, r) \<Rightarrow> x # unframes n r)"

lemma unframe_frame: "unframe 0 (frame x @ r) = Some (x, r)"
proof -
  have "unframe k (replicate n (CHR ''1'') @ CHR ''0'' # x @ r) = Some (take (k + n) (x @ r), drop (k + n) (x @ r))" for k n
    by (induction n arbitrary: k) auto
  from this [of 0 "length x"] show ?thesis by (simp add: frame_def)
qed

lemma unframes_frames: "unframes (length xs) (concat (map frame xs)) = xs"
  by (induction xs) (auto simp: unframe_frame)

definition token_fields :: "Claims \<Rightarrow> string \<Rightarrow> string list" where
  "token_fields c s = [c_ID c, c_Issuer c, c_Subject c, hex 64 (nat (c_IssuedAt c)), hex 64 (nat (c_ExpiresAt c)),
     sample_uuid_String (c_UserID c), c_Username c, (if c_IsSystemUser c then ''t'' else ''f''), s]"

definition sample_sign :: "Claims \<Rightarrow> string \<Rightarrow> string + string" where
  "sample_sign c s =
     (if 0 \<le> c_IssuedAt c \<and> c_IssuedAt c < 16 ^ 64 \<and> 0 \<le> c_ExpiresAt c \<and> c_ExpiresAt c < 16 ^ 64
      then Inr (concat (map frame (token_fields c s))) else Inl ''time out of range'')"

definition sample_parse :: "nat \<Rightarrow> string \<Rightarrow> (jwt_method \<Rightarrow> goerr + string) \<Rightarrow> goerr + (Claims option \<times> bool)" where
  "sample_parse n t keyfunc =
     (case unframes 9 t of
        [i, iss, sub, iat, ex, uid, name, sys, s] \<Rightarrow>
          (case keyfunc (SigningMethodHMAC ''HS256'') of
             Inl e \<Rightarrow> Inl e
           | Inr s' \<Rightarrow>
               if s' \<noteq> s then Inl (Plain ''token signature is invalid'')
               else if int (unhex ex) \<le> int n * Second then Inl (Plain ''token is expired'')
               else Inr (Some \<lparr>c_ID = i, c_Issuer = iss, c_Subject = sub, c_IssuedAt = int (unhex iat),
                               c_ExpiresAt = int (unhex ex), c_UserID = word_of_nat (unhex uid), c_Username = name,
                               c_IsSystemUser = (sys = ''t'')\<rparr>, True))
      | _ \<Rightarrow> Inl (Plain ''token is malformed''))"

lemma sample_parse_sign:
  assumes "sample_sign c s = Inr t"
  shows "sample_parse n t keyfunc =
    (case keyfunc (SigningMethodHMAC ''HS256'') of
       Inl e \<Rightarrow> Inl e
     | Inr s' \<Rightarrow> if s' \<noteq> s then Inl (Plain ''token signature is invalid'')
                else if c_ExpiresAt c \<le> int n * Second then Inl (Plain ''token is expired'')
                else Inr (Some c, True))"
proof -
  have t: "t = concat (map frame (token_fields c s))" and iat: "nat (c_IssuedAt c) < 16 ^ 64"
    and ex: "nat (c_ExpiresAt c) < 16 ^ 64" and pos: "0 \<le> c_IssuedAt c" "0 \<le> c_ExpiresAt c"
    using assms by (auto simp: sample_sign_def nat_less_iff split: if_splits)
  have fields: "unframes 9 t = token_fields c s"
  proof -
    have "length (token_fields c s) = 9" by (simp add: token_fields_def)
    then show ?thesis using unframes_frames [of "token_fields c s"] by (simp only: t)
  qed
  have "unat (c_UserID c) < 16 ^ 32" using unsigned_less [of "c_UserID c"] by simp
  then have "word_of_nat (unhex (sample_uuid_String (c_UserID c))) = c_UserID c"
    by (simp add: sample_uuid_String_def unhex_hex)
  with pos iat ex show ?thesis
    by (simp add: sample_parse_def fields token_fields_def unhex_hex split: sum.splits)
qed

section \<open>A list-based Redis\<close>

record sample_redis =
  sr_keys :: "(string \<times> string) list"
  sr_sets :: "(string \<times> int \<times> (string \<times> int) list) list"

definition sr_deadline :: "sample_redis \<Rightarrow> string \<Rightarrow> int" where
  "sr_deadline r k = (case map_of (sr_sets r) k of None \<Rightarrow> 0 | Some (d, z) \<Rightarrow> d)"

definition sr_stored :: "sample_redis \<Rightarrow> string \<Rightarrow> (string \<times> int) list" where
  "sr_stored r k = (case map_of (sr_sets r) k of None \<Rightarrow> [] | Some (d, z) \<Rightarrow> AList.clearjunk z)"

definition sr_zset :: "int \<Rightarrow> sample_redis \<Rightarrow> string \<Rightarrow> (string \<times> int) list" where
  "sr_zset now r k = (if sr_deadline r k \<le> now then [] else sr_stored r k)"

definition sr_put :: "string \<Rightarrow> int \<Rightarrow> (string \<times> int) list \<Rightarrow> sample_redis \<Rightarrow> sample_redis" where
  "sr_put k d z r = r\<lparr>sr_sets := (k, d, z) # sr_sets r\<rparr>"

definition sr_alive :: "int \<Rightarrow> sample_redis \<Rightarrow> string \<Rightarrow> int" where
  "sr_alive now r k = (if sr_deadline r k \<le> now then now + 1 else sr_deadline r k)"

fun sr_cmd :: "int \<Rightarrow> redis_cmd \<Rightarrow> sample_redis \<Rightarrow> int \<times> sample_redis" where
  "sr_cmd now (ZRemRangeByScore k hi) r =
     (let z = sr_zset now r k; z' = filter (\<lambda>p. \<not> snd p \<le> float64_of_int hi) z in
      (int (length z - length z'), sr_put k (sr_alive now r k) z' r))"
| "sr_cmd now (ZCard k) r = (int (length (sr_zset now r k)), r)"
| "sr_cmd now (ZAdd k s m) r =
     ((if m \<in> fst ` set (sr_zset now r k) then 0 else 1), sr_put k (sr_alive now r k) ((m, s) # sr_zset now r k) r)"
| "sr_cmd now (Expire k ttl) r =
     ((if sr_zset now r k = [] then 0 else 1), sr_put k (now + ttl) (sr_zset now r k) r)"

fun sr_pipe :: "int \<Rightarrow> redis_cmd list \<Rightarrow> sample_redis \<Rightarrow> int list \<times> sample_redis" where
  "sr_pipe now [] r = ([], r)"
| "sr_pipe now (c # cs) r =
     (case sr_cmd now c r of (v, r') \<Rightarrow> case sr_pipe now cs r' of (vs, r'') \<Rightarrow> (v # vs, r''))"

definition sr_scores :: "sample_redis \<Rightarrow> string \<Rightarrow> string \<rightharpoonup> int" where
  "sr_scores r k = map_of (sr_stored r k)"

definition sr_kv :: "sample_redis \<Rightarrow> nat \<Rightarrow> string \<rightharpoonup> string" where
  "sr_kv r n = map_of (sr_keys r)"

section \<open>The environment\<close>

definition sample_env :: "sample_redis env" where
  "sample_env =
     \<lparr>uuid_New = (\<lambda>n. word_of_nat (1000 + n)),
      uuid_String = sample_uuid_String,
      uuid_Parse = (\<lambda>s. if length s = 32 then Some (word_of_nat (unhex s)) else None),
      dec_IsPositive = (\<lambda>x. 0 < x),
      dec_LessThan = (\<lambda>x y. x < y),
      dec_StringFixed = (\<lambda>x n. ''0.0000''),
      time_Now = (\<lambda>n. int n * Second),
      bcrypt_Generate = (\<lambda>n p c. if 72 < length p then Inl ''password length exceeds 72 bytes'' else Inr (CHR ''$'' # p)),
      bcrypt_Compare = (\<lambda>h p. if h = CHR ''$'' # p then None else Some ''mismatch''),
      jwt_NewNumericDate = (\<lambda>t. t),
      jwt_SignHS256 = sample_sign,
      jwt_Parse = sample_parse,
      pg_outcome = (\<lambda>n. PgOk),
      pg_now = (\<lambda>n. int n * Second),
      pg_scan_accounts = (\<lambda>n xs. xs),
      pg_scan_transactions = (\<lambda>n xs. xs),
      pq_Error = (\<lambda>c. ''pq: constraint''),
      rdb_SetNX = (\<lambda>n k v ttl r. if map_of (sr_keys r) k = None
                     then (Inr True, r\<lparr>sr_keys := (k, v) # sr_keys r\<rparr>) else (Inr False, r)),
      rdb_Set = (\<lambda>n k v ttl r. (None, r\<lparr>sr_keys := (k, v) # sr_keys r\<rparr>)),
      rdb_Del = (\<lambda>n k r. (None, r\<lparr>sr_keys := filter (\<lambda>(j, _). j \<noteq> k) (sr_keys r)\<rparr>)),
      rdb_Exists = (\<lambda>n k r. (Inr (if map_of (sr_keys r) k = None then 0 else 1), r)),
      rdb_Pipeline = (\<lambda>n cs r. case sr_pipe (int n * Second) cs r of (vs, r') \<Rightarrow> (Inr vs, r')),
      rdb_ZRem = (\<lambda>n k m r. sr_put k (sr_deadline r k) (AList.delete m (sr_zset (int n * Second) r k)) r),
      json_Transfer = (\<lambda>b. None),
      json_Fund = (\<lambda>b. None),
      json_Register = (\<lambda>b. None),
      json_Login = (\<lambda>b. None)\<rparr>"

lemma map_of_filter_key: "map_of (filter (\<lambda>(j, _). j \<noteq> k) xs) = (map_of xs)(k := None)"
  by (induction xs) auto

lemma sample_decimal: "decimal_spec sample_env"
  by (simp add: decimal_spec_def sample_env_def)

lemma sample_uuid: "uuid_spec sample_env"
  by (simp add: uuid_spec_def sample_env_def inj_sample_uuid_String)

lemma sample_scan: "scan_spec sample_env"
  by (simp add: scan_spec_def sample_env_def)

lemma sample_redis_kv: "redis_kv_spec sample_env sr_kv"
  by (auto simp: redis_kv_spec_def sample_env_def sr_kv_def map_of_filter_key split: if_splits)

lemma sr_put_sel [simp]:
  "sr_deadline (sr_put k d z r) k = d" "sr_stored (sr_put k d z r) k = AList.clearjunk z"
  by (simp_all add: sr_put_def sr_deadline_def sr_stored_def)

lemma distinct_sr_zset: "distinct (map fst (sr_zset now r k))"
  by (auto simp: sr_zset_def sr_stored_def distinct_clearjunk split: option.splits prod.splits)

lemma sr_alive_later: "now < sr_alive now r k"
  by (simp add: sr_alive_def)

lemma sr_live: "live_zset sr_scores sr_deadline r t k = map_of (sr_zset t r k)"
  by (simp add: live_zset_def sr_scores_def sr_zset_def)

lemma map_of_above:
  "distinct (map fst z) \<Longrightarrow> map_of (filter (\<lambda>p. \<not> snd p \<le> float64_of_int hi) z) = above hi (map_of z)"
proof (rule ext)
  fix m assume "distinct (map fst z)"
  then show "map_of (filter (\<lambda>p. \<not> snd p \<le> float64_of_int hi) z) m = above hi (map_of z) m"
    by (induction z) (force simp: above_def map_of_eq_None_iff)+
qed

lemma card_map_of_distinct: "distinct (map fst z) \<Longrightarrow> length z = card (dom (map_of z))"
  by (metis distinct_card dom_map_of_conv_image_fst length_map list.set_map)

lemma sample_redis_zset: "redis_zset_spec sample_env sr_scores sr_deadline"
  unfolding redis_zset_spec_def Let_def
proof (intro conjI allI impI)
  fix n k hi sc m ttl r vs r'
  let ?now = "int n * Second"
  let ?z = "filter (\<lambda>p. \<not> snd p \<le> float64_of_int hi) (sr_zset ?now r k)"
  let ?r1 = "sr_put k (sr_alive ?now r k) ?z r"
  let ?y = "(m, sc) # ?z"
  let ?r2 = "sr_put k (sr_alive ?now ?r1 k) ?y ?r1"
  let ?r3 = "sr_put k (?now + ttl) (sr_zset ?now ?r2 k) ?r2"
  assume run: "rdb_Pipeline sample_env n [ZRemRangeByScore k hi, ZCard k, ZAdd k sc m, Expire k ttl] r = (Inr vs, r')"
    and "0 < ttl"
  have d: "distinct (map fst ?z)"
    using distinct_sr_zset [of ?now r k] by (simp add: distinct_map inj_on_def)
  have z1: "sr_zset ?now ?r1 k = ?z"
    using sr_alive_later [of ?now r k] d by (simp add: sr_zset_def distinct_clearjunk_id)
  have z2: "sr_zset ?now ?r2 k = AList.clearjunk ?y"
    using sr_alive_later [of ?now ?r1 k] by (simp add: sr_zset_def)
  have above: "map_of ?z = above hi (live_zset sr_scores sr_deadline r (time_Now sample_env n) k)"
    using map_of_above [OF distinct_sr_zset, of hi ?now r k] by (simp add: sr_live) (simp add: sample_env_def)
  have card: "int (length ?z) = int (card (dom (map_of ?z)))"
    using d by (metis card_map_of_distinct)
  have res: "(\<exists>a c e. vs = [a, int (length ?z), c, e]) \<and> r' = ?r3"
    using run z1 unfolding sample_env_def by (auto simp: Let_def)
  show "\<exists>a c d. vs = [a, int (card (dom (above hi (live_zset sr_scores sr_deadline r (time_Now sample_env n) k)))), c, d]"
    using res card unfolding above by simp
  show "sr_scores r' k = (above hi (live_zset sr_scores sr_deadline r (time_Now sample_env n) k))(m \<mapsto> sc)"
  proof -
    have "sr_scores r' k = map_of (AList.clearjunk (AList.clearjunk ?y))"
      using res by (simp only: sr_scores_def sr_put_sel z2)
    also have "\<dots> = map_of ?y" by (simp only: map_of_clearjunk)
    finally show ?thesis unfolding above [symmetric] by simp
  qed
  show "sr_deadline r' k = time_Now sample_env n + ttl"
    using res by (simp add: sample_env_def)
next
  fix n k m r
  show "sr_scores (rdb_ZRem sample_env n k m r) k = (live_zset sr_scores sr_deadline r (time_Now sample_env n) k)(m := None)"
    by (simp add: sr_live) (simp add: sample_env_def sr_scores_def map_of_clearjunk clearjunk_delete delete_conv')
  show "sr_deadline (rdb_ZRem sample_env n k m r) k = sr_deadline r k"
    by (simp add: sample_env_def)
qed

lemma sample_jwt: "jwt_spec sample_env"
  unfolding jwt_spec_def
proof (intro conjI allI impI)
  fix c s t n and key :: "jwt_method \<Rightarrow> goerr + string"
  assume "jwt_SignHS256 sample_env c s = Inr t"
  then have sign: "sample_sign c s = Inr t" by (simp add: sample_env_def)
  show "jwt_Parse sample_env n t key = Inr (Some c, True)"
    if "key (SigningMethodHMAC ''HS256'') = Inr s" "time_Now sample_env n < c_ExpiresAt c"
    using that sample_parse_sign [OF sign] by (simp add: sample_env_def)
  show "\<exists>e. jwt_Parse sample_env n t key = Inl e" if "c_ExpiresAt c \<le> time_Now sample_env n"
    using that sample_parse_sign [OF sign] by (simp add: sample_env_def split: sum.splits)
qed (simp_all add: sample_env_def Second_def)

lemma sample_bcrypt: "bcrypt_spec sample_env"
  by (simp add: bcrypt_spec_def sample_env_def varchar_short)

section \<open>A small bank\<close>

text \<open>Two customers with one account each; the first was funded with 100 from the system account.\<close>

definition alice :: User where
  "alice = \<lparr>u_ID = 10, u_Username = ''alice'', u_Email = ''a@x'', u_PasswordHash = ''$pw'', u_FullName = ''Alice'',
     u_IsSystemUser = False, u_IsActive = True, u_CreatedAt = 0, u_UpdatedAt = 0\<rparr>"

definition bob :: User where
  "bob = \<lparr>u_ID = 20, u_Username = ''bob'', u_Email = ''b@x'', u_PasswordHash = ''$pw'', u_FullName = ''Bob'',
     u_IsSystemUser = False, u_IsActive = True, u_CreatedAt = 0, u_UpdatedAt = 0\<rparr>"

definition sample_db :: db where
  "sample_db = (seed_db 0)\<lparr>
     users := users (seed_db 0) @ [alice, bob],
     accounts := accounts (seed_db 0) @
       [\<lparr>a_ID = 11, a_UserID = 10, a_Currency = ''INR'', a_Status = AccountStatusActive, a_CreatedAt = 0\<rparr>,
        \<lparr>a_ID = 21, a_UserID = 20, a_Currency = ''INR'', a_Status = AccountStatusActive, a_CreatedAt = 0\<rparr>],
     transactions := [\<lparr>tr_id = 50, tr_from = system_uuid, tr_to = 11, tr_amount = 1000000,
        tr_status = TxnStatusCompleted, tr_key = 51, tr_created = 0, tr_updated = 0\<rparr>],
     ledger := [\<lparr>lr_id = 52, lr_account = 11, lr_txn = 50, lr_amount = 1000000, lr_type = EntryTypeCredit,
        lr_created = 0\<rparr>]\<rparr>"

lemmas sample_db_defs = sample_db_def seed_db_def alice_def bob_def system_uuid_def

definition sample_world :: "sample_redis world" where
  "sample_world = \<lparr>w_db = sample_db, w_redis = \<lparr>sr_keys = [], sr_sets = []\<rparr>, w_tick = 0\<rparr>"

lemma sample_bank_ok: "bank_ok sample_db"
  by (simp add: bank_ok_def schema_defs booked_def entered_def mints_def privileged_def nonneg_balances_def entries_of_def entry_defs balance_of_def
      signed_amount_def sample_db_defs)

section \<open>Its identifiers are fresh\<close>

lemma sample_uuid_New: "n < 2 ^ 64 \<Longrightarrow> unat (uuid_New sample_env n) = 1000 + n"
  unfolding sample_env_def by (simp add: unat_of_nat del: of_nat_add)

lemma sample_fresh:
  assumes "m + k < 2 ^ 64"
    and "\<forall>u \<in> tr_id ` set (transactions d) \<union> lr_id ` set (ledger d). unat u < 1000"
  shows "fresh_ids sample_env m k d"
proof -
  have val: "unat (uuid_New sample_env n) = 1000 + n" if "n < m + k" for n
    using that assms(1) by (intro sample_uuid_New) linarith
  have "inj_on (uuid_New sample_env) {m..<m + k}"
    by (rule inj_onI) (metis val add_left_cancel atLeastLessThan_iff)
  moreover have "uuid_New sample_env n \<notin> tr_id ` set (transactions d) \<union> lr_id ` set (ledger d)" if "n < m + k" for n
    using assms(2) val [OF that] by (metis not_add_less1)
  ultimately show ?thesis by (auto simp: fresh_ids_def list_all_iff distinct_map)
qed

lemma sample_reliable: "pg_reliable sample_env"
  by (simp add: pg_reliable_def sample_env_def)

end
