(* ===== verification/Transfer_Service.thy ===== *)
theory Transfer_Service
  imports Sample_Env
begin

text \<open>
  internal/service/transfer.go: \<open>TransferFunds\<close> and \<open>GetBalance\<close>. The method is
  split where the code leaves the database: \<open>transfer_claim\<close> checks the request and
  claims the idempotency key in Redis, \<open>transfer_execute\<close> runs the closure
  (\<open>transfer_body\<close>) in one SQL transaction, \<open>transfer_finish\<close> is the end of the
  method with its deferred release of the key. Timing and log lines have no model.

  The lemma \<open>transfer_body_Inr\<close> says what a transaction that went through has read
  and written; everything else about transfers follows from it.
\<close>

section \<open>The method\<close>

definition idempotencyTTL :: duration where
  "idempotencyTTL = 24 * Hour"

definition redisKeyPrefix :: string where
  "redisKeyPrefix = ''vault:idempotency:''"

definition idempKey :: "'r env \<Rightarrow> TransferRequest \<Rightarrow> string" where
  "idempKey E req = redisKeyPrefix @ uuid_String E (req_IdempotencyKey req)"

definition transfer_claim :: "'r env \<Rightarrow> TransferRequest \<Rightarrow> ('r world, string) goio" where
  "transfer_claim E req w =
     (if req_FromAccountID req = req_ToAccountID req then (Inl (Sentinel ErrSameAccount), w)
      else if \<not> dec_IsPositive E (req_Amount req) then (Inl (Sentinel ErrInvalidAmount), w)
      else
        (case rdb_SetNX E (w_tick w) (idempKey E req) ''processing'' idempotencyTTL (w_redis w) of
           (Inl e, r) \<Rightarrow> (Inl (Wrapf ''redis idempotency check: '' (Driver e)),
                          w\<lparr>w_redis := r, w_tick := Suc (w_tick w)\<rparr>)
         | (Inr wasSet, r) \<Rightarrow>
             (if wasSet then Inr (idempKey E req) else Inl (Sentinel ErrDuplicateTransaction),
              w\<lparr>w_redis := r, w_tick := Suc (w_tick w)\<rparr>)))"

text \<open>Accounts are locked in the order of their UUID texts.\<close>

definition lock_order :: "'r env \<Rightarrow> TransferRequest \<Rightarrow> uuid \<times> uuid" where
  "lock_order E req =
     (if uuid_String E (req_FromAccountID req) > uuid_String E (req_ToAccountID req)
      then (req_ToAccountID req, req_FromAccountID req)
      else (req_FromAccountID req, req_ToAccountID req))"

definition transfer_body :: "'r env \<Rightarrow> TransferRequest \<Rightarrow> uuid \<Rightarrow> (pgtx, unit) goio" where
  "transfer_body E req txnID =
     (case lock_order E req of (firstLock, secondLock) \<Rightarrow>
      attempt (GetAccountForUpdate E firstLock) (\<lambda>_.
      attempt (GetAccountForUpdate E secondLock) (\<lambda>_.
      attempt (wrapf ''sender account: '' (GetAccountForUpdate E (req_FromAccountID req))) (\<lambda>fromAcct.
      attempt (wrapf ''receiver account: '' (GetAccountForUpdate E (req_ToAccountID req))) (\<lambda>toAcct.
      if a_Status fromAcct \<noteq> AccountStatusActive
        then fail (Wrapf ''sender '' (Sentinel ErrAccountNotActive))
      else if a_Status toAcct \<noteq> AccountStatusActive
        then fail (Wrapf ''receiver '' (Sentinel ErrAccountNotActive))
      else
      attempt (wrapf ''sender balance: '' (GetBalance E (req_FromAccountID req))) (\<lambda>senderBalance.
      if dec_LessThan E senderBalance (req_Amount req) then fail (Sentinel ErrInsufficientFunds)
      else
      attempt (CreateTransaction E
        \<lparr>t_ID = txnID, t_FromAccountID = req_FromAccountID req, t_ToAccountID = req_ToAccountID req,
         t_Amount = req_Amount req, t_Status = TxnStatusPending,
         t_IdempotencyKey = req_IdempotencyKey req,
         t_CreatedAt = time_Zero, t_UpdatedAt = time_Zero\<rparr>) (\<lambda>_.
      attempt (tx_new_uuid E) (\<lambda>debitID.
      attempt (tx_new_uuid E) (\<lambda>creditID.
      attempt (wrapf ''debit ledger: '' (InsertLedgerEntry E
        \<lparr>l_ID = debitID, l_AccountID = req_FromAccountID req, l_TransactionID = txnID,
         l_Amount = req_Amount req, l_EntryType = EntryTypeDebit, l_CreatedAt = time_Zero\<rparr>)) (\<lambda>_.
      attempt (wrapf ''credit ledger: '' (InsertLedgerEntry E
        \<lparr>l_ID = creditID, l_AccountID = req_ToAccountID req, l_TransactionID = txnID,
         l_Amount = req_Amount req, l_EntryType = EntryTypeCredit, l_CreatedAt = time_Zero\<rparr>)) (\<lambda>_.
      UpdateTransactionStatus E txnID TxnStatusCompleted)))))))))))"

definition transfer_execute :: "'r env \<Rightarrow> TransferRequest \<Rightarrow> ('r world, uuid) goio" where
  "transfer_execute E req w =
     (let txnID = uuid_New E (w_tick w) in
      attempt (WithTx E (transfer_body E req txnID)) (\<lambda>_. ok txnID) (w\<lparr>w_tick := Suc (w_tick w)\<rparr>))"

text \<open>
  On an error the deferred function deletes the key, and a failure to do so is only
  logged; on success the key is overwritten with the transaction's id and the outcome of
  that is ignored.
\<close>

definition rollback_key :: "'r env \<Rightarrow> string \<Rightarrow> 'r world \<Rightarrow> 'r world" where
  "rollback_key E key w = w\<lparr>w_redis := snd (rdb_Del E (w_tick w) key (w_redis w)), w_tick := Suc (w_tick w)\<rparr>"

definition transfer_finish ::
  "'r env \<Rightarrow> string \<Rightarrow> goerr + uuid \<Rightarrow> ('r world, TransferResponse) goio" where
  "transfer_finish E key result w =
     (case result of
        Inl e \<Rightarrow> (Inl e, rollback_key E key w)
      | Inr txnID \<Rightarrow>
          (Inr \<lparr>res_TransactionID = txnID, res_Status = TxnStatusCompleted,
                res_Message = ''Transfer completed successfully''\<rparr>,
           w\<lparr>w_redis := snd (rdb_Set E (w_tick w) key (uuid_String E txnID) idempotencyTTL (w_redis w)),
             w_tick := Suc (w_tick w)\<rparr>))"

definition TransferFunds :: "'r env \<Rightarrow> TransferRequest \<Rightarrow> ('r world, TransferResponse) goio" where
  "TransferFunds E req =
     attempt (transfer_claim E req)
       (\<lambda>key w. case transfer_execute E req w of (result, w') \<Rightarrow> transfer_finish E key result w')"

definition TransferService_GetBalance :: "'r env \<Rightarrow> uuid \<Rightarrow> ('r world, decimal) goio" where
  "TransferService_GetBalance E accountID =
     WithTx E (attempt (GetAccountForUpdate E accountID) (\<lambda>_. GetBalance E accountID))"

section \<open>What a committed transfer has done\<close>

text \<open>The rows a transfer adds to the tables.\<close>

definition transfer_txn_row :: "TransferRequest \<Rightarrow> uuid \<Rightarrow> int \<Rightarrow> time \<Rightarrow> txn_row" where
  "transfer_txn_row req txnID n now =
     \<lparr>tr_id = txnID, tr_from = req_FromAccountID req, tr_to = req_ToAccountID req, tr_amount = n,
      tr_status = TxnStatusCompleted, tr_key = req_IdempotencyKey req,
      tr_created = now, tr_updated = now\<rparr>"

definition debit_row :: "TransferRequest \<Rightarrow> uuid \<Rightarrow> uuid \<Rightarrow> int \<Rightarrow> time \<Rightarrow> ledger_row" where
  "debit_row req txnID i n now =
     \<lparr>lr_id = i, lr_account = req_FromAccountID req, lr_txn = txnID, lr_amount = n,
      lr_type = EntryTypeDebit, lr_created = now\<rparr>"

definition credit_row :: "uuid \<Rightarrow> uuid \<Rightarrow> uuid \<Rightarrow> int \<Rightarrow> time \<Rightarrow> ledger_row" where
  "credit_row to txnID i n now =
     \<lparr>lr_id = i, lr_account = to, lr_txn = txnID, lr_amount = n,
      lr_type = EntryTypeCredit, lr_created = now\<rparr>"

text \<open>
  \<open>transfer_effect d req txnID n d'\<close>: the tables \<open>d'\<close> are \<open>d\<close> with one completed
  transaction and its debit and credit of \<open>n\<close> units, between two active accounts, the
  sender covering the amount.
\<close>

definition transfer_effect ::
  "'r env \<Rightarrow> TransferRequest \<Rightarrow> uuid \<Rightarrow> int \<Rightarrow> db \<Rightarrow> db \<Rightarrow> bool" where
  "transfer_effect E req txnID n d d' \<longleftrightarrow>
     (\<exists>now i j.
        active_account d (req_FromAccountID req) \<and> active_account d (req_ToAccountID req) \<and>
        \<not> dec_LessThan E (decimal_of_numeric (balance_of (ledger d) (req_FromAccountID req))) (req_Amount req) \<and>
        numeric_18_4 (req_Amount req) = Some n \<and> 0 < n \<and> n < 10 ^ 18 \<and>
        req_FromAccountID req \<noteq> req_ToAccountID req \<and>
        txnID \<notin> tr_id ` set (transactions d) \<and> req_IdempotencyKey req \<notin> tr_key ` set (transactions d) \<and>
        i \<notin> lr_id ` set (ledger d) \<and> j \<notin> lr_id ` set (ledger d) \<and> j \<noteq> i \<and>
        d' = append_txn (transfer_txn_row req txnID n now)
               [debit_row req txnID i n now, credit_row (req_ToAccountID req) txnID j n now] d)"

lemma transfer_effectI:
  assumes "d' = append_txn (transfer_txn_row req txnID n now)
               [debit_row req txnID i n now, credit_row (req_ToAccountID req) txnID j n now] d"
    and "active_account d (req_FromAccountID req)" and "active_account d (req_ToAccountID req)"
    and "\<not> dec_LessThan E (decimal_of_numeric (balance_of (ledger d) (req_FromAccountID req))) (req_Amount req)"
    and "numeric_18_4 (req_Amount req) = Some n" and "0 < n" and "n < 10 ^ 18"
    and "req_FromAccountID req \<noteq> req_ToAccountID req"
    and "txnID \<notin> tr_id ` set (transactions d)" and "req_IdempotencyKey req \<notin> tr_key ` set (transactions d)"
    and "i \<notin> lr_id ` set (ledger d)" and "j \<notin> lr_id ` set (ledger d)" and "j \<noteq> i"
  shows "transfer_effect E req txnID n d d'"
  unfolding transfer_effect_def using assms by blast


lemma transfer_body_Inr:
  assumes "transfer_body E req txnID tx = (Inr u, tx')"
  shows "\<exists>n. transfer_effect E req txnID n (tx_db tx) (tx_db tx')"
  using assms
  apply (simp add: transfer_body_def attempt_Inr store_Inr split: prod.splits if_splits)
  apply (elim conjE exE)
  apply (erule insert_transactions_Inr, erule insert_ledger_Inr, erule insert_ledger_Inr)
  apply (rule exI, rule transfer_effectI [where i = "uuid_New E (tx_tick tx + 6)"
        and j = "uuid_New E (tx_tick tx + 7)" and now = "tx_now tx"])
  apply (simp_all add: active_account_def append_txn_def transfer_txn_row_def debit_row_def credit_row_def eval_nat_numeral)
  done


lemmas transfer_row_defs = transfer_txn_row_def debit_row_def credit_row_def

text \<open>A transfer is a proper posting of a debit and a credit.\<close>

lemma transfer_effect_posting:
  assumes "transfer_effect E req txnID n d d'"
  obtains t x y where "d' = append_txn t [x, y] d" and "posting_ok d t [x, y]" and "double_entry t [x, y]"
    and "tr_id t = txnID" and "tr_from t = req_FromAccountID req" and "tr_to t = req_ToAccountID req"
    and "tr_amount t = n" and "tr_key t = req_IdempotencyKey req"
proof -
  from assms obtain now i j where
    eff: "d' = append_txn (transfer_txn_row req txnID n now)
               [debit_row req txnID i n now, credit_row (req_ToAccountID req) txnID j n now] d"
    and "active_account d (req_FromAccountID req)" and "active_account d (req_ToAccountID req)"
    and "0 < n" "n < 10 ^ 18" "req_FromAccountID req \<noteq> req_ToAccountID req"
    and "txnID \<notin> tr_id ` set (transactions d)" "req_IdempotencyKey req \<notin> tr_key ` set (transactions d)"
    and "i \<notin> lr_id ` set (ledger d)" "j \<notin> lr_id ` set (ledger d)" "j \<noteq> i"
    by (auto simp: transfer_effect_def)
  moreover from this have "posting_ok d (transfer_txn_row req txnID n now)
      [debit_row req txnID i n now, credit_row (req_ToAccountID req) txnID j n now]"
    by (simp add: posting_ok_def entry_defs transfer_row_defs active_account_exists)
  ultimately show ?thesis
    by (intro that [OF eff]) (simp_all add: entry_defs transfer_row_defs)
qed

lemma transfer_effect_amount:
  "transfer_effect E req txnID n d d' \<Longrightarrow> numeric_18_4 (req_Amount req) = Some n \<and> 0 < n \<and> n < 10 ^ 18"
  by (auto simp: transfer_effect_def)

lemma transfer_effect_fresh_key:
  "transfer_effect E req txnID n d d' \<Longrightarrow> req_IdempotencyKey req \<notin> tr_key ` set (transactions d)"
  by (auto simp: transfer_effect_def)

text \<open>The sender covers the amount that is booked, although the check is on the exact amount.\<close>

lemma transfer_effect_covered:
  assumes "transfer_effect E req txnID n d d'" and "decimal_spec E"
  shows "n \<le> balance_of (ledger d) (req_FromAccountID req)"
proof (rule numeric_le_balance)
  show "req_Amount req \<le> decimal_of_numeric (balance_of (ledger d) (req_FromAccountID req))"
    using assms by (auto simp: transfer_effect_def decimal_spec_def not_less)
  show "numeric_18_4 (req_Amount req) = Some n"
    using assms(1) by (auto simp: transfer_effect_def)
qed

lemma transfer_effect_balance:
  assumes "transfer_effect E req txnID n d d'"
  shows "balance_of (ledger d') =
    (balance_of (ledger d))(req_FromAccountID req := balance_of (ledger d) (req_FromAccountID req) - n,
                            req_ToAccountID req := balance_of (ledger d) (req_ToAccountID req) + n)"
  using assms
  by (rule transfer_effect_posting)
    (auto simp: fun_eq_iff balance_of_Cons entry_defs signed_amount_def posting_ok_def)

lemma transfer_effect_bank_ok:
  assumes "transfer_effect E req txnID n d d'" and "decimal_spec E" and "bank_ok d"
  shows "bank_ok d'"
  using assms(1) transfer_effect_covered [OF assms(1,2)] assms(3)
  by (elim transfer_effect_posting) (simp add: append_txn_bank_ok entered_def)

text \<open>What it adds to the transactions has its debit and its credit.\<close>

lemma transfer_effect_entries:
  assumes "transfer_effect E req txnID n d d'" and "schema_ok d"
  shows "\<exists>t. transactions d' = transactions d @ [t] \<and> double_entry t (entries_of d' t)"
  using assms by (elim transfer_effect_posting) (auto simp: append_txn_entries)

lemma transfer_effect_total:
  assumes "transfer_effect E req txnID n d d'" and "schema_ok d"
  shows "total_balance d' = total_balance d"
  using assms by (elim transfer_effect_posting) (simp add: append_txn_total)

section \<open>The method as a whole\<close>

lemma transfer_claim_db [simp]: "w_db (snd (transfer_claim E req w)) = w_db w"
  by (auto simp: transfer_claim_def split: prod.splits sum.splits)

lemma transfer_claim_Inr:
  "transfer_claim E req w = (Inr key, w') \<longleftrightarrow>
     req_FromAccountID req \<noteq> req_ToAccountID req \<and> dec_IsPositive E (req_Amount req) \<and> key = idempKey E req \<and>
     (\<exists>r. rdb_SetNX E (w_tick w) (idempKey E req) ''processing'' idempotencyTTL (w_redis w) = (Inr True, r) \<and>
          w' = w\<lparr>w_redis := r, w_tick := Suc (w_tick w)\<rparr>)"
  by (auto simp: transfer_claim_def split: prod.splits sum.splits if_splits)

lemma transfer_finish_db [simp]: "w_db (snd (transfer_finish E key r w)) = w_db w"
  by (simp add: transfer_finish_def rollback_key_def split: sum.splits)

lemma transfer_finish_Inr:
  "transfer_finish E key r w = (Inr res, w') \<longleftrightarrow>
     r = Inr (res_TransactionID res) \<and> res_Status res = TxnStatusCompleted \<and>
     res_Message res = ''Transfer completed successfully'' \<and>
     w' = w\<lparr>w_redis := snd (rdb_Set E (w_tick w) key (uuid_String E (res_TransactionID res)) idempotencyTTL (w_redis w)),
            w_tick := Suc (w_tick w)\<rparr>"
  by (cases res) (auto simp: transfer_finish_def rollback_key_def split: sum.splits)

lemma transfer_finish_Inl:
  "transfer_finish E key r w = (Inl e, w') \<longleftrightarrow>
     r = Inl e \<and> w' = w\<lparr>w_redis := snd (rdb_Del E (w_tick w) key (w_redis w)), w_tick := Suc (w_tick w)\<rparr>"
  by (auto simp: transfer_finish_def rollback_key_def split: sum.splits)

lemma transfer_execute_Inr:
  assumes "transfer_execute E req w = (Inr txnID, w')"
  shows "txnID = uuid_New E (w_tick w) \<and> w_redis w' = w_redis w \<and>
     (\<exists>n. transfer_effect E req txnID n (w_db w) (w_db w'))"
  using assms
  by (auto simp: transfer_execute_def Let_def attempt_Inr WithTx_Inr dest!: transfer_body_Inr)

lemma transfer_execute_redis [simp]: "w_redis (snd (transfer_execute E req w)) = w_redis w"
  by (auto simp: transfer_execute_def Let_def attempt_def ok_def split: prod.splits sum.splits
      dest!: WithTx_redis_run)

lemma transfer_execute_Inl:
  assumes "transfer_execute E req w = (Inl e, w')"
  shows "w_db w' = w_db w \<or>
     (\<exists>s n. e = Wrapf ''commit tx: '' (Driver s) \<and>
            transfer_effect E req (uuid_New E (w_tick w)) n (w_db w) (w_db w'))"
  using assms
  by (auto simp: transfer_execute_def Let_def attempt_Inl dest!: WithTx_Inl transfer_body_Inr)

lemma TransferFunds_cases:
  obtains (rejected) e w1 where "transfer_claim E req w = (Inl e, w1)" and "TransferFunds E req w = (Inl e, w1)"
  | (ran) w1 result w2 where "transfer_claim E req w = (Inr (idempKey E req), w1)" and "w_db w1 = w_db w"
      and "transfer_execute E req w1 = (result, w2)"
      and "TransferFunds E req w = transfer_finish E (idempKey E req) result w2"
proof -
  obtain c w1 where claim: "transfer_claim E req w = (c, w1)" by fastforce
  then have db: "w_db w1 = w_db w" using transfer_claim_db by (metis snd_conv)
  obtain result w2 where exec: "transfer_execute E req w1 = (result, w2)" by fastforce
  show ?thesis
  proof (cases c)
    case (Inl e)
    with claim show ?thesis by (intro rejected) (simp_all add: TransferFunds_def attempt_stop)
  next
    case (Inr key)
    with claim have "key = idempKey E req" by (simp add: transfer_claim_Inr)
    with Inr claim db exec show ?thesis by (intro ran) (simp_all add: TransferFunds_def attempt_run)
  qed
qed

lemma TransferFunds_Inr:
  assumes "TransferFunds E req w = (Inr res, w')"
  shows "\<exists>n. transfer_effect E req (res_TransactionID res) n (w_db w) (w_db w')"
proof (rule TransferFunds_cases [of E req w])
  fix w1 result w2
  assume "w_db w1 = w_db w" and "transfer_execute E req w1 = (result, w2)"
    and "TransferFunds E req w = transfer_finish E (idempKey E req) result w2"
  with assms show ?thesis by (auto simp: transfer_finish_Inr dest!: transfer_execute_Inr)
qed (use assms in simp)

lemma TransferFunds_Inl:
  assumes "TransferFunds E req w = (Inl e, w')"
  shows "w_db w' = w_db w \<or>
     (\<exists>s txnID n. e = Wrapf ''commit tx: '' (Driver s) \<and> transfer_effect E req txnID n (w_db w) (w_db w'))"
proof (rule TransferFunds_cases [of E req w])
  fix e' w1 assume "transfer_claim E req w = (Inl e', w1)" and "TransferFunds E req w = (Inl e', w1)"
  with assms show ?thesis using transfer_claim_db [of E req w] by simp
next
  fix w1 result w2
  assume "w_db w1 = w_db w" and "transfer_execute E req w1 = (result, w2)"
    and "TransferFunds E req w = transfer_finish E (idempKey E req) result w2"
  with assms show ?thesis by (fastforce simp: transfer_finish_Inl dest!: transfer_execute_Inl)
qed

text \<open>Whatever the outcome, the database is as before or has exactly one transfer more.\<close>

lemma TransferFunds_db:
  "w_db (snd (TransferFunds E req w)) = w_db w \<or>
   (\<exists>txnID n. transfer_effect E req txnID n (w_db w) (w_db (snd (TransferFunds E req w))))"
proof -
  obtain r w' where run: "TransferFunds E req w = (r, w')" by fastforce
  then show ?thesis
    by (cases r) (auto dest!: TransferFunds_Inl TransferFunds_Inr)
qed

end
