(* ===== verification/Transfer_Props.thy ===== *)
theory Transfer_Props
  imports Transfer_Service
begin

text \<open>
  What the transfer service promises: money is moved exactly and atomically, no account is
  overdrawn, the total is conserved, an idempotency key is used at most once, a failed
  request releases its key, and the verdict on a request is that of a short reference
  function. The last section refines an abstract bank.
\<close>

section \<open>Sample requests\<close>

definition sample_req :: TransferRequest where
  "sample_req = \<lparr>req_FromAccountID = 11, req_ToAccountID = 21, req_Amount = 5 / 2, req_IdempotencyKey = 77\<rparr>"

definition sample_res :: TransferResponse where
  "sample_res = \<lparr>res_TransactionID = 1001, res_Status = TxnStatusCompleted,
     res_Message = ''Transfer completed successfully''\<rparr>"

definition sample_after :: "sample_redis world" where
  "sample_after = snd (TransferFunds sample_env sample_req sample_world)"

lemma sample_transfer: "TransferFunds sample_env sample_req sample_world = (Inr sample_res, sample_after)"
proof (rule prod_eqI)
  show "fst (TransferFunds sample_env sample_req sample_world) = fst (Inr sample_res, sample_after)"
    by code_simp
qed (simp add: sample_after_def)

text \<open>A request for more than the balance, which fails.\<close>

definition sample_req_big :: TransferRequest where
  "sample_req_big = sample_req\<lparr>req_Amount := 1000\<rparr>"

lemma sample_transfer_big:
  "TransferFunds sample_env sample_req_big sample_world =
     (Inl (Sentinel ErrInsufficientFunds), snd (TransferFunds sample_env sample_req_big sample_world))"
proof (rule prod_eqI)
  show "fst (TransferFunds sample_env sample_req_big sample_world) =
    fst (Inl (Sentinel ErrInsufficientFunds), snd (TransferFunds sample_env sample_req_big sample_world))"
    by code_simp
qed simp

section \<open>Effect and atomicity\<close>

text \<open>
  Property C1. A transfer that reports success has appended exactly one completed
  transaction with one debit of the sender and one credit of the receiver, both of the
  requested amount rounded to four digits, and has changed no other balance; the sender
  covered the amount.
\<close>

theorem transfer_moves_money:
  assumes "decimal_spec E" and "TransferFunds E req w = (Inr res, w')"
  shows "\<exists>n t x y. numeric_18_4 (req_Amount req) = Some n \<and> 0 < n \<and>
     n \<le> balance_of (ledger (w_db w)) (req_FromAccountID req) \<and>
     w_db w' = append_txn t [x, y] (w_db w) \<and> double_entry t [x, y] \<and>
     tr_id t = res_TransactionID res \<and> tr_from t = req_FromAccountID req \<and> tr_to t = req_ToAccountID req \<and>
     tr_amount t = n \<and> tr_status t = TxnStatusCompleted \<and> tr_key t = req_IdempotencyKey req \<and>
     balance_of (ledger (w_db w')) = (balance_of (ledger (w_db w)))
       (req_FromAccountID req := balance_of (ledger (w_db w)) (req_FromAccountID req) - n,
        req_ToAccountID req := balance_of (ledger (w_db w)) (req_ToAccountID req) + n)"
proof -
  from TransferFunds_Inr [OF assms(2)] obtain n where
    eff: "transfer_effect E req (res_TransactionID res) n (w_db w) (w_db w')" by blast
  then obtain t x y where "w_db w' = append_txn t [x, y] (w_db w)" "posting_ok (w_db w) t [x, y]"
    "double_entry t [x, y]" "tr_id t = res_TransactionID res" "tr_from t = req_FromAccountID req"
    "tr_to t = req_ToAccountID req" "tr_amount t = n" "tr_key t = req_IdempotencyKey req"
    by (rule transfer_effect_posting)
  moreover from this have "tr_status t = TxnStatusCompleted" by (simp add: posting_ok_def)
  ultimately show ?thesis
    using transfer_effect_amount [OF eff] transfer_effect_covered [OF eff assms(1)] transfer_effect_balance [OF eff]
    by blast
qed

theorem transfer_moves_money_witness:
  "decimal_spec sample_env \<and> TransferFunds sample_env sample_req sample_world = (Inr sample_res, sample_after) \<and>
   (\<exists>n t x y. numeric_18_4 (req_Amount sample_req) = Some n \<and> 0 < n \<and>
      w_db sample_after = append_txn t [x, y] sample_db \<and> double_entry t [x, y])"
  using transfer_moves_money [OF sample_decimal sample_transfer] sample_decimal sample_transfer
  by (auto simp: sample_world_def)

text \<open>
  Property C2. A transfer that reports an error has changed nothing in the database,
  unless the error is the commit's: then the acknowledgement may have been lost after the
  commit, and the database holds the one complete transfer.
\<close>

theorem transfer_error_atomic:
  assumes "TransferFunds E req w = (Inl e, w')"
  shows "w_db w' = w_db w \<or>
     (\<exists>s txnID n. e = Wrapf ''commit tx: '' (Driver s) \<and> transfer_effect E req txnID n (w_db w) (w_db w'))"
  using assms by (rule TransferFunds_Inl)

theorem transfer_error_atomic_witness:
  "fst (TransferFunds sample_env sample_req_big sample_world) = Inl (Sentinel ErrInsufficientFunds) \<and>
   w_db (snd (TransferFunds sample_env sample_req_big sample_world)) = sample_db"
  using transfer_error_atomic [OF sample_transfer_big] sample_transfer_big
  by (metis fst_conv goerr.distinct(1) sample_world_def world.select_convs(1))

text \<open>
  Property C3. Every transfer, successful or not, keeps the invariant of the bank: the
  schema's constraints; every committed transaction completed and booked, with a debit and
  a credit unless its sender is an account of a system user that may mint; and no
  account with a negative balance. What a transfer itself adds to the transactions, whoever
  sends, has in the ledger exactly a debit of the sender and a credit of the receiver.
\<close>

theorem transfer_keeps_bank_ok:
  assumes "decimal_spec E" and "bank_ok (w_db w)"
  shows "let d' = w_db (snd (TransferFunds E req w)) in
    bank_ok d' \<and> (\<forall>t \<in> set (transactions d') - set (transactions (w_db w)). double_entry t (entries_of d' t))"
proof -
  have schema: "schema_ok (w_db w)" using assms(2) by (simp add: bank_ok_def)
  from TransferFunds_db [of E req w] show ?thesis
  proof
    assume "\<exists>txnID n. transfer_effect E req txnID n (w_db w) (w_db (snd (TransferFunds E req w)))"
    then obtain txnID n where eff: "transfer_effect E req txnID n (w_db w) (w_db (snd (TransferFunds E req w)))" by blast
    from transfer_effect_bank_ok [OF eff assms] transfer_effect_entries [OF eff schema] show ?thesis
      by (auto simp: Let_def)
  qed (use assms(2) in \<open>simp add: Let_def\<close>)
qed

theorem transfer_keeps_bank_ok_witness:
  "decimal_spec sample_env \<and> bank_ok (w_db sample_world) \<and> bank_ok (w_db sample_after) \<and>
   list_all (\<lambda>t. double_entry t (entries_of (w_db sample_after) t))
     (filter (\<lambda>t. t \<notin> set (transactions sample_db)) (transactions (w_db sample_after)))"
  using transfer_keeps_bank_ok [OF sample_decimal, of sample_world sample_req] sample_decimal sample_bank_ok
  by (simp add: sample_world_def sample_after_def Let_def list_all_iff)

text \<open>
  Property C4. A transfer neither creates nor destroys money: whatever its outcome, the
  sum of all account balances is unchanged.
\<close>

theorem transfer_conserves_money:
  assumes "schema_ok (w_db w)"
  shows "total_balance (w_db (snd (TransferFunds E req w))) = total_balance (w_db w)"
  using TransferFunds_db [of E req w] assms transfer_effect_total by metis

theorem transfer_conserves_money_witness:
  "schema_ok (w_db sample_world) \<and> total_balance (w_db sample_after) = total_balance sample_db"
  using transfer_conserves_money [of sample_world sample_env sample_req] sample_bank_ok
  by (simp add: sample_world_def sample_after_def bank_ok_def)

section \<open>Idempotency\<close>

text \<open>
  Property C5. Exactly-once at the database: once a transaction with an idempotency key is
  committed, no request with that key succeeds or changes the database, whatever Redis
  answers and whatever the other fields say.
\<close>

theorem transfer_key_used_once:
  assumes "req_IdempotencyKey req \<in> tr_key ` set (transactions (w_db w))"
  shows "(\<exists>e. fst (TransferFunds E req w) = Inl e) \<and> w_db (snd (TransferFunds E req w)) = w_db w"
proof -
  have none: "\<not> transfer_effect E req txnID n (w_db w) d" for txnID n d
    using assms transfer_effect_fresh_key by blast
  obtain r w' where run: "TransferFunds E req w = (r, w')" by fastforce
  then have "\<exists>e. r = Inl e"
    using TransferFunds_Inr none by (cases r) blast+
  with run none TransferFunds_db [of E req w] show ?thesis by auto
qed

theorem transfer_key_used_once_witness:
  "req_IdempotencyKey sample_req \<in> tr_key ` set (transactions (w_db sample_after)) \<and>
   w_db (snd (TransferFunds sample_env sample_req sample_after)) = w_db sample_after"
proof -
  have used: "req_IdempotencyKey sample_req \<in> tr_key ` set (transactions (w_db sample_after))"
    by code_simp
  show ?thesis using used transfer_key_used_once [OF used, of sample_env] by blast
qed

text \<open>
  Property C6. Replay protection in Redis: while the key of a request is live, a request
  with that key is answered with \<open>ErrDuplicateTransaction\<close> and reaches neither the
  database nor the key, provided Redis answers.
\<close>

theorem transfer_replay_rejected:
  assumes "redis_kv_spec E kv" and "kv (w_redis w) (w_tick w) (idempKey E req) \<noteq> None"
    and "req_FromAccountID req \<noteq> req_ToAccountID req" and "dec_IsPositive E (req_Amount req)"
    and "rdb_SetNX E (w_tick w) (idempKey E req) ''processing'' idempotencyTTL (w_redis w) = (Inr b, r)"
  shows "TransferFunds E req w = (Inl (Sentinel ErrDuplicateTransaction), w\<lparr>w_redis := r, w_tick := Suc (w_tick w)\<rparr>) \<and>
     kv r (w_tick w) = kv (w_redis w) (w_tick w)"
proof -
  have b: "b = (kv (w_redis w) (w_tick w) (idempKey E req) = None)"
    and kv: "kv r (w_tick w) = (if b then (kv (w_redis w) (w_tick w))(idempKey E req \<mapsto> ''processing'')
                            else kv (w_redis w) (w_tick w))"
    using redis_SetNX_D [OF assms(1,5)] by simp_all
  from b assms(2) have "b = False" by simp
  with kv assms(3-5) show ?thesis
    by (simp add: TransferFunds_def attempt_def transfer_claim_def)
qed

theorem transfer_replay_rejected_witness:
  "sr_kv (w_redis sample_after) (w_tick sample_after) (idempKey sample_env sample_req) \<noteq> None \<and>
   fst (TransferFunds sample_env sample_req sample_after) = Inl (Sentinel ErrDuplicateTransaction)"
proof -
  have live: "sr_kv (w_redis sample_after) (w_tick sample_after) (idempKey sample_env sample_req) \<noteq> None"
    by code_simp
  have "req_FromAccountID sample_req \<noteq> req_ToAccountID sample_req" and "dec_IsPositive sample_env (req_Amount sample_req)"
    by code_simp+
  moreover have "rdb_SetNX sample_env (w_tick sample_after) (idempKey sample_env sample_req) ''processing''
      idempotencyTTL (w_redis sample_after) = (Inr False, w_redis sample_after)"
    using live by (simp add: sample_env_def sr_kv_def)
  ultimately show ?thesis
    using transfer_replay_rejected [OF sample_redis_kv live] live by simp
qed

text \<open>
  Property C7. After a transfer that claimed its key and failed, the key is free again, so
  the client can retry, provided the deletion is acknowledged; after one that succeeded the
  key is taken, provided the write is.
\<close>

theorem transfer_key_after:
  assumes "redis_kv_spec E kv" and "transfer_claim E req w = (Inr key, w1)"
    and "\<And>n k r. fst (rdb_Del E n k r) = None" and "\<And>n k v ttl r. fst (rdb_Set E n k v ttl r) = None"
    and "TransferFunds E req w = (r, w')"
  shows "\<exists>n. w_tick w' = Suc n \<and>
     kv (w_redis w') n key = (case r of Inl e \<Rightarrow> None | Inr res \<Rightarrow> Some (uuid_String E (res_TransactionID res)))"
proof -
  have del: "kv (snd (rdb_Del E n k s)) n k = None" for n k s
    using redis_Del_D [OF assms(1), of n k s] assms(3) [of n k s] by (simp add: prod_eq_iff)
  have put: "kv (snd (rdb_Set E n k v ttl s)) n k = Some v" for n k v ttl s
    using redis_Set_D [OF assms(1), of n k v ttl s] assms(4) [of n k v ttl s] by (simp add: prod_eq_iff)
  obtain result w2 where "transfer_execute E req w1 = (result, w2)" by fastforce
  with assms(2,5) have fin: "transfer_finish E key result w2 = (r, w')"
    by (simp add: TransferFunds_def attempt_run)
  then show ?thesis
    by (cases r) (auto simp: transfer_finish_Inl transfer_finish_Inr del put)
qed

theorem transfer_key_after_witness:
  "\<exists>n. w_tick (snd (TransferFunds sample_env sample_req_big sample_world)) = Suc n \<and>
     sr_kv (w_redis (snd (TransferFunds sample_env sample_req_big sample_world))) n (idempKey sample_env sample_req_big) = None"
proof -
  obtain w1 where "transfer_claim sample_env sample_req_big sample_world = (Inr (idempKey sample_env sample_req_big), w1)"
    by (rule TransferFunds_cases [of sample_env sample_req_big sample_world])
      (use sample_transfer_big in \<open>auto simp: transfer_claim_def split: if_splits prod.splits sum.splits\<close>)
  from transfer_key_after [OF sample_redis_kv this _ _ sample_transfer_big] show ?thesis
    by (simp add: sample_env_def)
qed

section \<open>The verdict on a request\<close>

definition transfer_verdict :: "db \<Rightarrow> TransferRequest \<Rightarrow> goerr option" where
  "transfer_verdict d req =
     (case (lookup_account d (req_FromAccountID req), lookup_account d (req_ToAccountID req)) of
        (Some fromAcct, Some toAcct) \<Rightarrow>
          if a_Status fromAcct \<noteq> AccountStatusActive then Some (Wrapf ''sender '' (Sentinel ErrAccountNotActive))
          else if a_Status toAcct \<noteq> AccountStatusActive then Some (Wrapf ''receiver '' (Sentinel ErrAccountNotActive))
          else if decimal_of_numeric (balance_of (ledger d) (req_FromAccountID req)) < req_Amount req
            then Some (Sentinel ErrInsufficientFunds)
          else (case numeric_18_4 (req_Amount req) of
              None \<Rightarrow> Some (Wrapf ''create transaction: '' (PqError (NumericOverflow ''transactions.amount'')))
            | Some n \<Rightarrow>
                if \<not> 0 < n
                  then Some (Wrapf ''create transaction: '' (PqError (CheckViolation ''transactions_amount_check'')))
                else if req_IdempotencyKey req \<in> tr_key ` set (transactions d)
                  then Some (Wrapf ''create transaction: ''
                         (PqError (UniqueViolation ''transactions_idempotency_key_key'')))
                else None)
      | _ \<Rightarrow> Some (Sentinel ErrAccountNotFound))"

lemma transfer_body_verdict:
  assumes "pg_reliable E" and "decimal_spec E" and "fresh_ids E (tx_tick tx) 8 (tx_db tx)"
    and "req_FromAccountID req \<noteq> req_ToAccountID req" and "txnID \<notin> tr_id ` set (transactions (tx_db tx))"
  shows "fst (transfer_body E req txnID tx) =
    (case transfer_verdict (tx_db tx) req of None \<Rightarrow> Inr () | Some e \<Rightarrow> Inl e)"
proof (cases "lookup_account (tx_db tx) (req_FromAccountID req)";
    cases "lookup_account (tx_db tx) (req_ToAccountID req)")
  fix a b
  let ?i = "uuid_New E (Suc (Suc (Suc (Suc (Suc (Suc (tx_tick tx)))))))"
    and ?j = "uuid_New E (Suc (Suc (Suc (Suc (Suc (Suc (Suc (tx_tick tx))))))))"
  have ids: "?i \<notin> lr_id ` set (ledger (tx_db tx))" "?j \<notin> lr_id ` set (ledger (tx_db tx))" "?j \<noteq> ?i"
    using fresh_idsD(2) [OF assms(3), of "tx_tick tx + 6"] fresh_idsD(2) [OF assms(3), of "tx_tick tx + 7"]
      fresh_idsD(3) [OF assms(3), of "tx_tick tx + 7" "tx_tick tx + 6"] by (simp_all add: eval_nat_numeral)
  assume acc: "lookup_account (tx_db tx) (req_FromAccountID req) = Some a"
    "lookup_account (tx_db tx) (req_ToAccountID req) = Some b"
  show ?thesis
    using acc acc [THEN lookup_account_exists] assms(1,4,5) assms(2) [unfolded decimal_spec_def] ids
    by (auto simp: transfer_body_def transfer_verdict_def lock_order_def reliable_simps stmt_defs split: option.splits)
qed (use assms(1) in \<open>auto simp: transfer_body_def transfer_verdict_def lock_order_def reliable_simps\<close>)

lemma transfer_verdict_run:
  assumes "pg_reliable E" and "decimal_spec E" and "fresh_ids E (w_tick w) 16 (w_db w)"
    and "transfer_claim E req w = (Inr key, w1)"
  shows "case transfer_verdict (w_db w) req of
      Some e \<Rightarrow> fst (TransferFunds E req w) = Inl e \<and> w_db (snd (TransferFunds E req w)) = w_db w
    | None \<Rightarrow> \<exists>res. fst (TransferFunds E req w) = Inr res"
proof -
  from assms(4) have ne: "req_FromAccountID req \<noteq> req_ToAccountID req"
    and w1: "w_db w1 = w_db w" by (auto simp: transfer_claim_Inr)
  let ?id = "uuid_New E (w_tick w1)" and ?w = "w1\<lparr>w_tick := Suc (w_tick w1)\<rparr>"
  have body: "fst (transfer_body E req ?id (begin_tx E ?w)) =
      (case transfer_verdict (w_db w) req of None \<Rightarrow> Inr () | Some e \<Rightarrow> Inl e)"
    using transfer_body_verdict [OF assms(1,2), of "begin_tx E ?w" req ?id] fresh_idsD(1) [OF assms(3), of "w_tick w1"] fresh_ids_later [OF assms(3), of 3 8] assms(4) ne w1
    by (auto simp: transfer_claim_Inr eval_nat_numeral)
  obtain r tx where run: "transfer_body E req ?id (begin_tx E ?w) = (r, tx)" by fastforce
  with assms(1,4) have "TransferFunds E req w = transfer_finish E key
      (case r of Inl e \<Rightarrow> Inl e | Inr _ \<Rightarrow> Inr ?id)
      (case r of Inl e \<Rightarrow> ?w\<lparr>w_tick := Suc (tx_tick tx)\<rparr>
       | Inr _ \<Rightarrow> ?w\<lparr>w_db := tx_db tx, w_tick := Suc (tx_tick tx)\<rparr>)"
    by (simp add: TransferFunds_def attempt_run transfer_execute_def Let_def attempt_def WithTx_reliable ok_def
        split: sum.splits)
  with body run w1 show ?thesis
    by (auto simp: transfer_finish_def rollback_key_def split: option.splits)
qed

text \<open>
  Property C8. The exact verdict: when every statement is acknowledged, the identifiers
  drawn are unused and the key could be claimed, a well-formed request is answered exactly
  as \<open>transfer_verdict\<close> says, the errors in the order of the code's checks; it
  succeeds if and only if there is no objection.
\<close>

theorem transfer_verdict_exact:
  assumes "pg_reliable E" and "decimal_spec E" and "fresh_ids E (w_tick w) 16 (w_db w)"
    and "transfer_claim E req w = (Inr key, w1)"
  shows "case transfer_verdict (w_db w) req of
      Some e \<Rightarrow> fst (TransferFunds E req w) = Inl e \<and> w_db (snd (TransferFunds E req w)) = w_db w
    | None \<Rightarrow> \<exists>res. fst (TransferFunds E req w) = Inr res"
  using assms by (rule transfer_verdict_run)

theorem transfer_verdict_exact_witness:
  "transfer_verdict sample_db sample_req_big = Some (Sentinel ErrInsufficientFunds) \<and>
   fst (TransferFunds sample_env sample_req_big sample_world) = Inl (Sentinel ErrInsufficientFunds) \<and>
   transfer_verdict sample_db sample_req = None \<and>
   (\<exists>res. fst (TransferFunds sample_env sample_req sample_world) = Inr res)"
proof -
  have v: "transfer_verdict sample_db sample_req_big = Some (Sentinel ErrInsufficientFunds)"
    "transfer_verdict sample_db sample_req = None" by code_simp+
  have fresh: "fresh_ids sample_env (w_tick sample_world) 16 (w_db sample_world)"
    by (rule sample_fresh) (simp_all add: sample_world_def sample_db_defs)
  have claim: "\<exists>k. transfer_claim sample_env req sample_world =
      (Inr k, sample_world\<lparr>w_redis := \<lparr>sr_keys = [(k, ''processing'')], sr_sets = []\<rparr>, w_tick := 1\<rparr>)"
    if "req_FromAccountID req \<noteq> req_ToAccountID req" "0 < req_Amount req" for req
    using that by (auto simp: transfer_claim_Inr sample_env_def sample_world_def)
  obtain k1 where c1: "transfer_claim sample_env sample_req_big sample_world =
      (Inr k1, sample_world\<lparr>w_redis := \<lparr>sr_keys = [(k1, ''processing'')], sr_sets = []\<rparr>, w_tick := 1\<rparr>)"
    using claim [of sample_req_big] by (auto simp: sample_req_big_def sample_req_def)
  obtain k2 where c2: "transfer_claim sample_env sample_req sample_world =
      (Inr k2, sample_world\<lparr>w_redis := \<lparr>sr_keys = [(k2, ''processing'')], sr_sets = []\<rparr>, w_tick := 1\<rparr>)"
    using claim [of sample_req] by (auto simp: sample_req_def)
  show ?thesis
    using transfer_verdict_exact [OF sample_reliable sample_decimal fresh c1]
      transfer_verdict_exact [OF sample_reliable sample_decimal fresh c2] v
    by (simp add: sample_world_def)
qed

section \<open>Refinement of an abstract bank\<close>

text \<open>
  The contract a client sees: a bank is a balance for each account, which accounts are
  active, and which idempotency keys are spent. A transfer is defined or it is not.
\<close>

record bank =
  bk_balance :: "uuid \<rightharpoonup> int"
  bk_active :: "uuid \<Rightarrow> bool"
  bk_spent :: "uuid set"

definition bank_transfer :: "uuid \<Rightarrow> uuid \<Rightarrow> int \<Rightarrow> uuid \<Rightarrow> bank \<Rightarrow> bank option" where
  "bank_transfer a b n k B =
     (case (bk_balance B a, bk_balance B b) of
        (Some x, Some y) \<Rightarrow>
          if a \<noteq> b \<and> bk_active B a \<and> bk_active B b \<and> 0 < n \<and> n \<le> x \<and> k \<notin> bk_spent B
          then Some (B\<lparr>bk_balance := (bk_balance B)(a \<mapsto> x - n, b \<mapsto> y + n), bk_spent := insert k (bk_spent B)\<rparr>)
          else None
      | _ \<Rightarrow> None)"

definition abs_bank :: "db \<Rightarrow> bank" where
  "abs_bank d =
     \<lparr>bk_balance = (\<lambda>a. if a \<in> a_ID ` set (accounts d) then Some (balance_of (ledger d) a) else None),
      bk_active = active_account d,
      bk_spent = tr_key ` set (transactions d)\<rparr>"

lemma active_account_append [simp]: "active_account (append_txn t es d) = active_account d"
  by (simp add: active_account_def lookup_account_def fun_eq_iff)

lemma transfer_effect_abs:
  assumes "transfer_effect E req txnID n d d'" and "decimal_spec E"
  shows "bank_transfer (req_FromAccountID req) (req_ToAccountID req) n (req_IdempotencyKey req) (abs_bank d) =
    Some (abs_bank d')"
proof -
  obtain t x y where eff: "d' = append_txn t [x, y] d" "posting_ok d t [x, y]"
    "tr_from t = req_FromAccountID req" "tr_to t = req_ToAccountID req" "tr_key t = req_IdempotencyKey req"
    by (rule transfer_effect_posting [OF assms(1)])
  have acc: "req_FromAccountID req \<in> a_ID ` set (accounts d)" "req_ToAccountID req \<in> a_ID ` set (accounts d)"
    "req_FromAccountID req \<noteq> req_ToAccountID req"
    using eff by (auto simp: posting_ok_def)
  have act: "active_account d (req_FromAccountID req)" "active_account d (req_ToAccountID req)"
    using assms(1) by (auto simp: transfer_effect_def)
  have "bk_balance (abs_bank d') = (bk_balance (abs_bank d))
      (req_FromAccountID req \<mapsto> balance_of (ledger d) (req_FromAccountID req) - n,
       req_ToAccountID req \<mapsto> balance_of (ledger d) (req_ToAccountID req) + n)"
    using acc eff(1) transfer_effect_balance [OF assms(1)] by (auto simp: abs_bank_def fun_eq_iff)
  moreover have "bk_spent (abs_bank d') = insert (req_IdempotencyKey req) (bk_spent (abs_bank d))"
    and "bk_active (abs_bank d') = bk_active (abs_bank d)"
    using eff by (simp_all add: abs_bank_def)
  ultimately show ?thesis
    using acc act transfer_effect_amount [OF assms(1)] transfer_effect_covered [OF assms]
      transfer_effect_fresh_key [OF assms(1)]
    by (simp add: bank_transfer_def abs_bank_def)
qed

text \<open>
  Property C9. Refinement: each call of \<open>TransferFunds\<close> is either a step of the
  abstract bank (a transfer of the rounded amount, reported as success or as a commit
  error) or leaves the abstract bank as it is (and is then reported as an error).
\<close>

theorem transfer_refines_bank:
  assumes "decimal_spec E"
  shows "let (r, w') = TransferFunds E req w in
    (\<exists>n. numeric_18_4 (req_Amount req) = Some n \<and>
       bank_transfer (req_FromAccountID req) (req_ToAccountID req) n (req_IdempotencyKey req) (abs_bank (w_db w)) =
         Some (abs_bank (w_db w')) \<and> (\<forall>e. r = Inl e \<longrightarrow> (\<exists>s. e = Wrapf ''commit tx: '' (Driver s)))) \<or>
    (abs_bank (w_db w') = abs_bank (w_db w) \<and> (\<exists>e. r = Inl e))"
proof -
  obtain r w' where run: "TransferFunds E req w = (r, w')" by fastforce
  show ?thesis
  proof (cases r)
    case (Inl e)
    with run have "TransferFunds E req w = (Inl e, w')" by simp
    from TransferFunds_Inl [OF this] show ?thesis
      using run Inl transfer_effect_abs [OF _ assms] transfer_effect_amount by fastforce
  next
    case (Inr res)
    with run have "TransferFunds E req w = (Inr res, w')" by simp
    from TransferFunds_Inr [OF this] show ?thesis
      using run Inr transfer_effect_abs [OF _ assms] transfer_effect_amount by fastforce
  qed
qed

theorem transfer_refines_bank_witness:
  "decimal_spec sample_env \<and>
   (\<exists>n. numeric_18_4 (req_Amount sample_req) = Some n \<and>
      bank_transfer 11 21 n 77 (abs_bank sample_db) = Some (abs_bank (w_db sample_after)))"
  using transfer_refines_bank [OF sample_decimal, of sample_req sample_world] sample_decimal
  unfolding sample_transfer by (simp add: sample_world_def) (simp add: sample_req_def)

end
