(* ===== verification/Funding_Service.thy ===== *)
theory Funding_Service
  imports Sample_Env
begin

text \<open>
  internal/service/funding.go: minting money into an account. The transaction names the
  system user's account as its sender, but only the receiver's credit is entered in the
  ledger. There is no idempotency key of the client's: one is drawn.
\<close>

definition fund_body :: "'r env \<Rightarrow> FundRequest \<Rightarrow> uuid \<Rightarrow> Account \<Rightarrow> (pgtx, unit) goio" where
  "fund_body E req txnID systemAcct =
     attempt (GetAccountForUpdate E (fund_ToAccountID req)) (\<lambda>targetAcct.
     if a_Status targetAcct \<noteq> AccountStatusActive
       then fail (Wrapf ''target '' (Sentinel ErrAccountNotActive))
     else
     attempt (tx_new_uuid E) (\<lambda>key.
     attempt (CreateTransaction E
       \<lparr>t_ID = txnID, t_FromAccountID = a_ID systemAcct, t_ToAccountID = fund_ToAccountID req,
        t_Amount = fund_Amount req, t_Status = TxnStatusPending, t_IdempotencyKey = key,
        t_CreatedAt = time_Zero, t_UpdatedAt = time_Zero\<rparr>) (\<lambda>_.
     attempt (tx_new_uuid E) (\<lambda>creditID.
     attempt (wrapf ''credit ledger: '' (InsertLedgerEntry E
       \<lparr>l_ID = creditID, l_AccountID = fund_ToAccountID req, l_TransactionID = txnID,
        l_Amount = fund_Amount req, l_EntryType = EntryTypeCredit, l_CreatedAt = time_Zero\<rparr>)) (\<lambda>_.
     UpdateTransactionStatus E txnID TxnStatusCompleted)))))"

definition FundAccount :: "'r env \<Rightarrow> FundRequest \<Rightarrow> uuid \<Rightarrow> ('r world, FundResponse) goio" where
  "FundAccount E req systemUserID w =
     (if \<not> dec_IsPositive E (fund_Amount req) then (Inl (Sentinel ErrInvalidAmount), w)
      else
        (let txnID = uuid_New E (w_tick w) in
         attempt (wrapf ''system account lookup: '' (GetAccountByUserID E systemUserID)) (\<lambda>systemAcct.
         attempt (WithTx E (fund_body E req txnID systemAcct)) (\<lambda>_.
         ok \<lparr>fres_TransactionID = txnID, fres_ToAccountID = fund_ToAccountID req, fres_Amount = fund_Amount req,
             fres_Status = TxnStatusCompleted, fres_Message = ''Funds minted successfully''\<rparr>))
         (w\<lparr>w_tick := Suc (w_tick w)\<rparr>)))"

section \<open>What a committed funding has done\<close>

definition fund_effect :: "FundRequest \<Rightarrow> uuid \<Rightarrow> uuid \<Rightarrow> int \<Rightarrow> db \<Rightarrow> db \<Rightarrow> bool" where
  "fund_effect req src txnID n d d' \<longleftrightarrow>
     (\<exists>t y. d' = append_txn t [y] d \<and> posting_ok d t [y] \<and> single_entry t [y] \<and>
        tr_id t = txnID \<and> tr_from t = src \<and> tr_to t = fund_ToAccountID req \<and> tr_amount t = n \<and>
        numeric_18_4 (fund_Amount req) = Some n \<and> active_account d (fund_ToAccountID req))"

lemma fund_body_Inr:
  assumes "fund_body E req txnID sys tx = (Inr u, tx')"
  shows "\<exists>n. fund_effect req (a_ID sys) txnID n (tx_db tx) (tx_db tx')"
proof -
  let ?key = "uuid_New E (Suc (tx_tick tx))" and ?i = "uuid_New E (Suc (Suc (Suc (tx_tick tx))))"
  let ?t = "\<lambda>n. \<lparr>tr_id = txnID, tr_from = a_ID sys, tr_to = fund_ToAccountID req, tr_amount = n,
     tr_status = TxnStatusCompleted, tr_key = ?key, tr_created = tx_now tx, tr_updated = tx_now tx\<rparr>"
  let ?y = "\<lambda>n. \<lparr>lr_id = ?i, lr_account = fund_ToAccountID req, lr_txn = txnID, lr_amount = n,
     lr_type = EntryTypeCredit, lr_created = tx_now tx\<rparr>"
  have "\<exists>n. tx_db tx' = append_txn (?t n) [?y n] (tx_db tx) \<and> posting_ok (tx_db tx) (?t n) [?y n] \<and>
     numeric_18_4 (fund_Amount req) = Some n \<and> active_account (tx_db tx) (fund_ToAccountID req)"
    using assms
    apply (simp add: fund_body_def attempt_Inr store_Inr split: if_splits)
    apply (elim conjE exE)
    apply (erule insert_transactions_Inr, erule insert_ledger_Inr)
    apply (simp add: append_txn_def active_account_def posting_ok_def entry_defs)
    done
  then show ?thesis
    unfolding fund_effect_def by (force simp: entry_defs)
qed

lemma fund_effect_balance:
  "fund_effect req src txnID n d d' \<Longrightarrow>
     balance_of (ledger d') = (balance_of (ledger d))(fund_ToAccountID req := balance_of (ledger d) (fund_ToAccountID req) + n)"
  by (auto simp: fund_effect_def fun_eq_iff entry_defs signed_amount_def)

lemma fund_effect_bank_ok: "fund_effect req src txnID n d d' \<Longrightarrow> mints d src \<Longrightarrow> bank_ok d \<Longrightarrow> bank_ok d'"
  by (auto simp: fund_effect_def entered_def intro!: append_txn_bank_ok) (simp add: entry_defs)

lemma fund_effect_total:
  "fund_effect req src txnID n d d' \<Longrightarrow> schema_ok d \<Longrightarrow> total_balance d' = total_balance d + n"
  by (auto simp: fund_effect_def entry_defs append_txn_total)

section \<open>The method as a whole\<close>

text \<open>The account that \<open>GetAccountByUserID\<close> finds for the user: an active account of that user.\<close>

definition sender_account :: "'r env \<Rightarrow> uuid \<Rightarrow> 'r world \<Rightarrow> Account option" where
  "sender_account E u w =
     find (\<lambda>a. a_UserID a = u \<and> a_Status a = AccountStatusActive)
       (pg_scan_accounts E (Suc (w_tick w)) (accounts (w_db w)))"

lemma sender_accountD:
  assumes "sender_account E u w = Some sys" and "scan_spec E"
  shows "sys \<in> set (accounts (w_db w)) \<and> a_UserID sys = u \<and> a_Status sys = AccountStatusActive"
  using assms by (auto simp: sender_account_def scan_accounts_set dest!: find_SomeD)

lemma sender_account_mints:
  "sender_account E u w = Some sys \<Longrightarrow> scan_spec E \<Longrightarrow> privileged (w_db w) u \<Longrightarrow> mints (w_db w) (a_ID sys)"
  by (auto simp: mints_def list_ex_iff dest!: sender_accountD)

lemma FundAccount_Inr:
  assumes "FundAccount E req u w = (Inr res, w')"
  shows "\<exists>sys n. sender_account E u w = Some sys \<and>
     fund_effect req (a_ID sys) (fres_TransactionID res) n (w_db w) (w_db w') \<and>
     dec_IsPositive E (fund_Amount req)"
  using assms
  by (auto simp: FundAccount_def Let_def attempt_Inr GetAccountByUserID_Inr WithTx_Inr sender_account_def split: if_splits
      dest!: fund_body_Inr)

lemma FundAccount_Inl:
  assumes "FundAccount E req u w = (Inl e, w')"
  shows "w_db w' = w_db w \<or>
     (\<exists>s sys txnID n. e = Wrapf ''commit tx: '' (Driver s) \<and> sender_account E u w = Some sys \<and>
        fund_effect req (a_ID sys) txnID n (w_db w) (w_db w'))"
proof (cases "dec_IsPositive E (fund_Amount req)")
  case False
  with assms show ?thesis by (simp add: FundAccount_def)
next
  case True
  let ?id = "uuid_New E (w_tick w)" and ?w = "w\<lparr>w_tick := Suc (w_tick w)\<rparr>"
  from True assms consider e' where "GetAccountByUserID E u ?w = (Inl e', w')"
    | sys w1 where "GetAccountByUserID E u ?w = (Inr sys, w1)" "WithTx E (fund_body E req ?id sys) w1 = (Inl e, w')"
    by (auto simp: FundAccount_def Let_def attempt_Inl map_error_Inl)
  then show ?thesis
  proof cases
    case 1
    then show ?thesis using query_state(4) [of E u ?w] by simp
  next
    case 2
    then show ?thesis by (auto simp: GetAccountByUserID_Inr sender_account_def dest!: WithTx_Inl fund_body_Inr) blast
  qed
qed

lemma FundAccount_db:
  "w_db (snd (FundAccount E req u w)) = w_db w \<or>
   (\<exists>sys txnID n. sender_account E u w = Some sys \<and>
      fund_effect req (a_ID sys) txnID n (w_db w) (w_db (snd (FundAccount E req u w))))"
proof -
  obtain r w' where run: "FundAccount E req u w = (r, w')" by fastforce
  then show ?thesis by (cases r) (auto dest!: FundAccount_Inl FundAccount_Inr)
qed


section \<open>Properties\<close>

definition sample_fund :: FundRequest where
  "sample_fund = \<lparr>fund_ToAccountID = 21, fund_Amount = 3\<rparr>"

definition sample_fund_after :: "sample_redis world" where
  "sample_fund_after = snd (FundAccount sample_env sample_fund system_uuid sample_world)"

definition sample_fund_res :: FundResponse where
  "sample_fund_res = \<lparr>fres_TransactionID = 1000, fres_ToAccountID = 21, fres_Amount = 3,
     fres_Status = TxnStatusCompleted, fres_Message = ''Funds minted successfully''\<rparr>"

lemma sample_funding:
  "FundAccount sample_env sample_fund system_uuid sample_world = (Inr sample_fund_res, sample_fund_after)"
proof (rule prod_eqI)
  show "fst (FundAccount sample_env sample_fund system_uuid sample_world) = fst (Inr sample_fund_res, sample_fund_after)"
    by code_simp
qed (simp add: sample_fund_after_def)

text \<open>
  Property C29. A funding that reports success has appended one completed transaction
  from the active account that was found for the given user to the target, with a credit alone: the target's
  balance and the total of all balances grow by the rounded amount, every other balance,
  the sender's included, is unchanged, and sender and target differ.
\<close>

theorem fund_mints_money:
  assumes "schema_ok (w_db w)" and "FundAccount E req u w = (Inr res, w')"
  shows "\<exists>n t y. numeric_18_4 (fund_Amount req) = Some n \<and> 0 < n \<and>
     w_db w' = append_txn t [y] (w_db w) \<and> single_entry t [y] \<and> tr_status t = TxnStatusCompleted \<and>
     tr_id t = fres_TransactionID res \<and> tr_to t = fund_ToAccountID req \<and> tr_from t \<noteq> tr_to t \<and> tr_amount t = n \<and>
     (\<exists>sys \<in> set (pg_scan_accounts E (Suc (w_tick w)) (accounts (w_db w))).
        a_UserID sys = u \<and> a_Status sys = AccountStatusActive \<and> tr_from t = a_ID sys) \<and>
     balance_of (ledger (w_db w')) = (balance_of (ledger (w_db w)))
       (fund_ToAccountID req := balance_of (ledger (w_db w)) (fund_ToAccountID req) + n) \<and>
     total_balance (w_db w') = total_balance (w_db w) + n"
proof -
  from FundAccount_Inr [OF assms(2)] obtain sys n where sys: "sender_account E u w = Some sys"
    and eff: "fund_effect req (a_ID sys) (fres_TransactionID res) n (w_db w) (w_db w')" by blast
  from sys have "sys \<in> set (pg_scan_accounts E (Suc (w_tick w)) (accounts (w_db w)))" "a_UserID sys = u"
    "a_Status sys = AccountStatusActive"
    by (auto simp: sender_account_def dest!: find_SomeD)
  moreover from eff obtain t y where "w_db w' = append_txn t [y] (w_db w)" "posting_ok (w_db w) t [y]" "single_entry t [y]"
    "tr_from t = a_ID sys" "tr_id t = fres_TransactionID res" "tr_to t = fund_ToAccountID req" "tr_amount t = n"
    "numeric_18_4 (fund_Amount req) = Some n"
    by (auto simp: fund_effect_def)
  moreover from this have "0 < n" "tr_status t = TxnStatusCompleted" "tr_from t \<noteq> tr_to t"
    by (auto simp: posting_ok_def)
  ultimately show ?thesis
    using fund_effect_balance [OF eff] fund_effect_total [OF eff assms(1)] by blast
qed

theorem fund_mints_money_witness:
  "schema_ok (w_db sample_world) \<and>
   FundAccount sample_env sample_fund system_uuid sample_world = (Inr sample_fund_res, sample_fund_after) \<and>
   (\<exists>n. numeric_18_4 (fund_Amount sample_fund) = Some n \<and>
      total_balance (w_db sample_fund_after) = total_balance (w_db sample_world) + n)"
proof -
  have "schema_ok (w_db sample_world)"
    using sample_bank_ok by (simp add: sample_world_def bank_ok_def)
  then show ?thesis using fund_mints_money [OF _ sample_funding] sample_funding by blast
qed

text \<open>
  Property C30. A funding by a system user keeps the invariant of the bank: its transaction
  has no debit, which only a system user's account may have. A funding that reports an
  error has changed nothing in the database, unless the error is the commit's: then the
  acknowledgement may have been lost after the commit, and the database holds the one
  complete funding from the user's account.
\<close>

theorem fund_keeps_bank_ok:
  assumes "scan_spec E" and "bank_ok (w_db w)" and "privileged (w_db w) u"
    and "FundAccount E req u w = (r, w')"
  shows "bank_ok (w_db w') \<and>
    (\<forall>e. r = Inl e \<longrightarrow> w_db w' = w_db w \<or>
       (\<exists>s sys txnID n. e = Wrapf ''commit tx: '' (Driver s) \<and> sys \<in> set (accounts (w_db w)) \<and> a_UserID sys = u \<and>
          fund_effect req (a_ID sys) txnID n (w_db w) (w_db w')))"
proof (intro conjI allI impI)
  show "bank_ok (w_db w')"
    using FundAccount_db [of E req u w] assms fund_effect_bank_ok sender_account_mints by (metis snd_conv)
next
  fix e assume "r = Inl e"
  with assms(4) have "FundAccount E req u w = (Inl e, w')" by simp
  from FundAccount_Inl [OF this] show "w_db w' = w_db w \<or>
      (\<exists>s sys txnID n. e = Wrapf ''commit tx: '' (Driver s) \<and> sys \<in> set (accounts (w_db w)) \<and> a_UserID sys = u \<and>
          fund_effect req (a_ID sys) txnID n (w_db w) (w_db w'))"
    using sender_accountD [OF _ assms(1)] by blast
qed

text \<open>The same funding with the acknowledgement of its commit lost.\<close>

definition lost_env :: "sample_redis env" where
  "lost_env = sample_env\<lparr>pg_outcome := \<lambda>n. if n = 9 then PgLost ''connection reset'' else PgOk\<rparr>"

lemma lost_scan: "scan_spec lost_env"
  by (simp add: scan_spec_def lost_env_def sample_env_def)

theorem fund_keeps_bank_ok_witness:
  "fst (FundAccount lost_env sample_fund system_uuid sample_world) = Inl (Wrapf ''commit tx: '' (Driver ''connection reset'')) \<and>
   bank_ok (w_db (snd (FundAccount lost_env sample_fund system_uuid sample_world))) \<and>
   length (ledger (w_db (snd (FundAccount lost_env sample_fund system_uuid sample_world)))) =
     Suc (length (ledger (w_db sample_world)))"
proof -
  have "fst (FundAccount lost_env sample_fund system_uuid sample_world) = Inl (Wrapf ''commit tx: '' (Driver ''connection reset''))"
    by code_simp
  moreover have "length (ledger (w_db (snd (FundAccount lost_env sample_fund system_uuid sample_world)))) =
      Suc (length (ledger (w_db sample_world)))"
    by code_simp
  moreover have "privileged (w_db sample_world) system_uuid" by code_simp
  ultimately show ?thesis
    using fund_keeps_bank_ok [OF lost_scan, of sample_world system_uuid sample_fund] sample_bank_ok
    by (simp add: sample_world_def prod_eq_iff)
qed

end
