(* ===== verification/Token_Manager.thy ===== *)
theory Token_Manager
  imports Sample_Env
begin

text \<open>
  internal/auth/token.go: issuing, validating and revoking session tokens. The manager's
  secret is an argument. A revoked token is a key in Redis that lives as long as the
  token would have.
\<close>

definition TokenTTL :: duration where
  "TokenTTL = 24 * Hour"

definition blacklistPrefix :: string where
  "blacklistPrefix = ''vault:blacklist:''"

definition issue_claims :: "'r env \<Rightarrow> uuid \<Rightarrow> string \<Rightarrow> bool \<Rightarrow> string \<Rightarrow> time \<Rightarrow> Claims" where
  "issue_claims E userID username isSystemUser jti now =
     \<lparr>c_ID = jti, c_Issuer = ''omniledger'', c_Subject = uuid_String E userID,
      c_IssuedAt = jwt_NewNumericDate E now, c_ExpiresAt = jwt_NewNumericDate E (now + TokenTTL),
      c_UserID = userID, c_Username = username, c_IsSystemUser = isSystemUser\<rparr>"

definition IssueToken ::
  "'r env \<Rightarrow> string \<Rightarrow> uuid \<Rightarrow> string \<Rightarrow> bool \<Rightarrow> ('r world, string \<times> string) goio" where
  "IssueToken E secret userID username isSystemUser w =
     (let jti = uuid_String E (uuid_New E (w_tick w));
          now = time_Now E (Suc (w_tick w));
          w' = w\<lparr>w_tick := Suc (Suc (w_tick w))\<rparr> in
      case jwt_SignHS256 E (issue_claims E userID username isSystemUser jti now) secret of
        Inl e \<Rightarrow> (Inl (Wrapf ''sign token: '' (Driver e)), w')
      | Inr tok \<Rightarrow> (Inr (tok, jti), w'))"

text \<open>The key function hands out the secret to HMAC methods only.\<close>

definition token_keyfunc :: "string \<Rightarrow> jwt_method \<Rightarrow> goerr + string" where
  "token_keyfunc secret m =
     (case m of SigningMethodHMAC _ \<Rightarrow> Inr secret
      | OtherMethod alg \<Rightarrow> Inl (Plain (''unexpected signing method: '' @ alg)))"

definition ValidateToken :: "'r env \<Rightarrow> string \<Rightarrow> string \<Rightarrow> ('r world, Claims) goio" where
  "ValidateToken E secret tokenStr w =
     (let w' = w\<lparr>w_tick := Suc (w_tick w)\<rparr> in
      case jwt_Parse E (w_tick w) tokenStr (token_keyfunc secret) of
        Inl e \<Rightarrow> (Inl (Wrapf ''parse token: '' e), w')
      | Inr (Some claims, True) \<Rightarrow> (Inr claims, w')
      | Inr _ \<Rightarrow> (Inl (Plain ''invalid token claims''), w'))"

text \<open>\<open>time.Until\<close> saturates at the ends of the 64-bit nanosecond range.\<close>

definition time_Until :: "'r env \<Rightarrow> nat \<Rightarrow> time \<Rightarrow> duration" where
  "time_Until E n t = max (- (2 ^ 63)) (min (2 ^ 63 - 1) (t - time_Now E n))"

definition BlacklistToken :: "'r env \<Rightarrow> string \<Rightarrow> time \<Rightarrow> ('r world, unit) goio" where
  "BlacklistToken E jti expiry w =
     (let remaining = time_Until E (w_tick w) expiry;
          ttl = (if remaining \<le> 0 then Second else remaining) in
      case rdb_Set E (Suc (w_tick w)) (blacklistPrefix @ jti) ''blacklisted'' ttl (w_redis w) of
        (err, r) \<Rightarrow>
          ((case err of Some e \<Rightarrow> Inl (Wrapf ''blacklist token: '' (Driver e)) | None \<Rightarrow> Inr ()),
           w\<lparr>w_redis := r, w_tick := Suc (Suc (w_tick w))\<rparr>))"

definition IsBlacklisted :: "'r env \<Rightarrow> string \<Rightarrow> ('r world, bool) goio" where
  "IsBlacklisted E jti w =
     (case rdb_Exists E (w_tick w) (blacklistPrefix @ jti) (w_redis w) of
        (res, r) \<Rightarrow>
          ((case res of Inl e \<Rightarrow> Inl (Wrapf ''check blacklist: '' (Driver e)) | Inr n \<Rightarrow> Inr (0 < n)),
           w\<lparr>w_redis := r, w_tick := Suc (w_tick w)\<rparr>))"

section \<open>Tokens leave the database alone\<close>

lemma token_db [simp]:
  "w_db (snd (IssueToken E secret u name sys w)) = w_db w"
  "w_db (snd (ValidateToken E secret t w)) = w_db w"
  "w_db (snd (BlacklistToken E jti ex w)) = w_db w"
  "w_db (snd (IsBlacklisted E jti w)) = w_db w"
  by (auto simp: IssueToken_def ValidateToken_def BlacklistToken_def IsBlacklisted_def Let_def
      split: sum.splits prod.splits option.splits bool.splits)

lemma token_redis [simp]:
  "w_redis (snd (IssueToken E secret u name sys w)) = w_redis w"
  "w_redis (snd (ValidateToken E secret t w)) = w_redis w"
  by (auto simp: IssueToken_def ValidateToken_def Let_def split: sum.splits option.splits bool.splits)

lemma IssueToken_Inr:
  "IssueToken E secret u name sys w = (Inr (t, jti), w') \<longleftrightarrow>
     jti = uuid_String E (uuid_New E (w_tick w)) \<and>
     jwt_SignHS256 E (issue_claims E u name sys jti (time_Now E (Suc (w_tick w)))) secret = Inr t \<and>
     w' = w\<lparr>w_tick := Suc (Suc (w_tick w))\<rparr>"
  by (auto simp: IssueToken_def Let_def split: sum.splits)

lemma jwt_specD:
  assumes "jwt_spec E" and "jwt_SignHS256 E c s = Inr t"
    and "c_IssuedAt c \<in> range (jwt_NewNumericDate E)" and "c_ExpiresAt c \<in> range (jwt_NewNumericDate E)"
  shows "key (SigningMethodHMAC ''HS256'') = Inr s \<Longrightarrow> time_Now E n < c_ExpiresAt c \<Longrightarrow>
      jwt_Parse E n t key = Inr (Some c, True)"
    and "c_ExpiresAt c \<le> time_Now E n \<Longrightarrow> \<exists>e. jwt_Parse E n t key = Inl e"
  using assms unfolding jwt_spec_def by blast+

lemma issued_token:
  assumes "jwt_spec E" and "IssueToken E secret u name sys w = (Inr (t, jti), w')"
  shows "time_Now E (w_tick v) \<le> time_Now E (Suc (w_tick w)) + TokenTTL - Second \<Longrightarrow>
      fst (ValidateToken E secret t v) = Inr (issue_claims E u name sys jti (time_Now E (Suc (w_tick w))))"
    and "time_Now E (Suc (w_tick w)) + TokenTTL \<le> time_Now E (w_tick v) \<Longrightarrow>
      \<exists>e. fst (ValidateToken E secret t v) = Inl e"
proof -
  let ?now = "time_Now E (Suc (w_tick w))"
  let ?c = "issue_claims E u name sys jti ?now"
  have sign: "jwt_SignHS256 E ?c secret = Inr t"
    using assms(2) unfolding IssueToken_Inr by blast
  have dates: "c_IssuedAt ?c \<in> range (jwt_NewNumericDate E)" "c_ExpiresAt ?c \<in> range (jwt_NewNumericDate E)"
    and ex: "c_ExpiresAt ?c = jwt_NewNumericDate E (?now + TokenTTL)"
    by (simp_all add: issue_claims_def)
  have cut: "?now + TokenTTL - Second < c_ExpiresAt ?c" "c_ExpiresAt ?c \<le> ?now + TokenTTL"
    using assms(1) by (simp_all add: ex jwt_spec_def)
  show "fst (ValidateToken E secret t v) = Inr ?c" if "time_Now E (w_tick v) \<le> ?now + TokenTTL - Second"
  proof -
    have "jwt_Parse E (w_tick v) t (token_keyfunc secret) = Inr (Some ?c, True)"
      using that cut by (intro jwt_specD(1) [OF assms(1) sign dates]) (simp_all add: token_keyfunc_def)
    then show ?thesis by (simp add: ValidateToken_def)
  qed
  show "\<exists>e. fst (ValidateToken E secret t v) = Inl e" if "?now + TokenTTL \<le> time_Now E (w_tick v)"
  proof -
    have "\<exists>e. jwt_Parse E (w_tick v) t (token_keyfunc secret) = Inl e"
      using that cut by (intro jwt_specD(2) [OF assms(1) sign dates]) simp
    then show ?thesis by (auto simp: ValidateToken_def)
  qed
qed

lemma ValidateToken_tick: "ValidateToken E secret t w = (r, w') \<Longrightarrow> w' = w\<lparr>w_tick := Suc (w_tick w)\<rparr>"
  by (auto simp: ValidateToken_def Let_def split: sum.splits prod.splits option.splits bool.splits)

lemma IsBlacklisted_Inr:
  assumes "redis_kv_spec E kv" and "IsBlacklisted E jti v = (Inr b, v')"
  shows "b = (kv (w_redis v) (w_tick v) (blacklistPrefix @ jti) \<noteq> None)"
proof -
  from assms(2) obtain c r where ex: "rdb_Exists E (w_tick v) (blacklistPrefix @ jti) (w_redis v) = (Inr c, r)" and b: "b = (0 < c)"
    by (auto simp: IsBlacklisted_def split: prod.splits sum.splits)
  show ?thesis unfolding b redis_Exists_D(1) [OF assms(1) ex] by simp
qed

section \<open>Properties\<close>

text \<open>
  Property C28. Issue and validate: a token issued at time \<open>t\<close> validates to the claims
  it was issued with (user, name, privilege flag, identifier) at any instant up to
  one second before \<open>t\<close> plus 24 hours, and at no instant from \<open>t\<close> plus 24 hours on.
\<close>

theorem token_roundtrip:
  assumes "jwt_spec E" and "IssueToken E secret u name sys w = (Inr (t, jti), w')"
  shows "(time_Now E (w_tick v) \<le> time_Now E (Suc (w_tick w)) + TokenTTL - Second \<longrightarrow>
      fst (ValidateToken E secret t v) =
        Inr (issue_claims E u name sys jti (time_Now E (Suc (w_tick w))))) \<and>
    (time_Now E (Suc (w_tick w)) + TokenTTL \<le> time_Now E (w_tick v) \<longrightarrow>
      (\<exists>e. fst (ValidateToken E secret t v) = Inl e))"
  using issued_token [OF assms] by blast

definition sample_token :: string where
  "sample_token = fst (projr (fst (IssueToken sample_env ''secret'' 10 ''alice'' False sample_world)))"

lemma sample_issue:
  "IssueToken sample_env ''secret'' 10 ''alice'' False sample_world =
     (Inr (sample_token, sample_uuid_String 1000), sample_world\<lparr>w_tick := 2\<rparr>)"
  by (simp add: sample_token_def IssueToken_def Let_def issue_claims_def sample_env_def sample_sign_def
      sample_world_def TokenTTL_def Hour_def Second_def)

theorem token_roundtrip_witness:
  "jwt_spec sample_env \<and>
   fst (ValidateToken sample_env ''secret'' sample_token (sample_world\<lparr>w_tick := 2\<rparr>)) =
     Inr (issue_claims sample_env 10 ''alice'' False (sample_uuid_String 1000) Second) \<and>
   (\<exists>e. fst (ValidateToken sample_env ''secret'' sample_token (sample_world\<lparr>w_tick := 100000\<rparr>)) = Inl e)"
  using token_roundtrip [OF sample_jwt sample_issue, of "sample_world\<lparr>w_tick := 2\<rparr>"]
    token_roundtrip [OF sample_jwt sample_issue, of "sample_world\<lparr>w_tick := 100000\<rparr>"] sample_jwt
  by (simp add: sample_env_def sample_world_def TokenTTL_def Hour_def Second_def)

text \<open>
  Revocation: after a successful \<open>BlacklistToken\<close> the identifier's key is
  live, no other key changed, and \<open>IsBlacklisted\<close> answers exactly whether the key is
  live, whenever Redis answers.
\<close>

theorem blacklist_then_revoked:
  assumes "redis_kv_spec E kv" and "BlacklistToken E jti expiry w = (Inr (), w')"
  shows "kv (w_redis w') (Suc (w_tick w)) = (kv (w_redis w) (Suc (w_tick w)))(blacklistPrefix @ jti \<mapsto> ''blacklisted'') \<and>
    (\<forall>v b. fst (IsBlacklisted E jti v) = Inr b \<longrightarrow>
       b = (kv (w_redis v) (w_tick v) (blacklistPrefix @ jti) \<noteq> None))"
proof (intro conjI allI impI)
  let ?ttl = "if time_Until E (w_tick w) expiry \<le> 0 then Second else time_Until E (w_tick w) expiry"
  have "rdb_Set E (Suc (w_tick w)) (blacklistPrefix @ jti) ''blacklisted'' ?ttl (w_redis w) = (None, w_redis w')"
    using assms(2) by (auto simp: BlacklistToken_def Let_def split: prod.splits option.splits)
  then show "kv (w_redis w') (Suc (w_tick w)) =
      (kv (w_redis w) (Suc (w_tick w)))(blacklistPrefix @ jti \<mapsto> ''blacklisted'')"
    by (rule redis_Set_D [OF assms(1)])
next
  fix v b assume "fst (IsBlacklisted E jti v) = Inr b"
  then show "b = (kv (w_redis v) (w_tick v) (blacklistPrefix @ jti) \<noteq> None)"
    using IsBlacklisted_Inr [OF assms(1)] by (metis prod.collapse)
qed

theorem blacklist_then_revoked_witness:
  "fst (BlacklistToken sample_env ''j'' 100 sample_world) = Inr () \<and>
   sr_kv (w_redis (snd (BlacklistToken sample_env ''j'' 100 sample_world))) 1 (blacklistPrefix @ ''j'') = Some ''blacklisted''"
proof -
  have run: "BlacklistToken sample_env ''j'' 100 sample_world = (Inr (), snd (BlacklistToken sample_env ''j'' 100 sample_world))"
    by (simp add: BlacklistToken_def sample_env_def Let_def)
  show ?thesis
    using blacklist_then_revoked [OF sample_redis_kv run] run by (simp add: prod_eq_iff sample_world_def)
qed

end
