(* ===== verification/Http.thy ===== *)
theory Http
  imports Store
begin

text \<open>
  The parts of \<open>net/http\<close> and \<open>encoding/json\<close> that the handlers use: requests with
  their context values, cookies, the response writer, JSON documents, and handlers as
  functions on the response and the world whose error is a panic. The JSON form of each
  payload follows the struct tags of internal/model/model.go.
\<close>

section \<open>JSON\<close>

datatype json =
    JStr string
  | JInt int
  | JBool bool
  | JDecimal decimal
  | JTime time
  | JArr "json list"
  | JObj "(string \<times> json) list"

fun AccountStatus_text :: "AccountStatus \<Rightarrow> string" where
  "AccountStatus_text AccountStatusActive = ''Active''"
| "AccountStatus_text AccountStatusFrozen = ''Frozen''"
| "AccountStatus_text AccountStatusClosed = ''Closed''"

fun TransactionStatus_text :: "TransactionStatus \<Rightarrow> string" where
  "TransactionStatus_text TxnStatusPending = ''Pending''"
| "TransactionStatus_text TxnStatusCompleted = ''Completed''"
| "TransactionStatus_text TxnStatusFailed = ''Failed''"
| "TransactionStatus_text TxnStatusReversed = ''Reversed''"

abbreviation JUuid :: "'r env \<Rightarrow> uuid \<Rightarrow> json" where
  "JUuid E u \<equiv> JStr (uuid_String E u)"

definition json_User :: "'r env \<Rightarrow> User \<Rightarrow> json" where
  "json_User E u = JObj
     [(''id'', JUuid E (u_ID u)), (''username'', JStr (u_Username u)), (''email'', JStr (u_Email u)),
      (''full_name'', JStr (u_FullName u)), (''is_system_user'', JBool (u_IsSystemUser u)),
      (''is_active'', JBool (u_IsActive u)), (''created_at'', JTime (u_CreatedAt u)),
      (''updated_at'', JTime (u_UpdatedAt u))]"

definition json_Account :: "'r env \<Rightarrow> Account \<Rightarrow> json" where
  "json_Account E a = JObj
     [(''id'', JUuid E (a_ID a)), (''user_id'', JUuid E (a_UserID a)), (''currency'', JStr (a_Currency a)),
      (''status'', JStr (AccountStatus_text (a_Status a))), (''created_at'', JTime (a_CreatedAt a))]"

definition json_TransferResponse :: "'r env \<Rightarrow> TransferResponse \<Rightarrow> json" where
  "json_TransferResponse E r = JObj
     [(''transaction_id'', JUuid E (res_TransactionID r)),
      (''status'', JStr (TransactionStatus_text (res_Status r))), (''message'', JStr (res_Message r))]"

definition json_FundResponse :: "'r env \<Rightarrow> FundResponse \<Rightarrow> json" where
  "json_FundResponse E r = JObj
     [(''transaction_id'', JUuid E (fres_TransactionID r)), (''to_account_id'', JUuid E (fres_ToAccountID r)),
      (''amount'', JDecimal (fres_Amount r)), (''status'', JStr (TransactionStatus_text (fres_Status r))),
      (''message'', JStr (fres_Message r))]"

definition json_HistoryItem :: "'r env \<Rightarrow> TransactionHistoryItem \<Rightarrow> json" where
  "json_HistoryItem E h = JObj
     [(''id'', JUuid E (h_ID h)), (''from_account_id'', JUuid E (h_FromAccountID h)),
      (''to_account_id'', JUuid E (h_ToAccountID h)), (''amount'', JDecimal (h_Amount h)),
      (''status'', JStr (TransactionStatus_text (h_Status h))),
      (''idempotency_key'', JUuid E (h_IdempotencyKey h)), (''created_at'', JTime (h_CreatedAt h)),
      (''updated_at'', JTime (h_UpdatedAt h)), (''direction'', JStr (h_Direction h))]"

definition json_PaginatedHistory :: "'r env \<Rightarrow> PaginatedHistory \<Rightarrow> json" where
  "json_PaginatedHistory E p = JObj
     [(''items'', JArr (map (json_HistoryItem E) (ph_Items p))), (''total'', JInt (ph_Total p)),
      (''page'', JInt (ph_Page p)), (''per_page'', JInt (ph_PerPage p)), (''total_pages'', JInt (ph_TotalPages p))]"

definition json_BalanceResponse :: "'r env \<Rightarrow> BalanceResponse \<Rightarrow> json" where
  "json_BalanceResponse E b = JObj
     [(''account_id'', JUuid E (b_AccountID b)), (''currency'', JStr (b_Currency b)), (''balance'', JStr (b_Balance b))]"

definition error_body :: "string \<Rightarrow> json" where
  "error_body m = JObj [(''error'', JStr m)]"

section \<open>Requests\<close>

text \<open>
  The values a middleware can put in the request context, an absent value being
  \<open>None\<close>. Headers are listed under their canonical names; query parameters and cookies
  in the order of the request; \<open>rq_PathID\<close> is the segment matched by the wildcard
  \<open>{id}\<close> of the route, empty for a route without one.
\<close>

record context_values =
  ctx_UserID :: "uuid option"
  ctx_Username :: "string option"
  ctx_JTI :: "string option"

definition ctx_Background :: context_values where
  "ctx_Background = \<lparr>ctx_UserID = None, ctx_Username = None, ctx_JTI = None\<rparr>"

record request =
  rq_Method :: string
  rq_Path :: string
  rq_PathID :: string
  rq_Header :: "(string \<times> string) list"
  rq_Query :: "(string \<times> string) list"
  rq_Cookies :: "(string \<times> string) list"
  rq_RemoteAddr :: string
  rq_Body :: string
  rq_Context :: context_values

text \<open>\<open>Header.Get\<close> and \<open>Values.Get\<close>: the first value, the empty text when there is none.\<close>

definition Get :: "(string \<times> string) list \<Rightarrow> string \<Rightarrow> string" where
  "Get xs k = (case map_of xs k of None \<Rightarrow> [] | Some v \<Rightarrow> v)"

definition request_Cookie :: "request \<Rightarrow> string \<Rightarrow> string option" where
  "request_Cookie r name = map_of (rq_Cookies r) name"

section \<open>Responses\<close>

datatype SameSite = SameSiteLaxMode | SameSiteNoneMode

record Cookie =
  ck_Name :: string
  ck_Value :: string
  ck_Path :: string
  ck_HttpOnly :: bool
  ck_Secure :: bool
  ck_SameSite :: SameSite
  ck_MaxAge :: int

text \<open>
  A response writer: the header map, the cookies set so far, the status of the first
  \<open>WriteHeader\<close> and the documents written to the body.
\<close>

record ResponseWriter =
  rw_Header :: "(string \<times> string) list"
  rw_Cookies :: "Cookie list"
  rw_Status :: "int option"
  rw_Body :: "json list"

definition new_response :: ResponseWriter where
  "new_response = \<lparr>rw_Header = [], rw_Cookies = [], rw_Status = None, rw_Body = []\<rparr>"

definition header_Set :: "string \<Rightarrow> string \<Rightarrow> ResponseWriter \<Rightarrow> ResponseWriter" where
  "header_Set k v rw = rw\<lparr>rw_Header := (k, v) # filter (\<lambda>(j, _). j \<noteq> k) (rw_Header rw)\<rparr>"

definition WriteHeader :: "int \<Rightarrow> ResponseWriter \<Rightarrow> ResponseWriter" where
  "WriteHeader status rw = (case rw_Status rw of None \<Rightarrow> rw\<lparr>rw_Status := Some status\<rparr> | Some _ \<Rightarrow> rw)"

definition Encode :: "json \<Rightarrow> ResponseWriter \<Rightarrow> ResponseWriter" where
  "Encode j rw = rw\<lparr>rw_Body := rw_Body rw @ [j]\<rparr>"

definition SetCookie :: "Cookie \<Rightarrow> ResponseWriter \<Rightarrow> ResponseWriter" where
  "SetCookie c rw = rw\<lparr>rw_Cookies := rw_Cookies rw @ [c]\<rparr>"

definition writeJSON :: "int \<Rightarrow> json \<Rightarrow> ResponseWriter \<Rightarrow> ResponseWriter" where
  "writeJSON status j rw = Encode j (WriteHeader status (header_Set ''Content-Type'' ''application/json'' rw))"

section \<open>Handlers\<close>

text \<open>
  A handler changes the response and the world. Its error is the value of a panic, which
  the server recovers: what happened before the panic stays.
\<close>

type_synonym 'r served = "ResponseWriter \<times> 'r world"
type_synonym ('r, 'a) action = "(string, 'r served, 'a) io"
type_synonym 'r handler = "request \<Rightarrow> ('r, unit) action"

definition respond :: "(ResponseWriter \<Rightarrow> ResponseWriter) \<Rightarrow> ('r, unit) action" where
  "respond f s = (Inr (), (f (fst s), snd s))"

text \<open>Calling a function of a service or the store: both results, value and error, come back.\<close>

definition call :: "('r world, 'a) goio \<Rightarrow> ('r, goerr + 'a) action" where
  "call m s = (case m (snd s) of (r, w) \<Rightarrow> (Inr r, (fst s, w)))"

abbreviation world_inv :: "(db \<Rightarrow> bool) \<Rightarrow> 'r served \<Rightarrow> bool" where
  "world_inv I \<equiv> \<lambda>s. I (w_db (snd s))"

lemma respond_run [simp]: "respond f s = (Inr (), (f (fst s), snd s))"
  by (simp add: respond_def)

lemma call_run: "m (snd s) = (r, w) \<Longrightarrow> call m s = (Inr r, (fst s, w))"
  by (simp add: call_def)

lemma keeps_respond [keeps_intros]: "keeps (world_inv I) (respond f)"
  by (simp add: keeps_def)

lemma keeps_call [keeps_intros]: "keeps (\<lambda>w. I (w_db w)) m \<Longrightarrow> keeps (world_inv I) (call m)"
  by (auto simp: keeps_def call_def split: prod.splits)

lemma keeps_sum [keeps_intros]:
  "(\<And>e. keeps I (f e)) \<Longrightarrow> (\<And>a. keeps I (g a)) \<Longrightarrow> keeps I (case r of Inl e \<Rightarrow> f e | Inr a \<Rightarrow> g a)"
  by (cases r) auto

lemma keeps_option [keeps_intros]:
  "keeps I m \<Longrightarrow> (\<And>a. keeps I (f a)) \<Longrightarrow> keeps I (case r of None \<Rightarrow> m | Some a \<Rightarrow> f a)"
  by (cases r) auto

lemma writeJSON_sel [simp]:
  "rw_Cookies (writeJSON c j rw) = rw_Cookies rw" "rw_Body (writeJSON c j rw) = rw_Body rw @ [j]"
  "rw_Status (writeJSON c j rw) = Some (case rw_Status rw of None \<Rightarrow> c | Some s \<Rightarrow> s)"
  by (auto simp: writeJSON_def Encode_def WriteHeader_def header_Set_def split: option.splits)

lemma new_response_sel [simp]:
  "rw_Cookies new_response = []" "rw_Body new_response = []" "rw_Status new_response = None"
  by (simp_all add: new_response_def)

lemma Encode_sel [simp]:
  "rw_Status (Encode j rw) = rw_Status rw" "rw_Cookies (Encode j rw) = rw_Cookies rw"
  "rw_Header (Encode j rw) = rw_Header rw"
  by (simp_all add: Encode_def)

lemma header_Set_sel [simp]:
  "rw_Status (header_Set k v rw) = rw_Status rw" "rw_Cookies (header_Set k v rw) = rw_Cookies rw"
  "rw_Body (header_Set k v rw) = rw_Body rw"
  by (simp_all add: header_Set_def)

text \<open>The password hash is in no JSON document.\<close>

lemma json_User_hides_hash: "json_User E (u\<lparr>u_PasswordHash := h\<rparr>) = json_User E u"
  by (simp add: json_User_def)

end
