(* ===== verification/Auth_Service.thy ===== *)
theory Auth_Service
  imports Token_Manager Http
begin

text \<open>
  internal/service/auth.go: registration, login, logout and the session cookie. A
  registration is two separate statements, one for the user and one for the default
  account; the lookups before them ignore the error and look only for a row.
\<close>

definition bcryptCost :: int where
  "bcryptCost = 12"

text \<open>\<open>v, _ := f()\<close>: the error is dropped, no value is \<open>nil\<close>.\<close>

definition drop_error :: "('s, 'a) goio \<Rightarrow> ('s, 'a option) goio" where
  "drop_error m s = (case m s of (Inl e, t) \<Rightarrow> (Inr None, t) | (Inr a, t) \<Rightarrow> (Inr (Some a), t))"

definition new_uuid :: "'r env \<Rightarrow> ('r world, uuid) goio" where
  "new_uuid E w = (Inr (uuid_New E (w_tick w)), w\<lparr>w_tick := Suc (w_tick w)\<rparr>)"

definition GenerateFromPassword :: "'r env \<Rightarrow> string \<Rightarrow> int \<Rightarrow> ('r world, string) goio" where
  "GenerateFromPassword E password cost w =
     ((case bcrypt_Generate E (w_tick w) password cost of Inl e \<Rightarrow> Inl (Driver e) | Inr h \<Rightarrow> Inr h),
      w\<lparr>w_tick := Suc (w_tick w)\<rparr>)"

section \<open>Register\<close>

definition new_user :: "RegisterRequest \<Rightarrow> uuid \<Rightarrow> string \<Rightarrow> bool \<Rightarrow> User" where
  "new_user req i hash isFirst =
     \<lparr>u_ID = i, u_Username = reg_Username req, u_Email = reg_Email req, u_PasswordHash = hash,
      u_FullName = reg_FullName req, u_IsSystemUser = isFirst, u_IsActive = True,
      u_CreatedAt = time_Zero, u_UpdatedAt = time_Zero\<rparr>"

definition new_account :: "uuid \<Rightarrow> uuid \<Rightarrow> Account" where
  "new_account i userID =
     \<lparr>a_ID = i, a_UserID = userID, a_Currency = ''INR'', a_Status = AccountStatusActive, a_CreatedAt = time_Zero\<rparr>"

text \<open>The second half of the method, once the password is hashed and the users are counted.\<close>

definition register_create ::
  "'r env \<Rightarrow> string \<Rightarrow> RegisterRequest \<Rightarrow> string \<Rightarrow> bool \<Rightarrow> ('r world, AuthResponse) goio" where
  "register_create E secret req hash isFirst =
     attempt (new_uuid E) (\<lambda>userID.
     let user = new_user req userID hash isFirst in
     attempt (wrapf ''create user: '' (CreateUser E user)) (\<lambda>_.
     attempt (new_uuid E) (\<lambda>acctID.
     attempt (wrapf ''create default account: '' (CreateAccount E (new_account acctID (u_ID user)))) (\<lambda>_.
     attempt (IssueToken E secret (u_ID user) (u_Username user) (u_IsSystemUser user)) (\<lambda>(tokenStr, _).
     ok \<lparr>auth_User = user, auth_Token = tokenStr\<rparr>)))))"

definition Register :: "'r env \<Rightarrow> string \<Rightarrow> RegisterRequest \<Rightarrow> ('r world, AuthResponse) goio" where
  "Register E secret req =
     (if reg_Username req = [] \<or> reg_Email req = [] \<or> reg_Password req = [] \<or> reg_FullName req = []
        then fail (Sentinel ErrMissingFields)
      else
      attempt (drop_error (GetUserByUsername E (reg_Username req))) (\<lambda>existing.
      if existing \<noteq> None then fail (Sentinel ErrUsernameTaken) else
      attempt (drop_error (GetUserByEmail E (reg_Email req))) (\<lambda>existingEmail.
      if existingEmail \<noteq> None then fail (Sentinel ErrEmailTaken) else
      attempt (wrapf ''bcrypt hash: '' (GenerateFromPassword E (reg_Password req) bcryptCost)) (\<lambda>hash.
      attempt (wrapf ''first user check: '' (IsFirstUser E)) (\<lambda>isFirst.
      register_create E secret req hash isFirst)))))"

section \<open>Login and logout\<close>

definition Login :: "'r env \<Rightarrow> string \<Rightarrow> LoginRequest \<Rightarrow> ('r world, AuthResponse) goio" where
  "Login E secret req =
     (if log_Username req = [] \<or> log_Password req = [] then fail (Sentinel ErrMissingFields)
      else
      attempt (map_error (\<lambda>_. Sentinel ErrInvalidCredentials) (GetUserByUsername E (log_Username req))) (\<lambda>user.
      if \<not> u_IsActive user then fail (Sentinel ErrAccountNotActive)
      else if bcrypt_Compare E (u_PasswordHash user) (log_Password req) \<noteq> None
        then fail (Sentinel ErrInvalidCredentials)
      else
      attempt (IssueToken E secret (u_ID user) (u_Username user) (u_IsSystemUser user)) (\<lambda>(tokenStr, _).
      ok \<lparr>auth_User = user, auth_Token = tokenStr\<rparr>)))"

definition Logout :: "'r env \<Rightarrow> string \<Rightarrow> time \<Rightarrow> ('r world, unit) goio" where
  "Logout E jti expiry = BlacklistToken E jti expiry"

section \<open>The session cookie\<close>

definition SetTokenCookie :: "string \<Rightarrow> bool \<Rightarrow> ResponseWriter \<Rightarrow> ResponseWriter" where
  "SetTokenCookie token secure =
     (let sameSite = (if secure then SameSiteNoneMode else SameSiteLaxMode) in
      SetCookie \<lparr>ck_Name = ''vault_token'', ck_Value = token, ck_Path = ''/'', ck_HttpOnly = True,
        ck_Secure = secure, ck_SameSite = sameSite, ck_MaxAge = TokenTTL div Second\<rparr>)"

definition ClearTokenCookie :: "ResponseWriter \<Rightarrow> ResponseWriter" where
  "ClearTokenCookie =
     SetCookie \<lparr>ck_Name = ''vault_token'', ck_Value = [], ck_Path = ''/'', ck_HttpOnly = True,
       ck_Secure = True, ck_SameSite = SameSiteNoneMode, ck_MaxAge = -1\<rparr>"

end
