(* ===== verification/Auth_Props.thy ===== *)
theory Auth_Props
  imports Auth_Service
begin

text \<open>
  What registration and login do: the effect of a registration on the tables on every
  path, and the properties of the authentication service.
\<close>

section \<open>The effect of a registration\<close>

lemma drop_error_eq:
  "drop_error m s = (r, t) \<longleftrightarrow>
     (\<exists>e. m s = (Inl e, t) \<and> r = Inr None) \<or> (\<exists>a. m s = (Inr a, t) \<and> r = Inr (Some a))"
  by (auto simp: drop_error_def split: prod.splits sum.splits)

definition user_added :: "'r env \<Rightarrow> RegisterRequest \<Rightarrow> User \<Rightarrow> db \<Rightarrow> db \<Rightarrow> bool" where
  "user_added E req row d d' \<longleftrightarrow>
     d' = d\<lparr>users := users d @ [row]\<rparr> \<and> u_IsActive row \<and> u_IsSystemUser row = (users d = []) \<and>
     varchar 50 (reg_Username req) = Some (u_Username row) \<and> varchar 255 (reg_Email req) = Some (u_Email row) \<and>
     varchar 100 (reg_FullName req) = Some (u_FullName row) \<and>
     (\<exists>n h. bcrypt_Generate E n (reg_Password req) bcryptCost = Inr h \<and> varchar 255 h = Some (u_PasswordHash row)) \<and>
     u_ID row \<notin> u_ID ` set (users d) \<and> u_Username row \<notin> u_Username ` set (users d) \<and> u_Email row \<notin> u_Email ` set (users d)"

definition account_added :: "uuid \<Rightarrow> Account \<Rightarrow> db \<Rightarrow> db \<Rightarrow> bool" where
  "account_added u row d d' \<longleftrightarrow>
     d' = d\<lparr>accounts := accounts d @ [row]\<rparr> \<and> a_UserID row = u \<and> a_Status row = AccountStatusActive \<and>
     a_Currency row = ''INR'' \<and> a_ID row \<notin> a_ID ` set (accounts d)"

lemma insert_new_user:
  assumes "insert_users (new_user req i h (users d = [])) now d = Inr (x, d')"
    and "bcrypt_Generate E n (reg_Password req) bcryptCost = Inr h"
  shows "\<exists>row. user_added E req row d d' \<and> u_ID row = i"
  using assms(1)
  by (rule insert_users_Inr) (use assms(2) in \<open>force simp: user_added_def new_user_def\<close>)

lemma insert_new_account:
  assumes "insert_accounts (new_account i u) now d = Inr (x, d')"
  shows "\<exists>row. account_added u row d d'"
  using assms by (rule insert_accounts_Inr) (auto simp: account_added_def new_account_def varchar_short)

lemma GenerateFromPassword_Inr:
  "GenerateFromPassword E p c w = (Inr h, w') \<longleftrightarrow>
     bcrypt_Generate E (w_tick w) p c = Inr h \<and> w' = w\<lparr>w_tick := Suc (w_tick w)\<rparr>"
  by (auto simp: GenerateFromPassword_def split: sum.splits)

lemma GenerateFromPassword_run:
  "GenerateFromPassword E p c w = (r, w') \<Longrightarrow> w' = w\<lparr>w_tick := Suc (w_tick w)\<rparr>"
  by (auto simp: GenerateFromPassword_def)

lemma IssueToken_run: "IssueToken E s u n y w = (r, w') \<Longrightarrow> w_db w' = w_db w"
  by (metis token_db(1) snd_conv)


lemma new_uuid_eq [simp]:
  "new_uuid E w = (r, w') \<longleftrightarrow> r = Inr (uuid_New E (w_tick w)) \<and> w' = w\<lparr>w_tick := Suc (w_tick w)\<rparr>"
  by (auto simp: new_uuid_def)

lemma register_create_db:
  assumes "register_create E s req h (users (w_db w) = []) w = (r, w')"
    and "bcrypt_Generate E n (reg_Password req) bcryptCost = Inr h"
  shows "w_db w' = w_db w \<and> (\<exists>e. r = Inl e) \<or>
    (\<exists>row. user_added E req row (w_db w) (w_db w') \<and> (\<exists>e. r = Inl e)) \<or>
    (\<exists>row acct d. user_added E req row (w_db w) d \<and> account_added (u_ID row) acct d (w_db w') \<and>
       (\<forall>res. r = Inr res \<longrightarrow> u_ID (auth_User res) = u_ID row))"
proof -
  let ?i = "uuid_New E (w_tick w)"
  let ?u = "new_user req ?i h (users (w_db w) = [])"
  let ?a = "\<lambda>k. new_account (uuid_New E k) ?i"
  have uid: "u_ID ?u = ?i" by (simp add: new_user_def)
  from assms(1) consider
    (user) e where "CreateUser E ?u (w\<lparr>w_tick := Suc (w_tick w)\<rparr>) = (Inl e, w')" "\<exists>e. r = Inl e"
  | (account) e w1 where "CreateUser E ?u (w\<lparr>w_tick := Suc (w_tick w)\<rparr>) = (Inr (), w1)"
      "CreateAccount E (?a (w_tick w1)) (w1\<lparr>w_tick := Suc (w_tick w1)\<rparr>) = (Inl e, w')" "\<exists>e. r = Inl e"
  | (both) w1 w2 where "CreateUser E ?u (w\<lparr>w_tick := Suc (w_tick w)\<rparr>) = (Inr (), w1)"
      "CreateAccount E (?a (w_tick w1)) (w1\<lparr>w_tick := Suc (w_tick w1)\<rparr>) = (Inr (), w2)" "w_db w' = w_db w2"
      "\<forall>res. r = Inr res \<longrightarrow> u_ID (auth_User res) = ?i"
    by (auto simp: register_create_def Let_def attempt_eq map_error_Inl uid dest!: IssueToken_run)
  then show ?thesis
  proof cases
    case user
    from create_db(1) [OF this(1)] user(2) show ?thesis using insert_new_user [OF _ assms(2)] by fastforce
  next
    case account
    from account(1) obtain row where "user_added E req row (w_db w) (w_db w1)" "u_ID row = ?i"
      by (auto simp: create_Inr dest!: insert_new_user [OF _ assms(2)])
    with create_db(2) [OF account(2)] account(3) show ?thesis using insert_new_account by fastforce
  next
    case both
    from both(1) obtain row where "user_added E req row (w_db w) (w_db w1)" "u_ID row = ?i"
      by (auto simp: create_Inr dest!: insert_new_user [OF _ assms(2)])
    moreover from both(2) obtain acct where "account_added ?i acct (w_db w1) (w_db w2)"
      by (auto simp: create_Inr dest!: insert_new_account)
    ultimately show ?thesis using both(3,4) by metis
  qed
qed

lemma Register_cases:
  assumes "Register E s req w = (r, w')"
  shows "w_db w' = w_db w \<and> (\<exists>e. r = Inl e) \<or>
    (\<exists>n h w1. bcrypt_Generate E n (reg_Password req) bcryptCost = Inr h \<and> w_db w1 = w_db w \<and>
       register_create E s req h (users (w_db w1) = []) w1 = (r, w'))"
  using assms unfolding Register_def
  by (auto simp: attempt_eq drop_error_eq map_error_Inl GenerateFromPassword_Inr IsFirstUser_Inr split: if_splits
      dest!: query_run GenerateFromPassword_run)

lemma Register_db:
  assumes "Register E s req w = (r, w')"
  shows "w_db w' = w_db w \<and> (\<exists>e. r = Inl e) \<or>
    (\<exists>row. user_added E req row (w_db w) (w_db w') \<and> (\<exists>e. r = Inl e)) \<or>
    (\<exists>row acct d. user_added E req row (w_db w) d \<and> account_added (u_ID row) acct d (w_db w') \<and>
       (\<forall>res. r = Inr res \<longrightarrow> u_ID (auth_User res) = u_ID row))"
  using Register_cases [OF assms] register_create_db by metis

lemma booked_grow:
  assumes "booked d" and "transactions d' = transactions d" "ledger d' = ledger d"
    and "set (users d) \<subseteq> set (users d')" "set (accounts d) \<subseteq> set (accounts d')"
  shows "booked d'"
  using assms entered_grow by (auto simp: booked_def list_all_iff entries_of_def)

lemma user_added_bank_ok:
  assumes "user_added E req row d d'" and "bank_ok d"
  shows "bank_ok d'"
proof -
  have "booked d'"
    by (rule booked_grow [of d]) (use assms in \<open>auto simp: user_added_def bank_ok_def\<close>)
  then show ?thesis
    using assms by (auto simp: user_added_def bank_ok_def nonneg_balances_def schema_defs)
qed

lemma account_added_bank_ok:
  assumes "account_added u row d d'" and "u \<in> u_ID ` set (users d)" and "bank_ok d"
  shows "bank_ok d'"
proof -
  have "0 \<le> balance_of (ledger d) a" for a
    using assms(3) nonneg_balances_all by (auto simp: bank_ok_def schema_ok_def)
  moreover have "booked d'"
    by (rule booked_grow [of d]) (use assms in \<open>auto simp: account_added_def bank_ok_def\<close>)
  ultimately show ?thesis
    using assms by (auto simp: account_added_def bank_ok_def nonneg_balances_def schema_defs)
qed

lemma user_added_member: "user_added E req row d d' \<Longrightarrow> u_ID row \<in> u_ID ` set (users d')"
  by (simp add: user_added_def)

lemma Register_taken:
  assumes "pg_reliable F" and "reg_Username req \<in> u_Username ` set (users (w_db v))"
    and "reg_Username req \<noteq> []" "reg_Email req \<noteq> []" "reg_Password req \<noteq> []" "reg_FullName req \<noteq> []"
  shows "Register F secret req v = (Inl (Sentinel ErrUsernameTaken), v\<lparr>w_tick := Suc (w_tick v)\<rparr>)"
proof -
  have "find (\<lambda>u. u_Username u = reg_Username req) (users (w_db v)) \<noteq> None"
    using assms(2) by (auto simp: find_None_iff)
  then show ?thesis
    using assms(1,3-6) by (auto simp: Register_def attempt_def drop_error_def GetUserByUsername_reliable fail_def)
qed

lemma Register_fields:
  "Register E secret req w = (r, w') \<Longrightarrow>
     r = Inl (Sentinel ErrMissingFields) \<and> w' = w \<or>
     reg_Username req \<noteq> [] \<and> reg_Email req \<noteq> [] \<and> reg_Password req \<noteq> [] \<and> reg_FullName req \<noteq> []"
  by (auto simp: Register_def fail_def split: if_splits)

lemma Login_Inr:
  assumes "Login E secret req w = (Inr res, w')"
  shows "\<exists>u w1 jti. find (\<lambda>u. u_Username u = log_Username req) (users (w_db w)) = Some u \<and> u_IsActive u \<and>
     bcrypt_Compare E (u_PasswordHash u) (log_Password req) = None \<and> auth_User res = u \<and> w_db w1 = w_db w \<and>
     IssueToken E secret (u_ID u) (u_Username u) (u_IsSystemUser u) w1 = (Inr (auth_Token res, jti), w') \<and>
     w1 = w\<lparr>w_tick := Suc (w_tick w)\<rparr>"
  using assms
  by (auto simp: Login_def attempt_Inr GetUserByUsername_Inr split: if_splits)

lemma Login_reliable:
  assumes "pg_reliable E" and "find (\<lambda>u. u_Username u = name) (users (w_db w)) = Some u" and "u_IsActive u"
    and "name \<noteq> []" and "pw \<noteq> []"
  shows "fst (Login E secret \<lparr>log_Username = name, log_Password = pw\<rparr> w) =
    (if bcrypt_Compare E (u_PasswordHash u) pw \<noteq> None then Inl (Sentinel ErrInvalidCredentials)
     else case fst (IssueToken E secret (u_ID u) (u_Username u) (u_IsSystemUser u) (w\<lparr>w_tick := Suc (w_tick w)\<rparr>)) of
        Inl e \<Rightarrow> Inl e | Inr (t, _) \<Rightarrow> Inr \<lparr>auth_User = u, auth_Token = t\<rparr>)"
  using assms
  by (auto simp: Login_def attempt_def map_error_def GetUserByUsername_reliable fail_def ok_def
      split: prod.splits sum.splits)

lemma IssueToken_Inl:
  "fst (IssueToken E secret u name sys w) = Inl e \<Longrightarrow> \<exists>m. e = Wrapf ''sign token: '' (Driver m)"
  by (auto simp: IssueToken_def Let_def split: sum.splits)

lemma find_username:
  assumes "schema_ok d" and "u \<in> set (users d)"
  shows "find (\<lambda>y. u_Username y = u_Username u) (users d) = Some u"
  using assms by (intro find_distinct_key) (simp_all add: schema_ok_def users_ok_def)

lemma Register_books:
  assumes "bank_ok (w_db w)"
  shows "let w' = snd (Register E secret req w) in
    bank_ok (w_db w') \<and> ledger (w_db w') = ledger (w_db w) \<and> transactions (w_db w') = transactions (w_db w) \<and>
    total_balance (w_db w') = total_balance (w_db w)"
proof -
  obtain r w' where run: "Register E secret req w = (r, w')" by fastforce
  consider "w_db w' = w_db w" | row where "user_added E req row (w_db w) (w_db w')"
    | row acct d where "user_added E req row (w_db w) d" "account_added (u_ID row) acct d (w_db w')"
    using Register_db [OF run] by blast
  then have "bank_ok (w_db w') \<and> ledger (w_db w') = ledger (w_db w) \<and> transactions (w_db w') = transactions (w_db w) \<and>
    total_balance (w_db w') = total_balance (w_db w)"
  proof cases
    case 1
    then show ?thesis using assms by simp
  next
    case 2
    from user_added_bank_ok [OF this assms] 2 show ?thesis by (simp add: user_added_def total_balance_def)
  next
    case 3
    have ok: "bank_ok d" using 3(1) assms by (rule user_added_bank_ok)
    have "bank_ok (w_db w')"
      using 3(2) user_added_member [OF 3(1)] ok by (rule account_added_bank_ok)
    moreover have "balance_of (ledger d) (a_ID acct) = 0"
      using ok 3(2) by (intro balance_of_unused) (auto simp: account_added_def bank_ok_def schema_defs)
    ultimately show ?thesis
      using 3 by (auto simp: user_added_def account_added_def total_balance_def)
  qed
  then show ?thesis using run by simp
qed

section \<open>A sample registration\<close>

definition sample_reg :: RegisterRequest where
  "sample_reg = \<lparr>reg_Username = ''carol'', reg_Email = ''c@x'', reg_Password = ''pw3'', reg_FullName = ''Carol''\<rparr>"

definition sample_reg_res :: AuthResponse where
  "sample_reg_res = projr (fst (Register sample_env ''secret'' sample_reg sample_world))"

definition sample_reg_after :: "sample_redis world" where
  "sample_reg_after = snd (Register sample_env ''secret'' sample_reg sample_world)"

lemmas sample_run_defs = attempt_def drop_error_def map_error_def fail_def ok_def new_uuid_def GetUserByUsername_def
  GetUserByEmail_def IsFirstUser_def CreateUser_def CreateAccount_def GenerateFromPassword_def db_stmt_def select_def
  pg_text_ascii in_range_def insert_users_def insert_accounts_def new_user_def new_account_def varchar_short IssueToken_def issue_claims_def
  sample_sign_def Let_def sample_env_def sample_world_def sample_db_defs TokenTTL_def Hour_def Second_def

lemma sample_registration:
  "Register sample_env ''secret'' sample_reg sample_world = (Inr sample_reg_res, sample_reg_after)"
proof -
  have "\<not> isl (fst (Register sample_env ''secret'' sample_reg sample_world))"
    by (simp add: Register_def register_create_def sample_run_defs sample_reg_def)
  then show ?thesis unfolding sample_reg_res_def sample_reg_after_def by (simp add: prod_eq_iff)
qed

lemma sample_reg_schema: "schema_ok (w_db sample_reg_after)"
  using Register_books [of sample_world sample_env "''secret''" sample_reg] sample_bank_ok
  by (simp add: Let_def bank_ok_def sample_reg_after_def sample_world_def)

section \<open>Properties\<close>

text \<open>
  Property C22. A registration that reports success has added exactly two rows: an active user with the
  requested name, email and full name (as the columns keep them), a hash of the password made with
  cost 12 and an identifier, name and email no other user has; and one active INR account
  of that user. The response names that user.
\<close>

theorem register_creates_customer:
  assumes "Register E secret req w = (Inr res, w')"
  shows "\<exists>row acct d. u_ID row = u_ID (auth_User res) \<and> user_added E req row (w_db w) d \<and>
    account_added (u_ID row) acct d (w_db w') \<and> w_db w' = (w_db w)\<lparr>users := users (w_db w) @ [row], accounts := accounts (w_db w) @ [acct]\<rparr>"
proof -
  from Register_db [OF assms] obtain row acct d where "u_ID row = u_ID (auth_User res)" "user_added E req row (w_db w) d"
    "account_added (u_ID row) acct d (w_db w')" by auto
  moreover from this have "w_db w' = (w_db w)\<lparr>users := users (w_db w) @ [row], accounts := accounts (w_db w) @ [acct]\<rparr>"
    by (simp add: user_added_def account_added_def)
  ultimately show ?thesis by blast
qed

theorem register_creates_customer_witness:
  "Register sample_env ''secret'' sample_reg sample_world = (Inr sample_reg_res, sample_reg_after) \<and>
   (\<exists>row acct. u_ID row = u_ID (auth_User sample_reg_res) \<and>
      w_db sample_reg_after = sample_db\<lparr>users := users sample_db @ [row], accounts := accounts sample_db @ [acct]\<rparr>)"
  using register_creates_customer [OF sample_registration] sample_registration by (auto simp: sample_world_def)

text \<open>
  Property C23. A registration, successful or not, keeps the invariant of the bank and touches neither
  transactions nor ledger; the sum of all balances stays the same, so the new account is empty.
\<close>

theorem register_keeps_bank_ok:
  assumes "bank_ok (w_db w)"
  shows "let w' = snd (Register E secret req w) in
    bank_ok (w_db w') \<and> ledger (w_db w') = ledger (w_db w) \<and> transactions (w_db w') = transactions (w_db w) \<and>
    total_balance (w_db w') = total_balance (w_db w)"
  using assms by (rule Register_books)

theorem register_keeps_bank_ok_witness:
  "bank_ok (w_db sample_world) \<and> bank_ok (w_db sample_reg_after) \<and>
   total_balance (w_db sample_reg_after) = total_balance (w_db sample_world)"
  using register_keeps_bank_ok [of sample_world sample_env "''secret''" sample_reg] sample_bank_ok
  by (simp add: sample_world_def sample_reg_after_def Let_def)

text \<open>
  Property C25. Once there is a user, the seeded system user for one, no registration adds a system user:
  the promotion of the first user never happens on a database made from the schema.
\<close>

theorem register_never_promotes:
  assumes "users (w_db w) \<noteq> []"
  shows "filter u_IsSystemUser (users (w_db (snd (Register E secret req w)))) = filter u_IsSystemUser (users (w_db w))"
proof -
  obtain r w' where run: "Register E secret req w = (r, w')" by fastforce
  from Register_db [OF run] show ?thesis using run assms by (auto simp: user_added_def account_added_def)
qed

theorem register_never_promotes_witness:
  "users (w_db sample_world) \<noteq> [] \<and>
   filter u_IsSystemUser (users (w_db sample_reg_after)) = filter u_IsSystemUser (users (w_db sample_world))"
proof -
  have "users (w_db sample_world) \<noteq> []" by (simp add: sample_world_def sample_db_def)
  from register_never_promotes [OF this] this show ?thesis by (simp add: sample_reg_after_def)
qed

text \<open>
  Property C24. A registration that fails after it changed the database leaves an active user behind, and
  repeating the request is refused because the name is taken: the two inserts are not one transaction.
\<close>

theorem register_not_atomic:
  assumes "Register E secret req w = (Inl e, w')" and "w_db w' \<noteq> w_db w"
    and "varchar 50 (reg_Username req) = Some (reg_Username req)" and "pg_reliable F" and "w_db v = w_db w'"
  shows "(\<exists>row. users (w_db w') = users (w_db w) @ [row] \<and> u_Username row = reg_Username req \<and> u_IsActive row) \<and>
    fst (Register F secret req v) = Inl (Sentinel ErrUsernameTaken) \<and> w_db (snd (Register F secret req v)) = w_db w'"
proof -
  from Register_db [OF assms(1)] assms(2,3) obtain row where
    row: "users (w_db w') = users (w_db w) @ [row]" "u_Username row = reg_Username req" "u_IsActive row"
    by (auto simp: user_added_def account_added_def)
  then have taken: "reg_Username req \<in> u_Username ` set (users (w_db v))"
    using assms(5) by (metis image_eqI in_set_conv_decomp)
  have "Register F secret req v = (Inl (Sentinel ErrUsernameTaken), v\<lparr>w_tick := Suc (w_tick v)\<rparr>)"
    using Register_fields [OF assms(1)] assms(2) by (intro Register_taken assms(4) taken) auto
  with row assms(5) show ?thesis by simp
qed

text \<open>The connection is lost between the two inserts.\<close>

definition faulty_env :: "sample_redis env" where
  "faulty_env = sample_env\<lparr>pg_outcome := (\<lambda>n. if n = 7 then PgFail ''connection reset'' else PgOk)\<rparr>"

definition faulty_after :: "sample_redis world" where
  "faulty_after = snd (Register faulty_env ''secret'' sample_reg sample_world)"

lemma faulty_registration:
  "Register faulty_env ''secret'' sample_reg sample_world =
     (Inl (Wrapf ''create default account: '' (Wrapf ''create account: '' (Driver ''connection reset''))), faulty_after)"
proof (rule prod_eqI)
  show "fst (Register faulty_env ''secret'' sample_reg sample_world) = fst
     (Inl (Wrapf ''create default account: '' (Wrapf ''create account: '' (Driver ''connection reset''))), faulty_after)"
    by code_simp
qed (simp add: faulty_after_def)

lemma faulty_users: "length (users (w_db faulty_after)) = 4 \<and> length (accounts (w_db faulty_after)) = 3"
  by code_simp

theorem register_not_atomic_witness:
  "(\<exists>e. fst (Register faulty_env ''secret'' sample_reg sample_world) = Inl e) \<and>
   length (users (w_db faulty_after)) = 4 \<and> length (accounts (w_db faulty_after)) = 3 \<and>
   fst (Register sample_env ''secret'' sample_reg faulty_after) = Inl (Sentinel ErrUsernameTaken)"
proof -
  have "length (users (w_db sample_world)) = 3" by (simp add: sample_world_def sample_db_defs)
  then have "w_db faulty_after \<noteq> w_db sample_world" using faulty_users by auto
  moreover have "varchar 50 (reg_Username sample_reg) = Some (reg_Username sample_reg)"
    by (simp add: varchar_short sample_reg_def)
  ultimately show ?thesis
    using register_not_atomic [OF faulty_registration _ _ sample_reliable refl] faulty_users faulty_registration by simp
qed

text \<open>
  Property C26. Register, then log in: with the registered name and password \<open>Login\<close> finds the
  registered user and fails only if the token cannot be signed.
\<close>

theorem register_login_roundtrip:
  assumes "bcrypt_spec E" and "pg_reliable E" and "Register E secret req w = (Inr res, w')"
    and "varchar 50 (reg_Username req) = Some (reg_Username req)"
    and "set (users (w_db w')) \<subseteq> set (users (w_db v))" and "schema_ok (w_db v)"
  shows "case fst (Login E secret \<lparr>log_Username = reg_Username req, log_Password = reg_Password req\<rparr> v) of
      Inr lres \<Rightarrow> u_ID (auth_User lres) = u_ID (auth_User res) \<and> u_Username (auth_User lres) = reg_Username req
    | Inl e \<Rightarrow> \<exists>m. e = Wrapf ''sign token: '' (Driver m)"
proof -
  from Register_db [OF assms(3)] obtain row acct d where
    row: "user_added E req row (w_db w) d" "account_added (u_ID row) acct d (w_db w')" "u_ID (auth_User res) = u_ID row"
    by auto
  then have name: "u_Username row = reg_Username req" and act: "u_IsActive row" and mem: "row \<in> set (users (w_db v))"
    using assms(4,5) by (auto simp: user_added_def account_added_def)
  have hash: "bcrypt_Compare E (u_PasswordHash row) (reg_Password req) = None"
    using row(1) assms(1) by (auto simp: user_added_def bcrypt_spec_def)
  have ne: "reg_Username req \<noteq> []" "reg_Password req \<noteq> []"
    using Register_fields [OF assms(3)] by auto
  have "find (\<lambda>u. u_Username u = reg_Username req) (users (w_db v)) = Some row"
    using find_username [OF assms(6) mem] name by simp
  from Login_reliable [OF assms(2) this act ne, of secret] hash row(3) name show ?thesis
    by (auto split: sum.splits prod.splits dest: IssueToken_Inl)
qed

theorem register_login_roundtrip_witness:
  "case fst (Login sample_env ''secret'' \<lparr>log_Username = reg_Username sample_reg, log_Password = reg_Password sample_reg\<rparr>
       sample_reg_after) of
      Inr lres \<Rightarrow> u_ID (auth_User lres) = u_ID (auth_User sample_reg_res) \<and> u_Username (auth_User lres) = reg_Username sample_reg
    | Inl e \<Rightarrow> \<exists>m. e = Wrapf ''sign token: '' (Driver m)"
proof -
  have "varchar 50 (reg_Username sample_reg) = Some (reg_Username sample_reg)"
    by (simp add: varchar_short sample_reg_def)
  then show ?thesis
    by (rule register_login_roundtrip [OF sample_bcrypt sample_reliable sample_registration])
      (simp_all add: sample_reg_schema)
qed

text \<open>
  Property C27. A login that reports success names an active user of the table with the given name whose
  hash accepts the password, changes nothing, and hands out a token that validates as that
  user's until it expires.
\<close>

theorem login_sound:
  assumes "jwt_spec E" and "Login E secret req w = (Inr res, w')"
  shows "auth_User res \<in> set (users (w_db w)) \<and> u_Username (auth_User res) = log_Username req \<and>
    u_IsActive (auth_User res) \<and> bcrypt_Compare E (u_PasswordHash (auth_User res)) (log_Password req) = None \<and>
    w_db w' = w_db w \<and> w_redis w' = w_redis w \<and>
    (\<forall>v. time_Now E (w_tick v) \<le> time_Now E (w_tick w + 2) + TokenTTL - Second \<longrightarrow>
       (\<exists>c. fst (ValidateToken E secret (auth_Token res) v) = Inr c \<and> c_UserID c = u_ID (auth_User res) \<and>
            c_IsSystemUser c = u_IsSystemUser (auth_User res)))"
proof -
  from Login_Inr [OF assms(2)] obtain u w1 jti where
    u: "find (\<lambda>u. u_Username u = log_Username req) (users (w_db w)) = Some u" "u_IsActive u"
      "bcrypt_Compare E (u_PasswordHash u) (log_Password req) = None" "auth_User res = u" and
    iss: "IssueToken E secret (u_ID u) (u_Username u) (u_IsSystemUser u) w1 = (Inr (auth_Token res, jti), w')" and
    w1: "w1 = w\<lparr>w_tick := Suc (w_tick w)\<rparr>"
    by blast
  have "\<exists>c. fst (ValidateToken E secret (auth_Token res) v) = Inr c \<and> c_UserID c = u_ID u \<and> c_IsSystemUser c = u_IsSystemUser u"
    if "time_Now E (w_tick v) \<le> time_Now E (w_tick w + 2) + TokenTTL - Second" for v
    using issued_token(1) [OF assms(1) iss, of v] that by (simp add: w1 issue_claims_def)
  moreover have "w_db w' = w_db w" "w_redis w' = w_redis w"
    using iss unfolding IssueToken_Inr w1 by simp_all
  ultimately show ?thesis using u by (auto dest!: find_SomeD)
qed

definition sample_login :: LoginRequest where
  "sample_login = \<lparr>log_Username = ''alice'', log_Password = ''pw''\<rparr>"

definition sample_login_res :: AuthResponse where
  "sample_login_res = projr (fst (Login sample_env ''secret'' sample_login sample_world))"

lemma sample_login_run:
  "Login sample_env ''secret'' sample_login sample_world =
     (Inr sample_login_res, snd (Login sample_env ''secret'' sample_login sample_world))"
proof -
  have "\<not> isl (fst (Login sample_env ''secret'' sample_login sample_world))"
    by (simp add: Login_def sample_run_defs sample_login_def)
  then show ?thesis unfolding sample_login_res_def by (simp add: prod_eq_iff)
qed

theorem login_sound_witness:
  "jwt_spec sample_env \<and> auth_User sample_login_res \<in> set (users sample_db) \<and>
   u_Username (auth_User sample_login_res) = ''alice''"
  using login_sound [OF sample_jwt sample_login_run] sample_jwt by (simp add: sample_world_def sample_login_def)

end
