(* ===== verification/Middleware_Interface.thy ===== *)
theory Middleware_Interface
  imports Http Books
begin

text \<open>
  What every middleware of the program promises: for each request it either answers itself
  or passes the request on, and on its own it does not touch the database. From this law
  follow, once for all middlewares and their compositions, that an invariant of the
  database kept by the inner handler is kept by the wrapped one, and that the wrapped
  handler never does more to the database than the inner one.
\<close>

definition guard_law :: "('r handler \<Rightarrow> 'r handler) \<Rightarrow> bool" where
  "guard_law wrap \<longleftrightarrow>
     (\<forall>next r s. (\<exists>s'. wrap next r s = (Inr (), s') \<and> w_db (snd s') = w_db (snd s)) \<or>
                 (\<exists>r' s'. wrap next r s = next r' s' \<and> w_db (snd s') = w_db (snd s)))"

locale guard =
  fixes wrap :: "'r handler \<Rightarrow> 'r handler"
  assumes guards: "guard_law wrap"
begin

lemma wrap_cases:
  obtains (answers) s' where "wrap next r s = (Inr (), s')" and "w_db (snd s') = w_db (snd s)"
  | (passes) r' s' where "wrap next r s = next r' s'" and "w_db (snd s') = w_db (snd s)"
  using guards unfolding guard_law_def by metis

lemma wrap_keeps:
  assumes "\<And>r. keeps (world_inv I) (next r)"
  shows "keeps (world_inv I) (wrap next r)"
proof (rule keepsI)
  fix s :: "'r served" assume inv: "I (w_db (snd s))"
  show "I (w_db (snd (snd (wrap next r s))))"
  proof (cases rule: wrap_cases [of "next" r s])
    case (answers s')
    with inv show ?thesis by simp
  next
    case (passes r' s')
    with inv have "I (w_db (snd s'))" by simp
    with passes(1) show ?thesis using keepsD [OF assms, of s' r'] by simp
  qed
qed

lemma wrap_frames:
  assumes "\<And>r. frames (\<lambda>s t. R (w_db (snd s)) (w_db (snd t))) (next r)" and "reflp R"
  shows "frames (\<lambda>s t. R (w_db (snd s)) (w_db (snd t))) (wrap next r)"
proof (rule framesI)
  fix s :: "'r served"
  show "R (w_db (snd s)) (w_db (snd (snd (wrap next r s))))"
  proof (cases rule: wrap_cases [of "next" r s])
    case (answers s')
    with reflpD [OF assms(2)] show ?thesis by simp
  next
    case (passes r' s')
    then show ?thesis using assms(1) [of r'] by (metis frames_def)
  qed
qed

end

text \<open>Two middlewares, one around the other, are a middleware.\<close>

locale guard_pair = outer: guard wrap + inner: guard wrap'
  for wrap wrap' :: "'r handler \<Rightarrow> 'r handler"

sublocale guard_pair \<subseteq> pair: guard "\<lambda>next. wrap (wrap' next)"
proof unfold_locales
  show "guard_law (\<lambda>next. wrap (wrap' next))"
    unfolding guard_law_def
  proof (intro allI)
    fix "next" :: "'r handler" and r s
    show "(\<exists>s'. wrap (wrap' next) r s = (Inr (), s') \<and> w_db (snd s') = w_db (snd s)) \<or>
      (\<exists>r' s'. wrap (wrap' next) r s = next r' s' \<and> w_db (snd s') = w_db (snd s))"
      by (rule outer.wrap_cases [of "wrap' next" r s]; metis inner.wrap_cases)
  qed
qed

end
