(* ===== verification/Auth_Middleware.thy ===== *)
theory Auth_Middleware
  imports Token_Manager Middleware_Interface
begin

text \<open>
  internal/auth/middleware.go: the session check in front of the protected routes, and the
  values it puts in the request context.
\<close>

definition cookieName :: string where
  "cookieName = ''vault_token''"

definition writeAuthError :: "int \<Rightarrow> string \<Rightarrow> ResponseWriter \<Rightarrow> ResponseWriter" where
  "writeAuthError status msg rw =
     Encode (error_body msg) (WriteHeader status (header_Set ''Content-Type'' ''application/json'' rw))"

text \<open>A missing context value reads as the zero value of its type.\<close>

definition UserIDFromCtx :: "context_values \<Rightarrow> uuid" where
  "UserIDFromCtx ctx = (case ctx_UserID ctx of None \<Rightarrow> uuid_Nil | Some v \<Rightarrow> v)"

definition UsernameFromCtx :: "context_values \<Rightarrow> string" where
  "UsernameFromCtx ctx = (case ctx_Username ctx of None \<Rightarrow> [] | Some v \<Rightarrow> v)"

definition JTIFromCtx :: "context_values \<Rightarrow> string" where
  "JTIFromCtx ctx = (case ctx_JTI ctx of None \<Rightarrow> [] | Some v \<Rightarrow> v)"

definition has_frozen :: "db \<Rightarrow> uuid \<Rightarrow> bool" where
  "has_frozen d u \<longleftrightarrow> list_ex (\<lambda>a. a_UserID a = u \<and> a_Status a = AccountStatusFrozen) (accounts d)"

definition isAccountFrozen :: "'r env \<Rightarrow> uuid \<Rightarrow> ('r world, bool) goio" where
  "isAccountFrozen E userID =
     wrapf ''check frozen: '' (db_stmt E (\<lambda>_. select (\<lambda>d. has_frozen d userID)))"

definition with_claims :: "Claims \<Rightarrow> request \<Rightarrow> request" where
  "with_claims claims r = r\<lparr>rq_Context := (rq_Context r)\<lparr>ctx_UserID := Some (c_UserID claims),
     ctx_Username := Some (c_Username claims), ctx_JTI := Some (c_ID claims)\<rparr>\<rparr>"

definition Protect :: "'r env \<Rightarrow> string \<Rightarrow> 'r handler \<Rightarrow> 'r handler" where
  "Protect E secret next r =
     (case request_Cookie r cookieName of
        None \<Rightarrow> respond (writeAuthError 401 ''missing authentication cookie'')
      | Some cookie \<Rightarrow>
         attempt (call (ValidateToken E secret cookie)) (\<lambda>res. case res of
           Inl _ \<Rightarrow> respond (writeAuthError 401 ''invalid or expired token'')
         | Inr claims \<Rightarrow>
         attempt (call (IsBlacklisted E (c_ID claims))) (\<lambda>res. case res of
           Inl _ \<Rightarrow> respond (writeAuthError 500 ''authentication error'')
         | Inr blacklisted \<Rightarrow>
         if blacklisted then respond (writeAuthError 401 ''token has been revoked'') else
         attempt (call (isAccountFrozen E (c_UserID claims))) (\<lambda>res. case res of
           Inl _ \<Rightarrow> respond (writeAuthError 500 ''authentication error'')
         | Inr frozen \<Rightarrow>
         if frozen then respond (writeAuthError 403 ''account is frozen'')
         else next (with_claims claims r)))))"

section \<open>How a run goes\<close>

lemma isAccountFrozen_run: "snd (isAccountFrozen E u w) = w\<lparr>w_tick := Suc (w_tick w)\<rparr>"
  by (cases "pg_outcome E (w_tick w)") (simp_all add: isAccountFrozen_def db_stmt_def select_def)

lemma isAccountFrozen_Inr:
  "isAccountFrozen E u w = (Inr b, w') \<longleftrightarrow>
     pg_outcome E (w_tick w) = PgOk \<and> w' = w\<lparr>w_tick := Suc (w_tick w)\<rparr> \<and> b = has_frozen (w_db w) u"
  by (auto simp: isAccountFrozen_def db_stmt_Inr select_def)

text \<open>
  The refusals of \<open>Protect\<close>: status and message. A run either refuses, or reaches the
  inner handler after each check has passed, with the claims in the context.
\<close>

definition auth_refusals :: "(int \<times> string) set" where
  "auth_refusals = {(401, ''missing authentication cookie''), (401, ''invalid or expired token''),
     (401, ''token has been revoked''), (500, ''authentication error''), (403, ''account is frozen'')}"

definition admitted :: "'r env \<Rightarrow> string \<Rightarrow> request \<Rightarrow> Claims \<Rightarrow> 'r world \<Rightarrow> 'r world \<Rightarrow> bool" where
  "admitted E secret r claims w w' \<longleftrightarrow>
     (\<exists>cookie w1 w2. request_Cookie r cookieName = Some cookie \<and> ValidateToken E secret cookie w = (Inr claims, w1) \<and>
        IsBlacklisted E (c_ID claims) w1 = (Inr False, w2) \<and> isAccountFrozen E (c_UserID claims) w2 = (Inr False, w'))"

lemma Protect_cases:
  obtains (refuses) c m w' where "Protect E secret next r s = (Inr (), (writeAuthError c m (fst s), w'))"
      "(c, m) \<in> auth_refusals" "w_db w' = w_db (snd s)"
  | (passes) claims w' where "Protect E secret next r s = next (with_claims claims r) (fst s, w')"
      "admitted E secret r claims (snd s) w'"
proof -
  obtain v1 w1 where val: "ValidateToken E secret (the (request_Cookie r cookieName)) (snd s) = (v1, w1)" by fastforce
  obtain v2 w2 where bl: "IsBlacklisted E (c_ID (projr v1)) w1 = (v2, w2)" by fastforce
  obtain v3 w3 where fr: "isAccountFrozen E (c_UserID (projr v1)) w2 = (v3, w3)" by fastforce
  have db: "w_db w1 = w_db (snd s)" "w_db w2 = w_db w1" "w_db w3 = w_db w2"
    using token_db(2) [of E secret "the (request_Cookie r cookieName)" "snd s"] val token_db(4) [of E "c_ID (projr v1)" w1] bl
      isAccountFrozen_run [of E "c_UserID (projr v1)" w2] fr by simp_all
  show thesis
  proof (cases "request_Cookie r cookieName")
    case None
    then show thesis by (intro refuses) (auto simp: Protect_def auth_refusals_def)
  next
    case cookie: (Some c)
    note run = Protect_def attempt_def call_def cookie
    show thesis
    proof (cases v1)
      case (Inl e)
      then show thesis using val cookie db
        by (intro refuses [of 401 "''invalid or expired token''" w1]) (auto simp: run auth_refusals_def)
    next
      case claims: (Inr c)
      show thesis
      proof (cases v2)
        case (Inl e)
        then show thesis using val bl cookie claims db
          by (intro refuses [of 500 "''authentication error''" w2]) (auto simp: run auth_refusals_def)
      next
        case black: (Inr b)
        show thesis
        proof (cases b)
          case True
          then show thesis using val bl cookie claims black db
            by (intro refuses [of 401 "''token has been revoked''" w2]) (auto simp: run auth_refusals_def)
        next
          case False
          note facts = val bl fr cookie claims black db False
          consider (error) e where "v3 = Inl e" | (frozen) "v3 = Inr True" | (clear) "v3 = Inr False"
            by (cases v3) auto
          then show thesis
          proof cases
            case error
            with facts show thesis
              by (intro refuses [of 500 "''authentication error''" w3]) (auto simp: run auth_refusals_def)
          next
            case frozen
            with facts show thesis
              by (intro refuses [of 403 "''account is frozen''" w3]) (auto simp: run auth_refusals_def)
          next
            case clear
            with facts show thesis
              by (intro passes [of c w3]) (auto simp: run admitted_def)
          qed
        qed
      qed
    qed
  qed
qed

lemma token_run:
  "ValidateToken E secret t w = (r, w') \<Longrightarrow> w_db w' = w_db w"
  "IsBlacklisted E jti w = (b, w') \<Longrightarrow> w_db w' = w_db w"
  by (metis token_db snd_conv)+

lemma admitted_db: "admitted E secret r c w w' \<Longrightarrow> w_db w' = w_db w"
  by (auto simp: admitted_def isAccountFrozen_Inr dest!: token_run)

interpretation protect: guard "Protect E secret" for E secret
proof unfold_locales
  show "guard_law (Protect E secret)"
    unfolding guard_law_def
  proof (intro allI)
    fix "next" r s
    show "(\<exists>s'. Protect E secret next r s = (Inr (), s') \<and> w_db (snd s') = w_db (snd s)) \<or>
      (\<exists>r' s'. Protect E secret next r s = next r' s' \<and> w_db (snd s') = w_db (snd s))"
      by (rule Protect_cases [of E secret "next" r s]) (auto dest: admitted_db)
  qed
qed

section \<open>Properties\<close>

text \<open>
  Property C15. What \<open>Protect\<close> guarantees to the handler behind it: either the request
  is refused with one of five answers, the handler is not run and the database is
  untouched; or the handler runs, on the same tables and an untouched response, with the
  claims of a valid cookie token in its context, whose identifier is not revoked and whose
  user has no frozen account.
\<close>

theorem protect_admits_live_sessions:
  assumes "redis_kv_spec E kv"
  shows "(\<exists>c m w'. (c, m) \<in> auth_refusals \<and> Protect E secret next r s = (Inr (), (writeAuthError c m (fst s), w')) \<and>
       w_db w' = w_db (snd s)) \<or>
    (\<exists>claims cookie w'. Protect E secret next r s = next (with_claims claims r) (fst s, w') \<and>
       w_db w' = w_db (snd s) \<and> request_Cookie r cookieName = Some cookie \<and>
       fst (ValidateToken E secret cookie (snd s)) = Inr claims \<and>
       kv (w_redis (snd s)) (Suc (w_tick (snd s))) (blacklistPrefix @ c_ID claims) = None \<and>
       \<not> has_frozen (w_db (snd s)) (c_UserID claims))"
proof (cases rule: Protect_cases [of E secret "next" r s])
  case (refuses c m w')
  then show ?thesis by blast
next
  case (passes claims w')
  from passes(2) obtain cookie w1 w2 where
    run: "request_Cookie r cookieName = Some cookie" "ValidateToken E secret cookie (snd s) = (Inr claims, w1)"
      "IsBlacklisted E (c_ID claims) w1 = (Inr False, w2)" "isAccountFrozen E (c_UserID claims) w2 = (Inr False, w')"
    by (auto simp: admitted_def)
  have w1: "w1 = (snd s)\<lparr>w_tick := Suc (w_tick (snd s))\<rparr>"
    using run(2) by (rule ValidateToken_tick)
  have "kv (w_redis w1) (w_tick w1) (blacklistPrefix @ c_ID claims) = None"
    using IsBlacklisted_Inr [OF assms run(3)] by simp
  moreover have "\<not> has_frozen (w_db (snd s)) (c_UserID claims)"
    using run(3,4) by (auto simp: isAccountFrozen_Inr w1 dest!: token_run)
  ultimately show ?thesis
    using passes(1) admitted_db [OF passes(2)] run(1,2) by (auto simp: w1)
qed

text \<open>
  Property C16. A revoked session: while the blacklist key of its token is live, a request
  with that token never reaches the handler; the answer is 401 ``token has been revoked'',
  or 500 when Redis does not answer.
\<close>

theorem revoked_session_refused:
  assumes "redis_kv_spec E kv" and "request_Cookie r cookieName = Some cookie"
    and "fst (ValidateToken E secret cookie (snd s)) = Inr claims"
    and "kv (w_redis (snd s)) (Suc (w_tick (snd s))) (blacklistPrefix @ c_ID claims) \<noteq> None"
  shows "\<exists>w'. Protect E secret next r s = (Inr (), (writeAuthError 401 ''token has been revoked'' (fst s), w')) \<or>
    Protect E secret next r s = (Inr (), (writeAuthError 500 ''authentication error'' (fst s), w'))"
proof -
  obtain w1 where val: "ValidateToken E secret cookie (snd s) = (Inr claims, w1)"
    using assms(3) by (metis prod.collapse)
  have w1: "w1 = (snd s)\<lparr>w_tick := Suc (w_tick (snd s))\<rparr>"
    using val by (rule ValidateToken_tick)
  obtain v w2 where bl: "IsBlacklisted E (c_ID claims) w1 = (v, w2)" by fastforce
  have "b = True" if "v = Inr b" for b
    using IsBlacklisted_Inr [OF assms(1), of "c_ID claims" w1 b w2] bl assms(4) that by (simp add: w1)
  then have "v = Inr True \<or> (\<exists>e. v = Inl e)" by (cases v) auto
  then show ?thesis
    using assms(2) val bl by (auto simp: Protect_def attempt_def call_def)
qed

text \<open>A request with Alice's token, and her token revoked.\<close>

definition sample_request :: request where
  "sample_request = \<lparr>rq_Method = ''GET'', rq_Path = ''/api/v1/accounts'', rq_PathID = [], rq_Header = [], rq_Query = [],
     rq_Cookies = [(''vault_token'', sample_token)], rq_RemoteAddr = ''10.0.0.1:5000'', rq_Body = [],
     rq_Context = ctx_Background\<rparr>"

definition revoked_world :: "sample_redis world" where
  "revoked_world = sample_world\<lparr>w_redis := \<lparr>sr_keys = [(blacklistPrefix @ sample_uuid_String 1000, ''blacklisted'')],
     sr_sets = []\<rparr>, w_tick := 3\<rparr>"

lemma sample_token_valid:
  "fst (ValidateToken sample_env ''secret'' sample_token (v\<lparr>w_tick := 3\<rparr>)) =
     Inr (issue_claims sample_env 10 ''alice'' False (sample_uuid_String 1000) Second)"
  using issued_token(1) [OF sample_jwt sample_issue, of "v\<lparr>w_tick := 3\<rparr>"]
  by (simp add: sample_env_def sample_world_def TokenTTL_def Hour_def Second_def)

theorem protect_admits_live_sessions_witness:
  "redis_kv_spec sample_env sr_kv \<and>
   (\<exists>(claims :: Claims) w'. Protect sample_env ''secret'' (\<lambda>_. respond (WriteHeader 200)) sample_request
       (new_response, sample_world\<lparr>w_tick := 3\<rparr>) = (Inr (), (WriteHeader 200 new_response, w')) \<and>
     \<not> has_frozen sample_db (c_UserID claims))"
proof -
  let ?s = "(new_response, sample_world\<lparr>w_tick := 3\<rparr>)"
  have served: "rw_Status (fst (snd (Protect sample_env ''secret'' (\<lambda>_. respond (WriteHeader 200)) sample_request ?s))) = Some 200"
  proof -
    obtain w1 where "ValidateToken sample_env ''secret'' sample_token (sample_world\<lparr>w_tick := 3\<rparr>) =
        (Inr (issue_claims sample_env 10 ''alice'' False (sample_uuid_String 1000) Second), w1)"
      using sample_token_valid [of sample_world] by (metis prod.collapse)
    moreover from this have "w1 = sample_world\<lparr>w_tick := 4\<rparr>"
      using ValidateToken_tick by fastforce
    ultimately show ?thesis
      by (simp add: Protect_def sample_request_def request_Cookie_def cookieName_def attempt_def call_def IsBlacklisted_def
          map_error_def isAccountFrozen_def db_stmt_def select_def has_frozen_def sample_env_def sample_world_def sample_db_defs
          issue_claims_def WriteHeader_def)
  qed
  have refused: "(c, m) \<in> auth_refusals \<Longrightarrow> rw_Status (writeAuthError c m new_response) \<noteq> Some 200" for c m
    by (auto simp: auth_refusals_def writeAuthError_def WriteHeader_def)
  from protect_admits_live_sessions [OF sample_redis_kv, of "''secret''" "\<lambda>_. respond (WriteHeader 200)" sample_request ?s]
  show ?thesis using served refused sample_redis_kv by (auto simp: sample_world_def)
qed

theorem revoked_session_refused_witness:
  "\<exists>w'. Protect sample_env ''secret'' (\<lambda>_. fail ''unreachable'') sample_request (new_response, revoked_world) =
      (Inr (), (writeAuthError 401 ''token has been revoked'' new_response, w')) \<or>
    Protect sample_env ''secret'' (\<lambda>_. fail ''unreachable'') sample_request (new_response, revoked_world) =
      (Inr (), (writeAuthError 500 ''authentication error'' new_response, w'))"
proof -
  have "request_Cookie sample_request cookieName = Some sample_token"
    by (simp add: request_Cookie_def sample_request_def cookieName_def)
  moreover have "fst (ValidateToken sample_env ''secret'' sample_token (snd (new_response, revoked_world))) =
      Inr (issue_claims sample_env 10 ''alice'' False (sample_uuid_String 1000) Second)"
    using sample_token_valid by (simp add: revoked_world_def)
  ultimately show ?thesis
    using revoked_session_refused [OF sample_redis_kv, of sample_request sample_token "''secret''" "(new_response, revoked_world)"]
    by (simp add: revoked_world_def sr_kv_def issue_claims_def)
qed

end
