(* ===== verification/Rate_Limiter.thy ===== *)
theory Rate_Limiter
  imports Middleware_Interface Sample_Env
begin

text \<open>
  internal/middleware/ratelimit.go: a sliding window per client and route, kept as a sorted
  set in Redis whose members are the times of the requests.
\<close>

section \<open>The limiter\<close>

record RateLimiterConfig =
  MaxRequests :: int
  Window :: duration

definition extractIP :: "request \<Rightarrow> string" where
  "extractIP r =
     (let xff = Get (rq_Header r) ''X-Forwarded-For''; xri = Get (rq_Header r) ''X-Real-Ip'' in
      if xff \<noteq> [] then xff else if xri \<noteq> [] then xri else rq_RemoteAddr r)"

definition limit_key :: "string \<Rightarrow> string \<Rightarrow> string" where
  "limit_key ip route = ''vault:ratelimit:'' @ ip @ '':'' @ route"

text \<open>
  The pipeline is one round trip. The limit of the removal is sent as the decimal number,
  the score as the double it was converted to. \<open>cardCmd.Val()\<close> is the second reply.
\<close>

definition check_pipe :: "RateLimiterConfig \<Rightarrow> string \<Rightarrow> time \<Rightarrow> redis_cmd list" where
  "check_pipe cfg key now =
     [ZRemRangeByScore key (now - Window cfg), ZCard key, ZAdd key (float64_of_int now) (FormatInt now),
      Expire key (Window cfg + Second)]"

definition check :: "'r env \<Rightarrow> RateLimiterConfig \<Rightarrow> string \<Rightarrow> time \<Rightarrow> ('r world, bool \<times> int) goio" where
  "check E cfg key now w =
     (case rdb_Pipeline E (w_tick w) (check_pipe cfg key now) (w_redis w) of
        (Inl e, r) \<Rightarrow> (Inl (Driver e), w\<lparr>w_redis := r, w_tick := Suc (w_tick w)\<rparr>)
      | (Inr vs, r) \<Rightarrow>
         (let count = (case vs of _ # c # _ \<Rightarrow> c | _ \<Rightarrow> 0) in
          if MaxRequests cfg \<le> count
          then (Inr (False, 0), w\<lparr>w_redis := rdb_ZRem E (Suc (w_tick w)) key (FormatInt now) r,
                                  w_tick := Suc (Suc (w_tick w))\<rparr>)
          else (let remaining = int64 (MaxRequests cfg - count - 1) in
                (Inr (True, if remaining < 0 then 0 else remaining),
                 w\<lparr>w_redis := r, w_tick := Suc (w_tick w)\<rparr>))))"

definition limit_headers :: "RateLimiterConfig \<Rightarrow> time \<Rightarrow> int \<Rightarrow> ResponseWriter \<Rightarrow> ResponseWriter" where
  "limit_headers cfg now remaining rw =
     header_Set ''X-Ratelimit-Reset'' (FormatInt ((now + Window cfg) div Second))
       (header_Set ''X-Ratelimit-Remaining'' (FormatInt remaining)
         (header_Set ''X-Ratelimit-Limit'' (FormatInt (MaxRequests cfg)) rw))"

definition limit_message :: "RateLimiterConfig \<Rightarrow> string" where
  "limit_message cfg =
     ''rate limit exceeded '' @ [CHR 0xE2, CHR 0x80, CHR 0x94] @ '' max '' @ FormatInt (MaxRequests cfg) @
     '' requests per '' @ Duration_String (Window cfg)"

definition too_many :: "RateLimiterConfig \<Rightarrow> ResponseWriter \<Rightarrow> ResponseWriter" where
  "too_many cfg rw =
     Encode (error_body (limit_message cfg))
       (WriteHeader 429
         (header_Set ''Content-Type'' ''application/json''
           (header_Set ''Retry-After'' (FormatInt (sgn (Window cfg) * (\<bar>Window cfg\<bar> div Second))) rw)))"

definition Limit :: "'r env \<Rightarrow> RateLimiterConfig \<Rightarrow> string \<Rightarrow> 'r handler \<Rightarrow> 'r handler" where
  "Limit E cfg route next r s =
     (let key = limit_key (extractIP r) route;
          now = time_Now E (w_tick (snd s));
          w = (snd s)\<lparr>w_tick := Suc (w_tick (snd s))\<rparr> in
      case check E cfg key now w of
        (Inl err, w') \<Rightarrow> next r (fst s, w')
      | (Inr (allowed, remaining), w') \<Rightarrow>
         (let rw = limit_headers cfg now remaining (fst s) in
          if \<not> allowed then (Inr (), (too_many cfg rw, w')) else next r (rw, w')))"

section \<open>A middleware\<close>

lemma check_db [simp]: "w_db (snd (check E cfg key now w)) = w_db w"
  by (auto simp: check_def Let_def split: prod.splits sum.splits)

lemma check_run: "check E cfg key now w = (r, w') \<Longrightarrow> w_db w' = w_db w"
  by (metis check_db snd_conv)

interpretation limit: guard "Limit E cfg route" for E cfg route
proof unfold_locales
  show "guard_law (Limit E cfg route)"
    unfolding guard_law_def
    by (auto simp: Limit_def Let_def split: prod.splits sum.splits dest!: check_run)
qed

end
