(* ===== verification/Double_Rounding.thy ===== *)
theory Double_Rounding
  imports Go_Std
begin

text \<open>Rounding an integer to a double keeps the order, which comparing scores relies on, and the
  ceiling of a quotient of doubles is exact for integers below \<open>2 ^ 52\<close>, which counting pages relies on.\<close>

section \<open>Rounding to a double is monotone\<close>

lemma bit_length_upper: "n < 2 ^ bit_length n"
proof (induction n rule: bit_length.induct)
  case (1 n)
  show ?case
  proof (cases "n = 0")
    case True
    then show ?thesis by (subst bit_length.simps) simp
  next
    case False
    then have "n div 2 < 2 ^ bit_length (n div 2)" using 1 by blast
    then show ?thesis using False by (subst bit_length.simps) simp
  qed
qed

lemma bit_length_lower: "0 < n \<Longrightarrow> 0 < bit_length n \<and> 2 ^ (bit_length n - 1) \<le> n"
proof (induction n rule: bit_length.induct)
  case (1 n)
  show ?case
  proof (cases "n div 2 = 0")
    case True
    then have "n = 1" using 1(2) by linarith
    then show ?thesis by (subst (1 2) bit_length.simps) (simp add: bit_length.simps [of 0])
  next
    case False
    then have "0 < bit_length (n div 2)" and "2 ^ (bit_length (n div 2) - 1) \<le> n div 2" using 1 by auto
    then have "2 * 2 ^ (bit_length (n div 2) - 1) \<le> n" by linarith
    then have "2 ^ bit_length (n div 2) \<le> n"
      using \<open>0 < bit_length (n div 2)\<close> by (cases "bit_length (n div 2)") auto
    then show ?thesis using False by (subst (1 2) bit_length.simps) auto
  qed
qed

lemma bit_length_less: "bit_length a < bit_length b \<Longrightarrow> 2 ^ bit_length a \<le> (2 ^ (bit_length b - 1) :: nat)"
  by (intro power_increasing) auto

lemma bit_length_mono:
  assumes "a \<le> b"
  shows "bit_length a \<le> bit_length b"
proof (rule ccontr)
  assume "\<not> ?thesis"
  then have less: "bit_length b < bit_length a" by simp
  then have "0 < a" by (cases "a = 0") (auto simp: bit_length.simps [of 0])
  then have "2 ^ (bit_length a - 1) \<le> a" using bit_length_lower by blast
  with bit_length_less [OF less] bit_length_upper [of b] assms show False by linarith
qed

lemma round_even_bounds: "a div 2 ^ k * 2 ^ k \<le> round_even a k" "round_even a k \<le> Suc (a div 2 ^ k) * 2 ^ k"
  by (auto simp: round_even_def Let_def)

lemma round_even_mono:
  assumes "a \<le> b"
  shows "round_even a k \<le> round_even b k"
proof (cases "a div 2 ^ k = b div 2 ^ k")
  case True
  then have "a mod 2 ^ k \<le> b mod 2 ^ k" using assms by (metis div_mult_mod_eq nat_add_left_cancel_le)
  then show ?thesis using True by (auto simp: round_even_def Let_def)
next
  case False
  then have "Suc (a div 2 ^ k) \<le> b div 2 ^ k" using div_le_mono [OF assms, of "2 ^ k"] by simp
  then have "Suc (a div 2 ^ k) * 2 ^ k \<le> b div 2 ^ k * 2 ^ k" by (rule mult_le_mono1)
  with round_even_bounds [of a k] round_even_bounds [of b k] show ?thesis by linarith
qed

definition round53 :: "nat \<Rightarrow> nat" where
  "round53 n = round_even n (bit_length n - 53)"

lemma round53_bounds:
  assumes "0 < n"
  shows "2 ^ (bit_length n - 1) \<le> round53 n" "round53 n \<le> 2 ^ bit_length n"
proof -
  let ?L = "bit_length n" and ?k = "bit_length n - 53"
  have L: "0 < ?L" "2 ^ (?L - 1) \<le> n" "n < 2 ^ ?L"
    using bit_length_lower [OF assms] bit_length_upper [of n] by auto
  have k: "?k \<le> ?L - 1" using L(1) by simp
  have "2 ^ (?L - 1 - ?k) * 2 ^ ?k = (2 ^ (?L - 1) :: nat)" using k by (simp flip: power_add)
  then have "2 ^ (?L - 1 - ?k) \<le> n div 2 ^ ?k" using L(2) by (simp add: less_eq_div_iff_mult_less_eq)
  then have "2 ^ (?L - 1) \<le> n div 2 ^ ?k * 2 ^ ?k"
    using k by (metis (no_types) le_add_diff_inverse2 mult_le_mono1 power_add)
  then show "2 ^ (?L - 1) \<le> round53 n"
    using round_even_bounds(1) [of n ?k] unfolding round53_def by linarith
  have split: "2 ^ (?L - ?k) * 2 ^ ?k = (2 ^ ?L :: nat)" by (simp flip: power_add)
  have "n div 2 ^ ?k < 2 ^ (?L - ?k)" using L(3) split by (metis less_mult_imp_div_less)
  then have "Suc (n div 2 ^ ?k) * 2 ^ ?k \<le> 2 ^ (?L - ?k) * 2 ^ ?k" by (intro mult_le_mono1) simp
  then show "round53 n \<le> 2 ^ ?L"
    using round_even_bounds(2) [of n ?k] split unfolding round53_def by linarith
qed

lemma round53_0: "round53 0 = 0"
  by (simp add: round53_def round_even_def)

lemma round53_mono:
  assumes "a \<le> b"
  shows "round53 a \<le> round53 b"
proof (cases "bit_length a = bit_length b")
  case True
  then show ?thesis using round_even_mono [OF assms] by (simp add: round53_def)
next
  case False
  then have less: "bit_length a < bit_length b" using bit_length_mono [OF assms] by simp
  have "0 < b" using less by (cases "b = 0") (auto simp: bit_length.simps [of 0])
  show ?thesis
  proof (cases "a = 0")
    case True
    then show ?thesis by (simp add: round53_0)
  next
    case False
    then show ?thesis
      using round53_bounds(2) [of a] round53_bounds(1) [OF \<open>0 < b\<close>] bit_length_less [OF less] by linarith
  qed
qed

lemma float64_of_int_mono: "m \<le> n \<Longrightarrow> float64_of_int m \<le> float64_of_int n"
proof -
  have val: "float64_of_int x = (if x < 0 then - int (round53 (nat (- x))) else int (round53 (nat x)))" for x
    by (cases "x = 0") (auto simp: float64_of_int_def round53_def sgn_if round_even_def)
  assume "m \<le> n"
  then show ?thesis
    using round53_mono [of "nat m" "nat n"] round53_mono [of "nat (- n)" "nat (- m)"] by (auto simp: val)
qed

section \<open>Small integers and the ceiling of their quotient\<close>

lemma bit_length_below: "n < 2 ^ k \<Longrightarrow> bit_length n \<le> k"
proof (rule ccontr)
  assume n: "n < 2 ^ k" and "\<not> bit_length n \<le> k"
  then have "k \<le> bit_length n - 1" "0 < n" by (simp, cases "n = 0") (auto simp: bit_length.simps [of 0])
  then show False using bit_length_lower [of n] power_increasing [of k "bit_length n - 1" "2 :: nat"] n by linarith
qed

lemma float64_of_int_small: "0 \<le> n \<Longrightarrow> n < 2 ^ 53 \<Longrightarrow> float64_of_int n = n"
  using bit_length_below [of "nat n" 53] by (simp add: float64_of_int_def round_even_def nat_less_iff sgn_if)

text \<open>
  A double has 53 bits, and a quotient that is no integer is at least \<open>1 / b\<close> away from one:
  rounding does not carry it across, so the ceiling is that of the exact quotient.
\<close>

lemma float64_div_ceiling:
  assumes "a < 2 ^ 52" and "0 < b"
  shows "\<lceil>float64_div a b\<rceil> = int ((a + b - 1) div b)"
proof -
  define s where "s = 53 + bit_length b"
  define N where "N = a * 2 ^ s div b"
  define sticky where "sticky = (if a * 2 ^ s mod b = 0 then 0 else 1 :: nat)"
  define k where "k = bit_length N - 53"
  define q where "q = N div 2 ^ k"
  define R where "R = (if 2 ^ k < 2 * (N mod 2 ^ k) + sticky \<or> (2 * (N mod 2 ^ k) + sticky = 2 ^ k \<and> odd q) then Suc q else q) * 2 ^ k"
  define c where "c = (a + b - 1) div b"
  have fd: "float64_div a b = of_nat R / 2 ^ s"
    by (simp add: float64_div_def Let_def s_def N_def sticky_def k_def q_def R_def)
  have "c * b + (a + b - 1) mod b = a + b - 1" unfolding c_def by simp
  moreover have "(a + b - 1) mod b < b" using assms(2) by simp
  ultimately have c: "a \<le> c * b" "Suc (c * b) \<le> a + b" using assms(2) by linarith+
  have "N * b + a * 2 ^ s mod b = a * 2 ^ s" unfolding N_def by simp
  moreover have "a * 2 ^ s mod b < b" using assms(2) by simp
  ultimately have N: "N * b \<le> a * 2 ^ s" "a * 2 ^ s < Suc N * b" by (simp_all add: trans_less_add1)
  have "N * b \<le> c * b * 2 ^ s" by (rule le_trans [OF N(1) mult_le_mono1 [OF c(1)]])
  also have "\<dots> = c * 2 ^ s * b" by (simp only: ac_simps)
  finally have Nc: "N \<le> c * 2 ^ s" using assms(2) by simp
  have two_s: "2 ^ s = 2 ^ 53 * (2 ^ bit_length b :: nat)" by (simp add: s_def power_add)
  have k: "k \<le> 53"
  proof -
    have "(2 ^ bit_length b :: nat) = 2 * 2 ^ (bit_length b - 1)"
      using bit_length_lower [OF assms(2)] by (metis Suc_diff_1 power_Suc)
    then have "(2 ^ bit_length b :: nat) \<le> 2 * b" using bit_length_lower [OF assms(2)] by linarith
    then have "(2 ^ s :: nat) \<le> 2 ^ 54 * b" unfolding two_s by simp
    then have "a * 2 ^ s < 2 ^ 52 * (2 ^ 54 * b)" using assms by (intro mult_less_le_imp_less) simp_all
    from le_less_trans [OF N(1) this] have "N * b < 2 ^ 52 * 2 ^ 54 * b" by (simp only: mult.assoc)
    then have "N < 2 ^ 52 * 2 ^ 54" by (simp only: mult_less_cancel2)
    then have "N < 2 ^ 106" by simp
    from bit_length_below [OF this] show ?thesis by (simp add: k_def)
  qed
  have "q * 2 ^ k + N mod 2 ^ k = N" unfolding q_def by (rule div_mult_mod_eq)
  moreover have "N mod 2 ^ k < 2 ^ k" by simp
  ultimately have qk: "q * 2 ^ k \<le> N" "N < q * 2 ^ k + 2 ^ k" by linarith+
  have split: "c * 2 ^ s = c * 2 ^ (s - k) * (2 ^ k :: nat)"
    using k by (simp add: s_def flip: power_add)
  have upper: "R \<le> c * 2 ^ s"
  proof (cases "N = c * 2 ^ s")
    case True
    then have "a * 2 ^ s = N * b" using N(1) mult_le_mono1 [OF c(1), of "2 ^ s"] by (simp add: ac_simps)
    then have "sticky = 0" by (simp add: sticky_def)
    moreover have "N mod 2 ^ k = 0" using True split by simp
    ultimately show ?thesis using Nc qk(1) by (simp add: R_def)
  next
    case False
    with Nc qk(1) have "q * 2 ^ k < c * 2 ^ (s - k) * 2 ^ k" unfolding split by linarith
    then have "Suc q \<le> c * 2 ^ (s - k)" by simp
    then have "Suc q * 2 ^ k \<le> c * 2 ^ s" unfolding split by (rule mult_le_mono1)
    then show ?thesis by (simp add: R_def)
  qed
  have lower: "c * 2 ^ s < R + 2 ^ s"
  proof -
    have "2 ^ k \<le> (2 ^ 53 :: nat)" using k by (intro power_increasing) simp_all
    moreover have "N < R + 2 ^ k" using qk(2) by (simp add: R_def)
    moreover have "c * 2 ^ s + 2 ^ 53 \<le> N + 2 ^ s"
    proof -
      have "Suc (c * b) * 2 ^ s \<le> (a + b) * 2 ^ s" using c(2) by (rule mult_le_mono1)
      then have "c * b * 2 ^ s + 2 ^ s < Suc N * b + b * 2 ^ s" using N(2) by (simp add: algebra_simps)
      moreover have "2 ^ 53 * b \<le> 2 ^ s" unfolding two_s using bit_length_upper [of b] by (intro mult_le_mono2) simp
      ultimately have "(c * 2 ^ s + 2 ^ 53) * b < (Suc N + 2 ^ s) * b" by (simp add: algebra_simps)
      then have "c * 2 ^ s + 2 ^ 53 < Suc N + 2 ^ s" by (simp only: mult_less_cancel2)
      then show ?thesis by simp
    qed
    ultimately show ?thesis by linarith
  qed
  show ?thesis
    unfolding fd c_def [symmetric]
  proof (rule ceiling_unique)
    have "(of_nat (c * 2 ^ s) :: rat) < of_nat (R + 2 ^ s)" using lower by (simp only: of_nat_less_iff)
    then show "of_int (int c) - 1 < (of_nat R / 2 ^ s :: rat)" by (simp add: field_simps)
    have "(of_nat R :: rat) \<le> of_nat (c * 2 ^ s)" using upper by (simp only: of_nat_le_iff)
    then show "(of_nat R / 2 ^ s :: rat) \<le> of_int (int c)" by (simp add: field_simps)
  qed
qed

end
