(* ===== verification/Limiter_Props.thy ===== *)
theory Limiter_Props
  imports Rate_Limiter Double_Rounding
begin

text \<open>
  What the sliding window promises. A log of the admitted requests is the specification;
  the sorted set kept by \<open>check\<close> simulates it, as long as Redis is reached within a second
  of the request; so in every window no more than the configured number is admitted, and a
  request is refused only when that number has been reached. Times are compared as the
  doubles that Redis stores.
\<close>

section \<open>The window of a set of times\<close>

definition in_window :: "duration \<Rightarrow> time \<Rightarrow> time set \<Rightarrow> time set" where
  "in_window W t S = {x \<in> S. float64_of_int (t - W) < float64_of_int x}"

lemma in_window_subset: "in_window W t S \<subseteq> S"
  by (auto simp: in_window_def)

lemma in_window_insert:
  "in_window W t (insert x S) = (if float64_of_int (t - W) < float64_of_int x then insert x (in_window W t S) else in_window W t S)"
  by (auto simp: in_window_def)

lemma in_window_later: "t \<le> t' \<Longrightarrow> in_window W t' S \<subseteq> in_window W t S"
  using float64_of_int_mono [of "t - W" "t' - W"] by (auto simp: in_window_def)

lemma in_window_idem: "t \<le> t' \<Longrightarrow> in_window W t' (in_window W t S) = in_window W t' S"
  using in_window_later [of t t' W S] by (auto simp: in_window_def)

lemma finite_in_window: "finite S \<Longrightarrow> finite (in_window W t S)"
  by (rule finite_subset [OF in_window_subset])

text \<open>The specification: a request is admitted if fewer than \<open>N\<close> admitted ones are in its window.\<close>

fun log_run :: "int \<Rightarrow> duration \<Rightarrow> time set \<Rightarrow> time list \<Rightarrow> (time \<times> bool) list" where
  "log_run N W A [] = []"
| "log_run N W A (t # ts) =
     (let b = (int (card (in_window W t A)) < N) in (t, b) # log_run N W (if b then insert t A else A) ts)"

text \<open>What the sorted set does: entries that left the window are forgotten.\<close>

definition window_step :: "int \<Rightarrow> duration \<Rightarrow> time set \<Rightarrow> time \<Rightarrow> bool \<times> time set" where
  "window_step N W S t =
     (let K = in_window W t S in if N \<le> int (card K) then (False, K - {t}) else (True, insert t K))"

definition admitted_times :: "(time \<times> bool) list \<Rightarrow> time set" where
  "admitted_times l = {t. (t, True) \<in> set l}"

lemma admitted_times_simps [simp]:
  "admitted_times [] = {}"
  "admitted_times ((t, b) # l) = (if b then insert t (admitted_times l) else admitted_times l)"
  by (auto simp: admitted_times_def)

lemma log_run_times: "admitted_times (log_run N W A ts) \<subseteq> set ts"
  by (induction ts arbitrary: A) (auto simp: Let_def split: if_splits)

text \<open>No window of the log ever holds more than \<open>N\<close> admitted requests.\<close>

lemma log_run_bound:
  assumes "sorted_wrt (<) ts" and "\<And>x y. x \<in> A \<Longrightarrow> y \<in> set ts \<Longrightarrow> x < y" and "finite A" and "0 \<le> N"
    and "\<And>t. t \<in> set ts \<Longrightarrow> int (card (in_window W t A)) \<le> N" and "u \<in> set ts"
  shows "int (card (in_window W u {x \<in> A \<union> admitted_times (log_run N W A ts). x \<le> u})) \<le> N"
  using assms
proof (induction ts arbitrary: A)
  case Nil
  then show ?case by simp
next
  case (Cons t ts)
  define b where "b \<longleftrightarrow> int (card (in_window W t A)) < N"
  define A' where "A' = (if b then insert t A else A)"
  have run: "log_run N W A (t # ts) = (t, b) # log_run N W A' ts"
    by (simp add: b_def A'_def Let_def)
  have less: "t < y" if "y \<in> set ts" for y using Cons.prems(1) that by simp
  have fin: "finite A'" using Cons.prems(3) by (simp add: A'_def)
  have win: "int (card (in_window W v A')) \<le> N" if "t \<le> v" for v
  proof -
    have "card (in_window W v A) \<le> card (in_window W t A)"
      using Cons.prems(3) in_window_later [OF that] by (intro card_mono finite_in_window)
    moreover have "int (card (in_window W t A)) \<le> N" using Cons.prems(5) by simp
    ultimately show ?thesis
      using Cons.prems(3) by (auto simp: A'_def b_def in_window_insert card_insert_if finite_in_window)
  qed
  have set_eq: "A \<union> admitted_times (log_run N W A (t # ts)) = A' \<union> admitted_times (log_run N W A' ts)"
    by (auto simp: run A'_def simp del: log_run.simps)
  show ?case
  proof (cases "u = t")
    case True
    have "{x \<in> A' \<union> admitted_times (log_run N W A' ts). x \<le> t} \<subseteq> A'"
      using log_run_times [of N W A' ts] less by fastforce
    then have "card (in_window W t {x \<in> A' \<union> admitted_times (log_run N W A' ts). x \<le> t}) \<le> card (in_window W t A')"
      using fin by (intro card_mono finite_in_window) (auto simp: in_window_def)
    then show ?thesis using win [of t] unfolding set_eq True by linarith
  next
    case False
    show ?thesis unfolding set_eq
    proof (rule Cons.IH)
      show "sorted_wrt (<) ts" using Cons.prems(1) by simp
      show "x < y" if "x \<in> A'" "y \<in> set ts" for x y
        using that Cons.prems(2) less by (auto simp: A'_def split: if_splits)
      show "int (card (in_window W v A')) \<le> N" if "v \<in> set ts" for v
        using win less [OF that] by simp
    qed (use fin Cons.prems(4,6) False in auto)
  qed
qed

section \<open>The sorted set simulates the log\<close>

text \<open>Key \<open>k\<close> holds exactly the times \<open>S\<close>, and outlives each of them by its window and a second.\<close>

definition tracks ::
  "('r \<Rightarrow> string \<Rightarrow> string \<rightharpoonup> int) \<Rightarrow> ('r \<Rightarrow> string \<Rightarrow> time) \<Rightarrow> string \<Rightarrow> duration \<Rightarrow> time set \<Rightarrow> 'r \<Rightarrow> bool" where
  "tracks zs dl k W S r \<longleftrightarrow>
     finite S \<and> dom (zs r k) = FormatInt ` S \<and> (\<forall>t\<in>S. zs r k (FormatInt t) = Some (float64_of_int t)) \<and>
     (\<forall>t\<in>S. t + W + Second \<le> dl r k)"

text \<open>The calls for a request that starts at time \<open>now\<close> happen within a second.\<close>

definition prompt :: "'r env \<Rightarrow> nat \<Rightarrow> time \<Rightarrow> bool" where
  "prompt E n now \<longleftrightarrow> now \<le> time_Now E n \<and> time_Now E n \<le> now + Second \<and> time_Now E (Suc n) \<le> now + Second"

lemma inj_on_FormatInt: "inj_on FormatInt S"
  by (auto intro: inj_onI dest: FormatInt_inj)

lemma tracks_kept:
  assumes "tracks zs dl k W S r" and "T \<le> now + Second"
  shows "dom (above (now - W) (live_zset zs dl r T k)) = FormatInt ` in_window W now S"
    and "t \<in> in_window W now S \<Longrightarrow> above (now - W) (live_zset zs dl r T k) (FormatInt t) = Some (float64_of_int t)"
proof -
  note tr = assms(1) [unfolded tracks_def]
  show "dom (above (now - W) (live_zset zs dl r T k)) = FormatInt ` in_window W now S"
  proof (cases "dl r k \<le> T")
    case True
    have "float64_of_int t \<le> float64_of_int (now - W)" if "t \<in> S" for t
      using tr that True assms(2) by (intro float64_of_int_mono) force
    then have "in_window W now S = {}" by (force simp: in_window_def)
    with True show ?thesis by (simp add: live_zset_def above_def fun_eq_iff)
  next
    case False
    have "dom (above (now - W) (zs r k)) = FormatInt ` in_window W now S"
    proof (intro equalityI subsetI)
      fix m assume m: "m \<in> dom (above (now - W) (zs r k))"
      then have "m \<in> dom (zs r k)" by (auto simp: above_def split: option.splits)
      then obtain t where "t \<in> S" "m = FormatInt t" using tr by auto
      with m tr show "m \<in> FormatInt ` in_window W now S"
        by (auto simp: above_def in_window_def split: if_splits)
    next
      fix m assume "m \<in> FormatInt ` in_window W now S"
      with tr show "m \<in> dom (above (now - W) (zs r k))" by (auto simp: above_def in_window_def)
    qed
    with False show ?thesis by (simp add: live_zset_def)
  qed
  show "above (now - W) (live_zset zs dl r T k) (FormatInt t) = Some (float64_of_int t)" if t: "t \<in> in_window W now S"
  proof -
    have "\<not> dl r k \<le> T"
    proof
      assume "dl r k \<le> T"
      moreover have "t + W + Second \<le> dl r k" using t tr by (auto simp: in_window_def)
      ultimately have "t \<le> now - W" using assms(2) by linarith
      then have "float64_of_int t \<le> float64_of_int (now - W)" by (rule float64_of_int_mono)
      with t show False by (simp add: in_window_def)
    qed
    with t tr show ?thesis by (auto simp: above_def live_zset_def in_window_def)
  qed
qed

lemma check_simulates:
  assumes "redis_zset_spec E zs dl" and "tracks zs dl k (Window cfg) S (w_redis w)"
    and "\<And>x. x \<in> S \<Longrightarrow> x < now" and "0 < Window cfg" and "prompt E (w_tick w) now"
    and "check E cfg k now w = (Inr (b, rem), w')"
  shows "b = fst (window_step (MaxRequests cfg) (Window cfg) S now)"
    and "tracks zs dl k (Window cfg) (snd (window_step (MaxRequests cfg) (Window cfg) S now)) (w_redis w')"
proof -
  let ?W = "Window cfg" and ?N = "MaxRequests cfg" and ?n = "w_tick w" and ?K = "in_window (Window cfg) now S"
  let ?T = "time_Now E (w_tick w)"
  let ?kept = "above (now - ?W) (live_zset zs dl (w_redis w) ?T k)"
  have prompt: "now \<le> ?T" "?T \<le> now + Second" "time_Now E (Suc ?n) \<le> now + Second"
    using assms(5) by (auto simp: prompt_def)
  note kept = tracks_kept [OF assms(2) prompt(2)]
  have finS: "finite S" using assms(2) by (simp add: tracks_def)
  then have finK: "finite ?K" by (rule finite_in_window)
  have notK: "now \<notin> ?K" using assms(3) by (auto simp: in_window_def)
  have card: "int (card (dom ?kept)) = int (card ?K)"
    unfolding kept(1) by (simp add: card_image inj_on_FormatInt)
  have ttl: "0 < ?W + Second" using assms(4) by (simp add: Second_def)
  obtain vs r where pipe: "rdb_Pipeline E ?n (check_pipe cfg k now) (w_redis w) = (Inr vs, r)"
    using assms(6) by (auto simp: check_def split: prod.splits sum.splits)
  from assms(1) pipe ttl have
    vs: "\<exists>a c d. vs = [a, int (card (dom ?kept)), c, d]" and zs: "zs r k = ?kept(FormatInt now \<mapsto> float64_of_int now)"
    and dl: "dl r k = ?T + (?W + Second)"
    unfolding redis_zset_spec_def check_pipe_def Let_def by blast+
  have count: "(case vs of _ # c # _ \<Rightarrow> c | _ \<Rightarrow> 0) = int (card ?K)" using vs card by auto
  have dead: "t + ?W + Second \<le> dl r k" if "t \<in> insert now ?K" for t
    using that assms(3) prompt(1) dl by (force simp: in_window_def)
  have mem: "zs r k (FormatInt t) = Some (float64_of_int t)" if "t \<in> insert now ?K" for t
    using that kept(2) notK by (auto simp: zs dest: FormatInt_inj)
  show "b = fst (window_step ?N ?W S now)" and "tracks zs dl k ?W (snd (window_step ?N ?W S now)) (w_redis w')"
  proof (atomize (full), cases "?N \<le> int (card ?K)")
    case True
    have red: "w_redis w' = rdb_ZRem E (Suc ?n) k (FormatInt now) r" and "b = False"
      using assms(6) pipe count True by (auto simp: check_def Let_def)
    have live: "live_zset zs dl r (time_Now E (Suc ?n)) k = zs r k"
      using prompt assms(4) dl by (auto simp: live_zset_def)
    have "zs (w_redis w') k = (zs r k)(FormatInt now := None)" and "dl (w_redis w') k = dl r k"
      using assms(1) unfolding red live [symmetric] redis_zset_spec_def by blast+
    moreover have "FormatInt t \<noteq> FormatInt now" if "t \<in> ?K" for t
      using that notK FormatInt_inj by blast
    ultimately have "tracks zs dl k ?W ?K (w_redis w')"
      using finK dead kept by (auto simp: tracks_def zs)
    with True \<open>b = False\<close> notK show "b = fst (window_step ?N ?W S now) \<and> tracks zs dl k ?W (snd (window_step ?N ?W S now)) (w_redis w')"
      by (simp add: window_step_def)
  next
    case False
    have red: "w_redis w' = r" and "b = True"
      using assms(6) pipe count False by (auto simp: check_def Let_def)
    have "tracks zs dl k ?W (insert now ?K) r"
      using finK dead mem kept(1) by (auto simp: tracks_def zs)
    with False red \<open>b = True\<close> show "b = fst (window_step ?N ?W S now) \<and> tracks zs dl k ?W (snd (window_step ?N ?W S now)) (w_redis w')"
      by (simp add: window_step_def)
  qed
qed

section \<open>A sequence of requests\<close>

text \<open>
  The requests of one key in the order of their times, each with the verdict of
  \<open>check\<close>; between two of them the world may change in any way that leaves the key alone.
\<close>

inductive judged ::
  "'r env \<Rightarrow> RateLimiterConfig \<Rightarrow> ('r \<Rightarrow> string \<Rightarrow> string \<rightharpoonup> int) \<Rightarrow> ('r \<Rightarrow> string \<Rightarrow> time) \<Rightarrow> string \<Rightarrow>
    'r \<Rightarrow> (time \<times> bool) list \<Rightarrow> bool"
  for E cfg zs dl k where
  judged_nil: "judged E cfg zs dl k r []"
| judged_next:
    "zs (w_redis v) k = zs r k \<Longrightarrow> dl (w_redis v) k = dl r k \<Longrightarrow> prompt E (w_tick v) t \<Longrightarrow>
     check E cfg k t v = (Inr (b, rem), v') \<Longrightarrow> judged E cfg zs dl k (w_redis v') l \<Longrightarrow>
     judged E cfg zs dl k r ((t, b) # l)"

inductive_cases judged_ConsE: "judged E cfg zs dl k r (p # l)"

lemma judged_log:
  assumes "judged E cfg zs dl k r l" and "redis_zset_spec E zs dl" and "0 < Window cfg"
    and "tracks zs dl k (Window cfg) S r" and "sorted_wrt (<) (map fst l)"
    and "\<And>x t. x \<in> S \<Longrightarrow> t \<in> fst ` set l \<Longrightarrow> x < t"
    and "\<And>t. t \<in> fst ` set l \<Longrightarrow> in_window (Window cfg) t S = in_window (Window cfg) t A"
  shows "l = log_run (MaxRequests cfg) (Window cfg) A (map fst l)"
  using assms
proof (induction l arbitrary: r S A rule: list.induct)
  case Nil
  then show ?case by simp
next
  case (Cons p l)
  obtain t b where p: "p = (t, b)" by fastforce
  let ?N = "MaxRequests cfg" and ?W = "Window cfg"
  from Cons.prems(1) obtain v rem v' where
    v: "zs (w_redis v) k = zs r k" "dl (w_redis v) k = dl r k" "prompt E (w_tick v) t"
      "check E cfg k t v = (Inr (b, rem), v')" "judged E cfg zs dl k (w_redis v') l"
    unfolding p by (rule judged_ConsE) auto
  have tr: "tracks zs dl k ?W S (w_redis v)" using Cons.prems(4) v(1,2) by (simp add: tracks_def)
  have old: "x < t" if "x \<in> S" for x using Cons.prems(6) that p by auto
  have less: "t < u" if "u \<in> fst ` set l" for u using Cons.prems(5) that p by auto
  note sim = check_simulates [OF Cons.prems(2) tr old Cons.prems(3) v(3,4)]
  let ?S = "snd (window_step ?N ?W S t)" and ?A = "if b then insert t A else A"
  have same: "in_window ?W t S = in_window ?W t A" using Cons.prems(7) p by simp
  have b: "b = (int (card (in_window ?W t A)) < ?N)" using sim(1) same by (auto simp: window_step_def Let_def)
  have S: "?S = (if b then insert t (in_window ?W t S) else in_window ?W t S - {t})"
    using b same by (auto simp: window_step_def Let_def)
  have "l = log_run ?N ?W ?A (map fst l)"
  proof (rule Cons.IH [OF v(5) Cons.prems(2,3) sim(2)])
    show "sorted_wrt (<) (map fst l)" using Cons.prems(5) by simp
    show "x < u" if "x \<in> ?S" "u \<in> fst ` set l" for x u
      using that less old in_window_subset [of ?W t S] unfolding S by (force split: if_splits)
    show "in_window ?W u ?S = in_window ?W u ?A" if u: "u \<in> fst ` set l" for u
    proof -
      have "in_window ?W u (in_window ?W t S) = in_window ?W u A"
        using less [OF u] Cons.prems(7) [of u] u by (subst in_window_idem) (auto simp: p)
      moreover have "in_window ?W t S - {t} = in_window ?W t S" using old by (auto simp: in_window_def)
      ultimately show ?thesis unfolding S by (simp add: in_window_insert)
    qed
  qed
  then show ?case using b p by (simp add: Let_def)
qed

section \<open>Properties\<close>

text \<open>
  Property C19. The limiter is a sliding-window log: for requests of one client and route,
  in the order of their times, from an unused key on, \<open>check\<close> admits a request exactly
  when fewer than \<open>MaxRequests\<close> of the requests admitted before it lie in its window.
\<close>

theorem limiter_equals_log:
  assumes "redis_zset_spec E zs dl" and "0 < Window cfg" and "zs r k = Map.empty"
    and "judged E cfg zs dl k r l" and "sorted_wrt (<) (map fst l)"
  shows "l = log_run (MaxRequests cfg) (Window cfg) {} (map fst l)"
proof (rule judged_log [OF assms(4,1,2)])
  show "tracks zs dl k (Window cfg) {} r" using assms(3) by (simp add: tracks_def)
qed (use assms(5) in auto)

text \<open>
  Property C20. The budget: at each request, the admitted requests up to and including it
  that lie in its window are at most \<open>MaxRequests\<close>.
\<close>

theorem limiter_window_bound:
  assumes "redis_zset_spec E zs dl" and "0 < Window cfg" and "zs r k = Map.empty" and "0 \<le> MaxRequests cfg"
    and "judged E cfg zs dl k r l" and "sorted_wrt (<) (map fst l)" and "u \<in> fst ` set l"
  shows "int (card (in_window (Window cfg) u {x \<in> admitted_times l. x \<le> u})) \<le> MaxRequests cfg"
proof -
  have "l = log_run (MaxRequests cfg) (Window cfg) {} (map fst l)"
  proof (rule judged_log [OF assms(5,1,2)])
    show "tracks zs dl k (Window cfg) {} r" using assms(3) by (simp add: tracks_def)
  qed (use assms(6) in auto)
  moreover have "int (card (in_window (Window cfg) u
      {x \<in> {} \<union> admitted_times (log_run (MaxRequests cfg) (Window cfg) {} (map fst l)). x \<le> u})) \<le> MaxRequests cfg"
    using assms(4,6,7) by (intro log_run_bound) (auto simp: in_window_def)
  ultimately show ?thesis by simp
qed

text \<open>Two requests a second apart under a budget of one a minute: the second is refused.\<close>

definition one_a_minute :: RateLimiterConfig where
  "one_a_minute = \<lparr>MaxRequests = 1, Window = 60 * Second\<rparr>"

definition first_world :: "sample_redis world" where
  "first_world = snd (check sample_env one_a_minute ''k'' 0 sample_world)"

definition second_world :: "sample_redis world" where
  "second_world = snd (check sample_env one_a_minute ''k'' Second first_world)"

lemmas sample_check_defs = check_def check_pipe_def one_a_minute_def Let_def sample_env_def sample_world_def
  sr_zset_def sr_deadline_def sr_stored_def sr_put_def sr_alive_def FormatInt_def nat_digits.simps float64_of_int_def
  round_even_def bit_length.simps int64_id Second_def

lemma first_check: "check sample_env one_a_minute ''k'' 0 sample_world = (Inr (True, 0), first_world)"
proof (rule prod_eqI)
  show "fst (check sample_env one_a_minute ''k'' 0 sample_world) = fst (Inr (True, 0), first_world)"
    by (simp add: sample_check_defs)
qed (simp add: first_world_def)

lemma second_check: "check sample_env one_a_minute ''k'' Second first_world = (Inr (False, 0), second_world)"
proof (rule prod_eqI)
  show "fst (check sample_env one_a_minute ''k'' Second first_world) = fst (Inr (False, 0), second_world)"
    by (simp add: first_world_def sample_check_defs)
qed (simp add: second_world_def)

lemma sample_judged:
  "judged sample_env one_a_minute sr_scores sr_deadline ''k'' \<lparr>sr_keys = [], sr_sets = []\<rparr> [(0, True), (Second, False)]"
proof -
  have "w_tick first_world = 1" by (simp add: first_world_def sample_check_defs)
  then have "judged sample_env one_a_minute sr_scores sr_deadline ''k'' (w_redis first_world) [(Second, False)]"
    by (intro judged_next [OF refl refl _ second_check] judged_nil) (simp add: prompt_def sample_env_def Second_def)
  then show ?thesis
    by (rule judged_next [OF _ _ _ first_check, rotated 3]) (simp_all add: sample_world_def prompt_def sample_env_def Second_def)
qed

lemma sample_unused: "sr_scores \<lparr>sr_keys = [], sr_sets = []\<rparr> ''k'' = Map.empty"
  by (simp add: sr_scores_def sr_stored_def)

theorem limiter_equals_log_witness:
  "[(0, True), (Second, False)] = log_run 1 (60 * Second) {} [0, Second]"
  using limiter_equals_log [OF sample_redis_zset _ sample_unused sample_judged]
  by (simp add: one_a_minute_def Second_def)

theorem limiter_window_bound_witness:
  "int (card (in_window (60 * Second) Second {x \<in> admitted_times [(0, True), (Second, False)]. x \<le> Second})) \<le> 1"
  using limiter_window_bound [OF sample_redis_zset _ sample_unused _ sample_judged, of Second]
  by (simp add: one_a_minute_def Second_def)

end
