(* ===== verification/Handlers.thy ===== *)
theory Handlers
  imports Auth_Service Auth_Middleware Transfer_Service Funding_Service Rate_Limiter
begin

text \<open>
  The HTTP handlers of internal/handler: transfers and health (handler.go), registration,
  login and logout (auth\_handler.go), accounts, balances and history (account\_handler.go)
  and funding with its privilege check (funding\_handler.go).
\<close>

definition error_response :: "int \<Rightarrow> string \<Rightarrow> ('r, unit) action" where
  "error_response status m = respond (writeJSON status (error_body m))"

section \<open>Transfers\<close>

definition mapErrorToHTTP :: "goerr \<Rightarrow> int" where
  "mapErrorToHTTP err =
     (if errors_Is err ErrInsufficientFunds then 422
      else if errors_Is err ErrAccountNotFound then 404
      else if errors_Is err ErrAccountNotActive then 403
      else if errors_Is err ErrDuplicateTransaction then 409
      else if errors_Is err ErrSameAccount then 400
      else if errors_Is err ErrInvalidAmount then 400
      else 500)"

definition handleTransfer :: "'r env \<Rightarrow> 'r handler" where
  "handleTransfer E r =
     (case json_Transfer E (rq_Body r) of
        None \<Rightarrow> error_response 400 ''invalid request body''
      | Some req \<Rightarrow>
         attempt (call (TransferFunds E req)) (\<lambda>res. case res of
           Inl err \<Rightarrow> error_response (mapErrorToHTTP err) (Error (pq_Error E) err)
         | Inr resp \<Rightarrow> respond (writeJSON 200 (json_TransferResponse E resp))))"

definition ServeTransfer :: "'r env \<Rightarrow> 'r handler" where
  "ServeTransfer E = handleTransfer E"

definition handleHealth :: "'r handler" where
  "handleHealth r = respond (writeJSON 200 (JObj [(''service'', JStr ''omniledger''), (''status'', JStr ''ok'')]))"

section \<open>Registration, login, logout\<close>

definition mapAuthErrorToHTTP :: "goerr \<Rightarrow> int" where
  "mapAuthErrorToHTTP err =
     (if errors_Is err ErrInvalidCredentials then 401
      else if errors_Is err ErrUsernameTaken \<or> errors_Is err ErrEmailTaken then 409
      else if errors_Is err ErrMissingFields then 400
      else if errors_Is err ErrAccountNotActive then 403
      else 500)"

definition auth_body :: "'r env \<Rightarrow> string \<Rightarrow> User \<Rightarrow> json" where
  "auth_body E message u = JObj [(''message'', JStr message), (''user'', json_User E u)]"

definition handleRegister :: "'r env \<Rightarrow> string \<Rightarrow> bool \<Rightarrow> 'r handler" where
  "handleRegister E secret secure r =
     (case json_Register E (rq_Body r) of
        None \<Rightarrow> error_response 400 ''invalid request body''
      | Some req \<Rightarrow>
         attempt (call (Register E secret req)) (\<lambda>res. case res of
           Inl err \<Rightarrow> error_response (mapAuthErrorToHTTP err) (Error (pq_Error E) err)
         | Inr resp \<Rightarrow>
             attempt (respond (SetTokenCookie (auth_Token resp) secure)) (\<lambda>_.
             respond (writeJSON 201 (auth_body E ''registration successful'' (auth_User resp))))))"

definition handleLogin :: "'r env \<Rightarrow> string \<Rightarrow> bool \<Rightarrow> 'r handler" where
  "handleLogin E secret secure r =
     (case json_Login E (rq_Body r) of
        None \<Rightarrow> error_response 400 ''invalid request body''
      | Some req \<Rightarrow>
         attempt (call (Login E secret req)) (\<lambda>res. case res of
           Inl err \<Rightarrow> error_response (mapAuthErrorToHTTP err) (Error (pq_Error E) err)
         | Inr resp \<Rightarrow>
             attempt (respond (SetTokenCookie (auth_Token resp) secure)) (\<lambda>_.
             respond (writeJSON 200 (auth_body E ''login successful'' (auth_User resp))))))"

definition HandleRegister :: "'r env \<Rightarrow> string \<Rightarrow> bool \<Rightarrow> 'r handler" where
  "HandleRegister E secret secure = handleRegister E secret secure"

definition HandleLogin :: "'r env \<Rightarrow> string \<Rightarrow> bool \<Rightarrow> 'r handler" where
  "HandleLogin E secret secure = handleLogin E secret secure"

text \<open>\<open>cookie.Value[:8]\<close> panics on a shorter value.\<close>

definition handleLogout :: "'r env \<Rightarrow> 'r handler" where
  "handleLogout E r =
     (let jti = JTIFromCtx (rq_Context r) in
      if jti = [] then
        (case request_Cookie r ''vault_token'' of
           None \<Rightarrow> error_response 401 ''not authenticated''
         | Some v \<Rightarrow>
             if length v < 8 then fail ''runtime error: slice bounds out of range''
             else error_response 400 (''missing token context, cookie: '' @ take 8 v @ ''...''))
      else
        attempt (call (\<lambda>w. Logout E jti (time_Now E (w_tick w) + 24 * Hour) (w\<lparr>w_tick := Suc (w_tick w)\<rparr>))) (\<lambda>res.
        case res of
          Inl err \<Rightarrow> error_response 500 ''logout failed''
        | Inr _ \<Rightarrow>
            attempt (respond ClearTokenCookie) (\<lambda>_.
            respond (writeJSON 200 (JObj [(''message'', JStr ''logged out successfully'')])))))"

section \<open>Accounts\<close>

definition defaultPage :: int where
  "defaultPage = 1"

definition defaultPerPage :: int where
  "defaultPerPage = 20"

definition maxPerPage :: int where
  "maxPerPage = 100"

definition handleGetAccounts :: "'r env \<Rightarrow> 'r handler" where
  "handleGetAccounts E r =
     (let userID = UserIDFromCtx (rq_Context r) in
      if userID = uuid_Nil then error_response 401 ''not authenticated''
      else
        attempt (call (GetAccountsByUserID E userID)) (\<lambda>res. case res of
          Inl err \<Rightarrow> error_response 500 ''failed to fetch accounts''
        | Inr accts \<Rightarrow>
            respond (writeJSON 200
              (JObj [(''accounts'', JArr (map (json_Account E) accts)), (''count'', JInt (int (length accts)))]))))"

definition verifyOwnership :: "'r env \<Rightarrow> uuid \<Rightarrow> uuid \<Rightarrow> ('r, Account option) action" where
  "verifyOwnership E userID accountID =
     attempt (call (GetAccountsByUserID E userID)) (\<lambda>res. case res of
       Inl err \<Rightarrow> attempt (error_response 500 ''failed to verify account ownership'') (\<lambda>_. ok None)
     | Inr accts \<Rightarrow>
        (case find (\<lambda>a. a_ID a = accountID) accts of
           Some a \<Rightarrow> ok (Some a)
         | None \<Rightarrow>
             attempt (error_response 403 ''account does not belong to authenticated user'') (\<lambda>_. ok None)))"

definition handleGetBalance :: "'r env \<Rightarrow> 'r handler" where
  "handleGetBalance E r =
     (let userID = UserIDFromCtx (rq_Context r) in
      case uuid_Parse E (rq_PathID r) of
        None \<Rightarrow> error_response 400 ''invalid account id''
      | Some accountID \<Rightarrow>
         attempt (verifyOwnership E userID accountID) (\<lambda>owned. case owned of
           None \<Rightarrow> ok ()
         | Some account \<Rightarrow>
         attempt (call (GetBalanceReadOnly E accountID)) (\<lambda>res. case res of
           Inl err \<Rightarrow> error_response 500 ''failed to compute balance''
         | Inr balance \<Rightarrow>
             respond (writeJSON 200 (json_BalanceResponse E
               \<lparr>b_AccountID = accountID, b_Currency = a_Currency account, b_Balance = dec_StringFixed E balance 4\<rparr>)))))"

definition parseIntParam :: "request \<Rightarrow> string \<Rightarrow> int \<Rightarrow> int" where
  "parseIntParam r key fallback =
     (let val = Get (rq_Query r) key in
      if val = [] then fallback
      else (case Atoi val of (valid, n) \<Rightarrow> if valid then n else fallback))"

text \<open>The page and the page size that are used, and the offset of the page in a 64-bit \<open>int\<close>.\<close>

definition page_of :: "request \<Rightarrow> int" where
  "page_of r = (let page = parseIntParam r ''page'' defaultPage in if page < 1 then 1 else page)"

definition per_page_of :: "request \<Rightarrow> int" where
  "per_page_of r =
     (let n = parseIntParam r ''per_page'' defaultPerPage; m = (if n < 1 then defaultPerPage else n) in
      if maxPerPage < m then maxPerPage else m)"

definition page_offset :: "int \<Rightarrow> int \<Rightarrow> int" where
  "page_offset page perPage = int64 (int64 (page - 1) * perPage)"

definition total_pages :: "int \<Rightarrow> int \<Rightarrow> int" where
  "total_pages n perPage = \<lceil>float64_div (nat (float64_of_int n)) (nat (float64_of_int perPage))\<rceil>"

definition handleGetHistory :: "'r env \<Rightarrow> 'r handler" where
  "handleGetHistory E r =
     (let userID = UserIDFromCtx (rq_Context r) in
      case uuid_Parse E (rq_PathID r) of
        None \<Rightarrow> error_response 400 ''invalid account id''
      | Some accountID \<Rightarrow>
         attempt (verifyOwnership E userID accountID) (\<lambda>owned. case owned of
           None \<Rightarrow> ok ()
         | Some account \<Rightarrow>
         let page = page_of r; perPage = per_page_of r; offset = page_offset page perPage in
         attempt (call (GetTransactionHistory E accountID perPage offset)) (\<lambda>res. case res of
           Inl err \<Rightarrow> error_response 500 ''failed to fetch history''
         | Inr (items, n) \<Rightarrow>
             respond (writeJSON 200 (json_PaginatedHistory E
               \<lparr>ph_Items = items, ph_Total = n, ph_Page = page, ph_PerPage = perPage,
                ph_TotalPages = total_pages n perPage\<rparr>)))))"

section \<open>Funding\<close>

definition handleFund :: "'r env \<Rightarrow> 'r handler" where
  "handleFund E r =
     (case json_Fund E (rq_Body r) of
        None \<Rightarrow> error_response 400 ''invalid request body''
      | Some req \<Rightarrow>
         attempt (call (FundAccount E req (UserIDFromCtx (rq_Context r)))) (\<lambda>res. case res of
           Inl err \<Rightarrow> error_response 422 (Error (pq_Error E) err)
         | Inr resp \<Rightarrow> respond (writeJSON 200 (json_FundResponse E resp))))"

definition isSystemUserInDB :: "'r env \<Rightarrow> uuid \<Rightarrow> ('r world, bool) goio" where
  "isSystemUserInDB E userID =
     wrapf ''check system user: '' (db_stmt E (\<lambda>_. select (\<lambda>d.
       case find (\<lambda>u. u_ID u = userID) (users d) of None \<Rightarrow> False | Some u \<Rightarrow> u_IsSystemUser u)))"

definition requireSystemUser :: "'r env \<Rightarrow> 'r handler \<Rightarrow> 'r handler" where
  "requireSystemUser E next r =
     (let userID = UserIDFromCtx (rq_Context r) in
      if userID = uuid_Nil then error_response 401 ''not authenticated''
      else
        attempt (call (isSystemUserInDB E userID)) (\<lambda>res. case res of
          Inl err \<Rightarrow> error_response 500 ''authorization check failed''
        | Inr isSystem \<Rightarrow>
            if \<not> isSystem then error_response 403 ''forbidden: system user access required''
            else next r))"

section \<open>The privilege check is a middleware\<close>

lemma isSystemUserInDB_db: "isSystemUserInDB E u w = (r, w') \<Longrightarrow> w_db w' = w_db w"
  by (auto simp: isSystemUserInDB_def map_error_def split: prod.splits sum.splits dest!: db_stmt_select_run)

interpretation system_user: guard "requireSystemUser E" for E
proof unfold_locales
  show "guard_law (requireSystemUser E)"
    unfolding guard_law_def
    by (auto simp: requireSystemUser_def error_response_def attempt_def call_def Let_def
        split: prod.splits sum.splits if_splits dest!: isSystemUserInDB_db)
qed

section \<open>What the handlers keep\<close>

lemma keeps_error_response [keeps_intros]: "keeps (world_inv I) (error_response c m)"
  unfolding error_response_def by (rule keeps_respond)

lemma keeps_queries [keeps_intros]:
  "keeps (\<lambda>w. I (w_db w)) (GetAccountsByUserID E u)"
  "keeps (\<lambda>w. I (w_db w)) (GetBalanceReadOnly E a)"
  "keeps (\<lambda>w. I (w_db w)) (GetTransactionHistory E a l f)"
  by (auto intro!: keepsI)

lemma keeps_verifyOwnership [keeps_intros]: "keeps (world_inv I) (verifyOwnership E u a)"
  unfolding verifyOwnership_def by (intro keeps_intros)

text \<open>The read-only handlers leave the database alone, whatever is asked of it.\<close>

lemma keeps_account_handlers:
  "keeps (world_inv I) (handleGetAccounts E r)"
  "keeps (world_inv I) (handleGetBalance E r)"
  "keeps (world_inv I) (handleGetHistory E r)"
  unfolding handleGetAccounts_def handleGetBalance_def handleGetHistory_def Let_def by (intro keeps_intros)+

end
