(* ===== verification/App_Config.thy ===== *)
theory App_Config
  imports Go_Std
begin

text \<open>
  internal/config/config.go: the configuration read from the environment. The environment
  is a function from names to values, the empty text for an unset name, as
  \<open>os.Getenv\<close> has it; what godotenv makes of it from a .env file is a parameter.
\<close>

record Config =
  cfg_DatabaseURL :: string
  cfg_RedisURL :: string
  cfg_RedisPassword :: string
  cfg_RedisDB :: int
  cfg_Port :: string
  cfg_Env :: string
  cfg_JWTSecret :: string
  cfg_CORSOrigin :: string
  cfg_SMTPHost :: string
  cfg_SMTPPort :: string
  cfg_SMTPUsername :: string
  cfg_SMTPPassword :: string
  cfg_SMTPFrom :: string

definition getEnv :: "(string \<Rightarrow> string) \<Rightarrow> string \<Rightarrow> string \<Rightarrow> string" where
  "getEnv environ key fallback = (let v = environ key in if v \<noteq> [] then v else fallback)"

definition Load :: "((string \<Rightarrow> string) \<Rightarrow> (string \<Rightarrow> string)) \<Rightarrow> (string \<Rightarrow> string) \<Rightarrow> goerr + Config" where
  "Load godotenv os =
     (let environ = godotenv os;
          redisDB = snd (Atoi (getEnv environ ''REDIS_DB'' ''0''));
          cfg = \<lparr>cfg_DatabaseURL = getEnv environ ''DATABASE_URL'' '''',
                 cfg_RedisURL = getEnv environ ''REDIS_URL'' ''localhost:6379'',
                 cfg_RedisPassword = getEnv environ ''REDIS_PASSWORD'' '''',
                 cfg_RedisDB = redisDB,
                 cfg_Port = getEnv environ ''PORT'' ''8080'',
                 cfg_Env = getEnv environ ''ENV'' ''development'',
                 cfg_JWTSecret = getEnv environ ''JWT_SECRET'' ''change-me-in-production'',
                 cfg_CORSOrigin = getEnv environ ''CORS_ORIGIN'' ''http://localhost:3000'',
                 cfg_SMTPHost = getEnv environ ''SMTP_HOST'' ''smtp.gmail.com'',
                 cfg_SMTPPort = getEnv environ ''SMTP_PORT'' ''587'',
                 cfg_SMTPUsername = getEnv environ ''SMTP_USERNAME'' '''',
                 cfg_SMTPPassword = getEnv environ ''SMTP_PASSWORD'' '''',
                 cfg_SMTPFrom = getEnv environ ''SMTP_FROM'' ''noreply@thevault.dev''\<rparr> in
      if cfg_DatabaseURL cfg = [] then Inl (Plain ''DATABASE_URL is required'') else Inr cfg)"

lemma Load_RedisDB:
  "Load godotenv os = Inr cfg \<Longrightarrow> cfg_RedisDB cfg = snd (Atoi (getEnv (godotenv os) ''REDIS_DB'' ''0''))"
  unfolding Load_def Let_def by (simp split: if_splits) fastforce

section \<open>Properties\<close>

text \<open>
  Property C40. Loading succeeds exactly when the database URL is set, and then a
  Redis database number that is the decimal text of a 64-bit integer is read back as that
  number; a value of REDIS\_DB that is no number is not reported but read as 0.
\<close>

theorem load_reads_redis_db:
  "((\<exists>cfg. Load godotenv os = Inr cfg) \<longleftrightarrow> godotenv os ''DATABASE_URL'' \<noteq> []) \<and>
   (\<forall>cfg n. Load godotenv os = Inr cfg \<longrightarrow> godotenv os ''REDIS_DB'' = FormatInt n \<longrightarrow> - (2 ^ 63) \<le> n \<longrightarrow> n < 2 ^ 63 \<longrightarrow>
      cfg_RedisDB cfg = n) \<and>
   (\<forall>cfg c cs. Load godotenv os = Inr cfg \<longrightarrow> godotenv os ''REDIS_DB'' = c # cs \<longrightarrow>
      c \<notin> {CHR ''-'', CHR ''+''} \<longrightarrow> \<not> is_digit c \<longrightarrow> cfg_RedisDB cfg = 0)"
proof (intro conjI allI impI)
  show "(\<exists>cfg. Load godotenv os = Inr cfg) \<longleftrightarrow> godotenv os ''DATABASE_URL'' \<noteq> []"
    by (auto simp: Load_def getEnv_def Let_def)
next
  fix cfg n
  assume load: "Load godotenv os = Inr cfg" and n: "godotenv os ''REDIS_DB'' = FormatInt n" "- (2 ^ 63) \<le> n" "n < 2 ^ 63"
  have "FormatInt n \<noteq> []" by (simp add: FormatInt_def)
  then show "cfg_RedisDB cfg = n"
    using Load_RedisDB [OF load] n Atoi_FormatInt by (simp add: getEnv_def)
next
  fix cfg c cs
  assume load: "Load godotenv os = Inr cfg" and c: "godotenv os ''REDIS_DB'' = c # cs" "c \<notin> {CHR ''-'', CHR ''+''}" "\<not> is_digit c"
  have "Atoi (c # cs) = (False, 0)" using c(2,3) by (simp add: Atoi_def)
  then show "cfg_RedisDB cfg = 0" using Load_RedisDB [OF load] c(1) by (simp add: getEnv_def)
qed

definition sample_environ :: "string \<Rightarrow> string" where
  "sample_environ k = (if k = ''DATABASE_URL'' then ''postgres://db'' else if k = ''REDIS_DB'' then ''3'' else [])"

theorem load_reads_redis_db_witness:
  "\<exists>cfg. Load id sample_environ = Inr cfg \<and> cfg_RedisDB cfg = 3"
proof -
  have "FormatInt 3 = ''3''" by code_simp
  then show ?thesis
    using load_reads_redis_db [of id sample_environ] by (auto simp: sample_environ_def)
qed

end
