(* ===== verification/Api_Server.thy ===== *)
theory Api_Server
  imports Handlers App_Config
begin

text \<open>
  cmd/api/main.go and the Register...Routes methods: which handler, behind which
  middlewares, serves which route, and one request to the server. The CORS wrapper is
  github.com/rs/cors, a parameter.
\<close>

section \<open>Routing\<close>

text \<open>
  The patterns of \<open>http.ServeMux\<close> the program registers: a method and a path whose
  segments are literals or one wildcard \<open>{id}\<close>. A pattern for GET also matches HEAD. A
  path that is not clean (empty segments, \<open>.\<close> or \<open>..\<close>) is redirected to the clean
  path with 301, but not for CONNECT; a path that matches only patterns of other methods is
  answered with 405, any other path with 404. These three answers of the router have a
  text or no body, and headers of their own, that are left out here.
\<close>

fun path_segments :: "string \<Rightarrow> string list" where
  "path_segments [] = [[]]"
| "path_segments (c # cs) =
     (if c = CHR ''/'' then [] # path_segments cs
      else (case path_segments cs of [] \<Rightarrow> [[c]] | s # ss \<Rightarrow> (c # s) # ss))"

text \<open>\<open>path.Clean\<close> of a rooted path on its segments, and \<open>cleanPath\<close> of net/http.\<close>

fun clean_segments :: "string list \<Rightarrow> string list \<Rightarrow> string list" where
  "clean_segments acc [] = rev acc"
| "clean_segments acc (s # ss) =
     clean_segments (if s = [] \<or> s = ''.'' then acc else if s = ''..'' then tl acc else s # acc) ss"

definition clean_path :: "string \<Rightarrow> string" where
  "clean_path p =
     (let rooted = (if p = [] \<or> hd p \<noteq> CHR ''/'' then CHR ''/'' # p else p);
          segs = clean_segments [] (path_segments rooted);
          np = (if segs = [] then ''/'' else concat (map (\<lambda>s. CHR ''/'' # s) segs)) in
      if last rooted = CHR ''/'' \<and> np \<noteq> ''/'' then np @ ''/'' else np)"

datatype pattern = Pattern string string

fun match_segments :: "string list \<Rightarrow> string list \<Rightarrow> string option" where
  "match_segments [] [] = Some []"
| "match_segments (p # ps) (s # ss) =
     (case match_segments ps ss of
        None \<Rightarrow> None
      | Some i \<Rightarrow> if p = ''{id}'' \<and> s \<noteq> [] then Some s else if p = s then Some i else None)"
| "match_segments _ _ = None"

fun match_method :: "string \<Rightarrow> string \<Rightarrow> bool" where
  "match_method m m' \<longleftrightarrow> m = m' \<or> (m = ''GET'' \<and> m' = ''HEAD'')"

fun match_pattern :: "pattern \<Rightarrow> request \<Rightarrow> string option" where
  "match_pattern (Pattern m p) r =
     (if match_method m (rq_Method r) then match_segments (path_segments p) (path_segments (rq_Path r)) else None)"

fun mux_route :: "(pattern \<times> 'r handler) list \<Rightarrow> request \<Rightarrow> (string \<times> 'r handler) option" where
  "mux_route [] r = None"
| "mux_route ((p, h) # rs) r = (case match_pattern p r of Some i \<Rightarrow> Some (i, h) | None \<Rightarrow> mux_route rs r)"

fun match_path :: "pattern \<Rightarrow> request \<Rightarrow> bool" where
  "match_path (Pattern m p) r \<longleftrightarrow> match_segments (path_segments p) (path_segments (rq_Path r)) \<noteq> None"

definition path_known :: "(pattern \<times> 'r handler) list \<Rightarrow> request \<Rightarrow> bool" where
  "path_known rs r \<longleftrightarrow> list_ex (\<lambda>p. match_path (fst p) r) rs"

definition serve_mux :: "(pattern \<times> 'r handler) list \<Rightarrow> 'r handler" where
  "serve_mux rs r =
     (if rq_Method r \<noteq> ''CONNECT'' \<and> clean_path (rq_Path r) \<noteq> rq_Path r then respond (WriteHeader 301)
      else
      case mux_route rs r of
        Some (i, h) \<Rightarrow> h (r\<lparr>rq_PathID := i\<rparr>)
      | None \<Rightarrow> respond (WriteHeader (if path_known rs r then 405 else 404)))"

section \<open>The routes of the program\<close>

text \<open>\<open>TransferHandler.RegisterRoutes\<close>, which main.go does not call.\<close>

definition RegisterRoutes :: "'r env \<Rightarrow> (pattern \<times> 'r handler) list" where
  "RegisterRoutes E =
     [(Pattern ''POST'' ''/api/v1/transfers'', handleTransfer E), (Pattern ''GET'' ''/api/v1/health'', handleHealth)]"

definition RegisterAuthRoutes :: "'r env \<Rightarrow> (pattern \<times> 'r handler) list" where
  "RegisterAuthRoutes E = [(Pattern ''POST'' ''/api/v1/auth/logout'', handleLogout E)]"

definition RegisterAccountRoutes :: "'r env \<Rightarrow> string \<Rightarrow> (pattern \<times> 'r handler) list" where
  "RegisterAccountRoutes E secret =
     [(Pattern ''GET'' ''/api/v1/accounts'', Protect E secret (handleGetAccounts E)),
      (Pattern ''GET'' ''/api/v1/accounts/{id}/balance'', Protect E secret (handleGetBalance E)),
      (Pattern ''GET'' ''/api/v1/accounts/{id}/history'', Protect E secret (handleGetHistory E))]"

definition RegisterFundingRoutes :: "'r env \<Rightarrow> string \<Rightarrow> (pattern \<times> 'r handler) list" where
  "RegisterFundingRoutes E secret =
     (let protected = Protect E secret (handleFund E); systemOnly = requireSystemUser E protected in
      [(Pattern ''POST'' ''/api/v1/transactions/system/fund'', systemOnly)])"

definition rateLimiter :: RateLimiterConfig where
  "rateLimiter = \<lparr>MaxRequests = 5, Window = 60 * Second\<rparr>"

definition health :: "'r handler" where
  "health r = respond (\<lambda>rw. Encode (JObj [(''status'', JStr ''ok''), (''service'', JStr ''omniledger'')])
     (WriteHeader 200 (header_Set ''Content-Type'' ''application/json'' rw)))"

definition main_routes :: "'r env \<Rightarrow> Config \<Rightarrow> (pattern \<times> 'r handler) list" where
  "main_routes E cfg =
     (let secret = cfg_JWTSecret cfg; isSecure = (cfg_Env cfg = ''production'') in
      [(Pattern ''GET'' ''/api/v1/health'', health)] @
      RegisterAuthRoutes E @
      [(Pattern ''POST'' ''/api/v1/auth/login'', Limit E rateLimiter ''auth:login'' (HandleLogin E secret isSecure)),
       (Pattern ''POST'' ''/api/v1/auth/register'', Limit E rateLimiter ''auth:register'' (HandleRegister E secret isSecure)),
       (Pattern ''POST'' ''/api/v1/transfers'', Limit E rateLimiter ''transfers'' (Protect E secret (ServeTransfer E)))] @
      RegisterAccountRoutes E secret @
      RegisterFundingRoutes E secret)"

text \<open>
  One request: the server hands the handler a fresh context and response, and recovers from
  a panic; the response of a panicked handler is not sent.
\<close>

definition serve :: "'r env \<Rightarrow> ('r handler \<Rightarrow> 'r handler) \<Rightarrow> Config \<Rightarrow> request \<Rightarrow> 'r world \<Rightarrow> ResponseWriter option \<times> 'r world" where
  "serve E cors cfg r w =
     (case cors (serve_mux (main_routes E cfg)) (r\<lparr>rq_Context := ctx_Background\<rparr>) (new_response, w) of
        (Inl panicked, (_, w')) \<Rightarrow> (None, w')
      | (Inr _, (rw, w')) \<Rightarrow> (Some rw, w'))"

section \<open>Middlewares in a row\<close>

text \<open>The rate limiter around the session check, as in front of the transfers.\<close>

interpretation limited_session: guard_pair "Limit E cfg route" "Protect E secret" for E cfg route secret
  by (rule guard_pair.intro; unfold_locales)

end
