(* ===== verification/Api_Props.thy ===== *)
theory Api_Props
  imports Api_Server Auth_Props
begin

text \<open>
  What holds of every request to the server, whatever its route: the invariant of the bank,
  the total of all balances and the books so far are kept; and what the order of the
  middlewares makes of the funding and the logout endpoint.
\<close>

section \<open>Frames of handlers\<close>

abbreviation world_rel :: "(db \<Rightarrow> db \<Rightarrow> bool) \<Rightarrow> 'r served \<Rightarrow> 'r served \<Rightarrow> bool" where
  "world_rel R \<equiv> \<lambda>s t. R (w_db (snd s)) (w_db (snd t))"

lemma world_rel_order: "reflp R \<Longrightarrow> reflp (world_rel R)" "transp R \<Longrightarrow> transp (world_rel R)"
  by (auto simp: reflp_def transp_def)

lemma frames_same:
  fixes R :: "db \<Rightarrow> db \<Rightarrow> bool"
  assumes "reflp R" and "\<And>w. w_db (snd (m w)) = w_db w"
  shows "frames (\<lambda>v w. R (w_db v) (w_db w)) m"
  using assms by (simp add: frames_def reflp_def)

lemma frames_respond: "reflp R \<Longrightarrow> frames (world_rel R) (respond f)"
  by (simp add: frames_def reflp_def)

lemma frames_error_response: "reflp R \<Longrightarrow> frames (world_rel R) (error_response c m)"
  unfolding error_response_def by (rule frames_respond)

lemma frames_call:
  "frames (\<lambda>v w. R (w_db v) (w_db w)) m \<Longrightarrow> frames (world_rel R) (call m)"
  by (auto simp: frames_def call_def split: prod.splits) (metis snd_conv)

lemma frames_sum:
  "(\<And>e. frames R (f e)) \<Longrightarrow> (\<And>a. frames R (g a)) \<Longrightarrow> frames R (case x of Inl e \<Rightarrow> f e | Inr a \<Rightarrow> g a)"
  by (cases x) auto

lemma frames_option:
  "frames R m \<Longrightarrow> (\<And>a. frames R (f a)) \<Longrightarrow> frames R (case x of None \<Rightarrow> m | Some a \<Rightarrow> f a)"
  by (cases x) auto

lemma frames_world_attempt:
  "transp R \<Longrightarrow> frames (world_rel R) m \<Longrightarrow> (\<And>a. frames (world_rel R) (f a)) \<Longrightarrow> frames (world_rel R) (attempt m f)"
  by (rule frames_attempt [OF world_rel_order(2)])

lemma frames_world_ok_fail: "reflp R \<Longrightarrow> frames (world_rel R) (ok a)" "reflp R \<Longrightarrow> frames (world_rel R) (fail e)"
  by (simp_all add: frames_def ok_def fail_def reflp_def)

lemmas handler_frames = frames_world_attempt frames_respond frames_error_response frames_call frames_sum frames_option
  frames_world_ok_fail frames_if frames_prod

lemma frames_queries:
  fixes R :: "db \<Rightarrow> db \<Rightarrow> bool"
  assumes "reflp R"
  shows "frames (\<lambda>v w. R (w_db v) (w_db w)) (GetAccountsByUserID E u)"
    and "frames (\<lambda>v w. R (w_db v) (w_db w)) (GetBalanceReadOnly E a)"
    and "frames (\<lambda>v w. R (w_db v) (w_db w)) (GetTransactionHistory E a l f)"
  by (rule frames_same [OF assms]; simp)+

lemma Login_db: "w_db (snd (Login E secret req w)) = w_db w"
proof -
  obtain r w' where run: "Login E secret req w = (r, w')" by fastforce
  then show ?thesis
    by (cases r) (auto simp: Login_def attempt_eq map_error_Inl split: if_splits dest!: query_run IssueToken_run)
qed

section \<open>What a request may do to the books\<close>

definition books_kept :: "db \<Rightarrow> db \<Rightarrow> bool" where
  "books_kept d d' \<longleftrightarrow> (bank_ok d \<longrightarrow> bank_ok d' \<and> total_balance d' = total_balance d \<and> appends d d')"

lemma books_kept_order: "reflp books_kept" "transp books_kept"
  using appends_refl transpD [OF appends_trans] by (auto simp: books_kept_def reflp_def transp_def)

lemma transfer_effect_appends: "transfer_effect E req txnID n d d' \<Longrightarrow> appends d d'"
  by (elim transfer_effect_posting) (simp add: append_txn_appends)

lemma transfer_books_kept:
  assumes "decimal_spec E"
  shows "frames (\<lambda>v w. books_kept (w_db v) (w_db w)) (TransferFunds E req)"
proof (rule framesI)
  fix w
  consider "w_db (snd (TransferFunds E req w)) = w_db w"
    | txnID n where "transfer_effect E req txnID n (w_db w) (w_db (snd (TransferFunds E req w)))"
    using TransferFunds_db [of E req w] by blast
  then show "books_kept (w_db w) (w_db (snd (TransferFunds E req w)))"
  proof cases
    case 1
    with reflpD [OF books_kept_order(1)] show ?thesis by simp
  next
    case 2
    then show ?thesis
      using transfer_effect_bank_ok [OF 2 assms] transfer_effect_total [OF 2] transfer_effect_appends [OF 2]
      by (simp add: books_kept_def bank_ok_def)
  qed
qed

lemma register_books_kept: "frames (\<lambda>v w. books_kept (w_db v) (w_db w)) (Register E secret req)"
  by (rule framesI) (use Register_books in \<open>auto simp: books_kept_def appends_def Let_def\<close>)

text \<open>No booking at all, and no ledger row: what a database made from the schema starts with.\<close>

definition no_bookings :: "db \<Rightarrow> bool" where
  "no_bookings d \<longleftrightarrow> transactions d = [] \<and> ledger d = []"

lemma no_bookings_no_transfer:
  "transfer_effect E req txnID n d d' \<Longrightarrow> decimal_spec E \<Longrightarrow> no_bookings d \<Longrightarrow> False"
  using transfer_effect_covered [of E req txnID n d d'] transfer_effect_amount [of E req txnID n d d']
  by (auto simp: no_bookings_def)

definition stays_empty :: "db \<Rightarrow> db \<Rightarrow> bool" where
  "stays_empty d d' \<longleftrightarrow> (no_bookings d \<longrightarrow> no_bookings d')"

lemma stays_empty_order: "reflp stays_empty" "transp stays_empty"
  by (auto simp: stays_empty_def reflp_def transp_def)

lemma transfer_stays_empty:
  assumes "decimal_spec E"
  shows "frames (\<lambda>v w. stays_empty (w_db v) (w_db w)) (TransferFunds E req)"
  by (rule framesI) (metis TransferFunds_db assms no_bookings_no_transfer stays_empty_def)

lemma register_stays_empty: "frames (\<lambda>v w. stays_empty (w_db v) (w_db w)) (Register E secret req)"
proof (rule framesI)
  fix w
  obtain r w' where run: "Register E secret req w = (r, w')" by fastforce
  from Register_db [OF run] run show "stays_empty (w_db w) (w_db (snd (Register E secret req w)))"
    by (auto simp: stays_empty_def no_bookings_def user_added_def account_added_def)
qed

section \<open>Every route\<close>

text \<open>
  A relation of databases that no transfer and no registration leaves is kept by every
  request that arrives with a fresh context: the other handlers only read, and the funding
  handler is never reached.
\<close>

lemma requireSystemUser_anonymous:
  "rq_Context r = ctx_Background \<Longrightarrow> requireSystemUser E next r = error_response 401 ''not authenticated''"
  by (simp add: requireSystemUser_def UserIDFromCtx_def ctx_Background_def)

lemma handleLogout_anonymous:
  "rq_Context r = ctx_Background \<Longrightarrow> handleLogout E r =
     (case request_Cookie r ''vault_token'' of
        None \<Rightarrow> error_response 401 ''not authenticated''
      | Some v \<Rightarrow> if length v < 8 then fail ''runtime error: slice bounds out of range''
                  else error_response 400 (''missing token context, cookie: '' @ take 8 v @ ''...''))"
  by (simp add: handleLogout_def JTIFromCtx_def ctx_Background_def)

lemma frames_routes:
  assumes order: "reflp R" "transp R"
    and transfer: "\<And>req. frames (\<lambda>v w. R (w_db v) (w_db w)) (TransferFunds E req)"
    and register: "\<And>secret req. frames (\<lambda>v w. R (w_db v) (w_db w)) (Register E secret req)"
    and "(p, h) \<in> set (main_routes E cfg)" and "rq_Context r = ctx_Background"
  shows "frames (world_rel R) (h r)"
proof -
  note intros = handler_frames [of R] order transfer register frames_queries frames_same Login_db
  have T: "frames (world_rel R) (ServeTransfer E q)" for q
    unfolding ServeTransfer_def handleTransfer_def by (intro handler_frames order transfer)
  have G: "frames (world_rel R) (HandleRegister E s b q)" for s b q
    unfolding HandleRegister_def handleRegister_def by (intro handler_frames order register)
  have L: "frames (world_rel R) (HandleLogin E s b q)" for s b q
    unfolding HandleLogin_def handleLogin_def by (intro handler_frames order frames_same Login_db)
  have V: "frames (world_rel R) (verifyOwnership E u a)" for u a
    unfolding verifyOwnership_def by (intro handler_frames order frames_queries)
  have A: "frames (world_rel R) (handleGetAccounts E q)" "frames (world_rel R) (handleGetBalance E q)"
      "frames (world_rel R) (handleGetHistory E q)" for q
    unfolding handleGetAccounts_def handleGetBalance_def handleGetHistory_def Let_def
    by (intro handler_frames order V frames_queries)+
  have O: "frames (world_rel R) (handleLogout E r)"
    unfolding handleLogout_anonymous [OF assms(6)] by (intro handler_frames order)
  have H: "frames (world_rel R) (health r)"
    unfolding health_def by (intro handler_frames order)
  have F: "frames (world_rel R) (requireSystemUser E f r)" for f
    unfolding requireSystemUser_anonymous [OF assms(6)] by (intro handler_frames order)
  note wrapped = limited_session.pair.wrap_frames [OF _ order(1)] protect.wrap_frames [OF _ order(1)]
    limit.wrap_frames [OF _ order(1)]
  from assms(5) show ?thesis
    unfolding main_routes_def RegisterAuthRoutes_def RegisterAccountRoutes_def RegisterFundingRoutes_def Let_def
    by (auto intro!: H O F wrapped T G L A)
qed

lemma frames_mux:
  assumes "\<And>p h r. (p, h) \<in> set rs \<Longrightarrow> rq_Context r = ctx_Background \<Longrightarrow> frames (world_rel R) (h r)"
    and "reflp R" and "rq_Context r = ctx_Background"
  shows "frames (world_rel R) (serve_mux rs r)"
proof (cases "mux_route rs r")
  case None
  then show ?thesis by (auto simp: serve_mux_def frames_respond assms(2))
next
  case (Some ih)
  obtain i h where ih: "ih = (i, h)" by fastforce
  have "\<exists>p. (p, h) \<in> set rs"
    using Some unfolding ih by (induction rs r rule: mux_route.induct) (auto split: option.splits)
  then obtain p where "(p, h) \<in> set rs" ..
  then have "frames (world_rel R) (h (r\<lparr>rq_PathID := i\<rparr>))" using assms(1,3) by simp
  with Some show ?thesis by (auto simp: serve_mux_def ih frames_respond assms(2))
qed

text \<open>
  github.com/rs/cors: a request is answered (a preflight) or passed on as it came, with
  headers added to the response; nothing else of the program is touched.
\<close>

definition cors_spec :: "('r handler \<Rightarrow> 'r handler) \<Rightarrow> bool" where
  "cors_spec cors \<longleftrightarrow>
     (\<forall>next r rw w. \<exists>rw'. cors next r (rw, w) = (Inr (), (rw', w)) \<or> cors next r (rw, w) = next r (rw', w))"

lemma serve_frames:
  fixes E :: "'r env"
  assumes "cors_spec cors" and "reflp R" "transp R"
    and "\<And>req. frames (\<lambda>v w. R (w_db v) (w_db w)) (TransferFunds E req)"
    and "\<And>secret req. frames (\<lambda>v w. R (w_db v) (w_db w)) (Register E secret req)"
  shows "R (w_db w) (w_db (snd (serve E cors cfg r w)))"
proof -
  let ?r = "r\<lparr>rq_Context := ctx_Background\<rparr>" and ?mux = "serve_mux (main_routes E cfg)"
  have mux: "frames (world_rel R) (?mux ?r)"
  proof (rule frames_mux [where R = R])
    fix p h and q :: request assume "(p, h) \<in> set (main_routes E cfg)" and "rq_Context q = ctx_Background"
    with assms(2-5) show "frames (world_rel R) (h q)" by (rule frames_routes)
  qed (simp_all add: assms(2))
  obtain rw' where "cors ?mux ?r (new_response, w) = (Inr (), (rw', w)) \<or> cors ?mux ?r (new_response, w) = ?mux ?r (rw', w)"
    using assms(1) unfolding cors_spec_def by blast
  then show ?thesis
  proof
    assume "cors ?mux ?r (new_response, w) = (Inr (), (rw', w))"
    then show ?thesis using reflpD [OF assms(2)] by (simp add: serve_def)
  next
    assume eq: "cors ?mux ?r (new_response, w) = ?mux ?r (rw', w)"
    obtain res rw'' w'' where run: "?mux ?r (rw', w) = (res, (rw'', w''))" by (metis prod.collapse)
    from frames_run [OF mux run] have "R (w_db w) (w_db w'')" by simp
    then show ?thesis using eq run by (simp add: serve_def split: sum.splits)
  qed
qed

section \<open>A server run\<close>

definition serve_all :: "'r env \<Rightarrow> ('r handler \<Rightarrow> 'r handler) \<Rightarrow> Config \<Rightarrow> request list \<Rightarrow> 'r world \<Rightarrow> 'r world" where
  "serve_all E cors cfg rs w = foldl (\<lambda>w r. snd (serve E cors cfg r w)) w rs"

text \<open>
  The server as a transition system, started on a database made from the schema: each
  request is a step, and that nothing is booked is an invariant.
\<close>

interpretation api: step_system
  "\<lambda>w. decimal_spec E \<and> cors_spec cors \<and> (\<exists>now. w_db w = seed_db now)"
  "\<lambda>w r w'. w' = snd (serve E cors cfg r w)"
  "\<lambda>w. decimal_spec E \<and> cors_spec cors \<and> no_bookings (w_db w)"
  for E cors cfg
proof unfold_locales
  fix w :: "'a world"
  assume "decimal_spec E \<and> cors_spec cors \<and> (\<exists>now. w_db w = seed_db now)"
  then show "decimal_spec E \<and> cors_spec cors \<and> no_bookings (w_db w)"
    by (auto simp: no_bookings_def seed_db_def)
next
  fix w w' :: "'a world" and r
  assume w: "decimal_spec E \<and> cors_spec cors \<and> no_bookings (w_db w)" and step: "w' = snd (serve E cors cfg r w)"
  have "stays_empty (w_db w) (w_db (snd (serve E cors cfg r w)))"
    by (rule serve_frames [where R = stays_empty, OF _ stays_empty_order transfer_stays_empty register_stays_empty])
      (use w in auto)
  with w step show "decimal_spec E \<and> cors_spec cors \<and> no_bookings (w_db w')"
    by (simp add: stays_empty_def)
qed

lemma api_run: "api.run E cors cfg w rs (serve_all E cors cfg rs w)"
  by (induction rs arbitrary: w) (auto simp: serve_all_def intro: api.run_nil api.run_cons)

section \<open>A sample server\<close>

definition sample_cors :: "'r handler \<Rightarrow> 'r handler" where
  "sample_cors next r s = next r (header_Set ''Vary'' ''Origin'' (fst s), snd s)"

lemma sample_cors_spec: "cors_spec sample_cors"
  by (auto simp: cors_spec_def sample_cors_def)

definition sample_cfg :: Config where
  "sample_cfg = projr (Load id sample_environ)"

definition seed_world :: "sample_redis world" where
  "seed_world = sample_world\<lparr>w_db := seed_db 0\<rparr>"

definition sample_fund_request :: request where
  "sample_fund_request = sample_request\<lparr>rq_Method := ''POST'', rq_Path := ''/api/v1/transactions/system/fund''\<rparr>"

definition sample_logout_request :: request where
  "sample_logout_request = sample_request\<lparr>rq_Method := ''POST'', rq_Path := ''/api/v1/auth/logout'',
     rq_Cookies := [(''vault_token'', ''tok'')]\<rparr>"

section \<open>Properties\<close>

text \<open>
  Property C10. Whatever requests the server handles, in whatever order and with whatever
  faults of the database, Redis and the network: the invariant of the bank is kept, the sum
  of all balances stays the same, and transactions and ledger rows are only ever appended.
\<close>

theorem server_keeps_books:
  assumes "decimal_spec E" and "cors_spec cors" and "bank_ok (w_db w)"
  shows "let w' = serve_all E cors cfg rs w in
    bank_ok (w_db w') \<and> total_balance (w_db w') = total_balance (w_db w) \<and> appends (w_db w) (w_db w')"
proof -
  have "books_kept (w_db w) (w_db (serve_all E cors cfg rs w))"
  proof (induction rs arbitrary: w)
    case Nil
    then show ?case using reflpD [OF books_kept_order(1)] by (simp add: serve_all_def)
  next
    case (Cons r rs)
    have "books_kept (w_db w) (w_db (snd (serve E cors cfg r w)))"
      by (rule serve_frames [where R = books_kept, OF assms(2) books_kept_order transfer_books_kept [OF assms(1)]
            register_books_kept])
    then show ?case using Cons [of "snd (serve E cors cfg r w)"] transpD [OF books_kept_order(2)]
      by (auto simp: serve_all_def)
  qed
  with assms(3) show ?thesis by (simp add: books_kept_def Let_def)
qed

theorem server_keeps_books_witness:
  "let w' = serve_all sample_env sample_cors sample_cfg [sample_request, sample_fund_request] sample_world in
    bank_ok (w_db w') \<and> total_balance (w_db w') = total_balance sample_db \<and> appends sample_db (w_db w')"
proof -
  have "bank_ok (w_db sample_world)" using sample_bank_ok by (simp add: sample_world_def)
  from server_keeps_books [OF sample_decimal sample_cors_spec this] show ?thesis by (simp add: sample_world_def)
qed

text \<open>
  Property C11. A bank started from the schema stays empty for ever: over HTTP nothing is
  booked, so every balance is 0 after any sequence of requests. No route funds an account,
  and no transfer goes through without funds.
\<close>

theorem server_from_seed_stays_empty:
  assumes "decimal_spec E" and "cors_spec cors" and "w_db w = seed_db now"
  shows "transactions (w_db (serve_all E cors cfg rs w)) = [] \<and>
    (\<forall>a. balance_of (ledger (w_db (serve_all E cors cfg rs w))) a = 0)"
proof -
  have "no_bookings (w_db (serve_all E cors cfg rs w))"
    using api.run_from_start [OF _ api_run, of E cors w cfg rs] assms by blast
  then show ?thesis by (simp add: no_bookings_def)
qed

definition fund_request :: "request \<Rightarrow> bool" where
  "fund_request r \<longleftrightarrow> rq_Method r = ''POST'' \<and> rq_Path r = ''/api/v1/transactions/system/fund''"

definition logout_request :: "request \<Rightarrow> bool" where
  "logout_request r \<longleftrightarrow> rq_Method r = ''POST'' \<and> rq_Path r = ''/api/v1/auth/logout''"

lemma mux_fund:
  "fund_request r \<Longrightarrow> serve_mux (main_routes E cfg) r =
     requireSystemUser E (Protect E (cfg_JWTSecret cfg) (handleFund E)) (r\<lparr>rq_PathID := []\<rparr>)"
  by (simp add: fund_request_def serve_mux_def clean_path_def main_routes_def RegisterAuthRoutes_def RegisterAccountRoutes_def
      RegisterFundingRoutes_def Let_def)

lemma mux_logout:
  "logout_request r \<Longrightarrow> serve_mux (main_routes E cfg) r = handleLogout E (r\<lparr>rq_PathID := []\<rparr>)"
  by (simp add: logout_request_def serve_mux_def clean_path_def main_routes_def RegisterAuthRoutes_def RegisterAccountRoutes_def
      RegisterFundingRoutes_def Let_def)

theorem server_from_seed_stays_empty_witness:
  "transactions (w_db (serve_all sample_env sample_cors sample_cfg [sample_fund_request] seed_world)) = []"
  using server_from_seed_stays_empty [OF sample_decimal sample_cors_spec, of seed_world 0] by (simp add: seed_world_def)

text \<open>
  Property C13. The funding endpoint refuses everyone: the privilege check runs before the
  session check has put a user into the context, so every request is answered 401 ``not
  authenticated'', with whatever cookie, and nothing of the system changes.
\<close>

theorem fund_endpoint_refuses_all:
  assumes "fund_request r"
  shows "serve E (\<lambda>h. h) cfg r w = (Some (writeJSON 401 (error_body ''not authenticated'') new_response), w) \<and>
    (\<forall>cors. cors_spec cors \<longrightarrow> snd (serve E cors cfg r w) = w)"
proof -
  let ?r = "r\<lparr>rq_Context := ctx_Background\<rparr>" and ?mux = "serve_mux (main_routes E cfg)"
  have mux: "?mux ?r = error_response 401 ''not authenticated''"
    using assms by (subst mux_fund) (simp_all add: fund_request_def requireSystemUser_anonymous)
  have "snd (serve E cors cfg r w) = w" if cors: "cors_spec cors" for cors
  proof -
    obtain rw' where "cors ?mux ?r (new_response, w) = (Inr (), (rw', w)) \<or> cors ?mux ?r (new_response, w) = ?mux ?r (rw', w)"
      using cors unfolding cors_spec_def by blast
    then show ?thesis by (auto simp: serve_def mux error_response_def)
  qed
  then show ?thesis by (simp add: serve_def mux error_response_def)
qed

theorem fund_endpoint_refuses_all_witness:
  "serve sample_env (\<lambda>h. h) sample_cfg sample_fund_request sample_world =
     (Some (writeJSON 401 (error_body ''not authenticated'') new_response), sample_world) \<and>
   snd (serve sample_env sample_cors sample_cfg sample_fund_request sample_world) = sample_world"
proof -
  have "fund_request sample_fund_request" by (simp add: fund_request_def sample_fund_request_def)
  from fund_endpoint_refuses_all [OF this] sample_cors_spec show ?thesis by blast
qed

text \<open>
  Property C14. The logout endpoint revokes nothing: it is mounted without the session
  check, so the handler never sees a token identifier; it answers 401 or 400, or panics on
  a cookie shorter than eight bytes, and Redis and the database stay as they are. A token
  stays valid after its owner logged out.
\<close>

theorem logout_endpoint_revokes_nothing:
  assumes "logout_request r"
  shows "serve E (\<lambda>h. h) cfg r w =
      ((case request_Cookie r ''vault_token'' of
          None \<Rightarrow> Some (writeJSON 401 (error_body ''not authenticated'') new_response)
        | Some v \<Rightarrow> if length v < 8 then None
                    else Some (writeJSON 400 (error_body (''missing token context, cookie: '' @ take 8 v @ ''...'')) new_response)), w) \<and>
    (\<forall>cors. cors_spec cors \<longrightarrow> snd (serve E cors cfg r w) = w)"
proof -
  let ?r = "r\<lparr>rq_Context := ctx_Background\<rparr>" and ?mux = "serve_mux (main_routes E cfg)"
  have mux: "?mux ?r = (case request_Cookie r ''vault_token'' of
        None \<Rightarrow> error_response 401 ''not authenticated''
      | Some v \<Rightarrow> if length v < 8 then fail ''runtime error: slice bounds out of range''
                  else error_response 400 (''missing token context, cookie: '' @ take 8 v @ ''...''))"
    using assms by (subst mux_logout) (simp_all add: logout_request_def handleLogout_anonymous request_Cookie_def)
  have "snd (serve E cors cfg r w) = w" if cors: "cors_spec cors" for cors
  proof -
    obtain rw' where "cors ?mux ?r (new_response, w) = (Inr (), (rw', w)) \<or> cors ?mux ?r (new_response, w) = ?mux ?r (rw', w)"
      using cors unfolding cors_spec_def by blast
    then show ?thesis by (auto simp: serve_def mux error_response_def fail_def split: option.splits)
  qed
  then show ?thesis by (simp add: serve_def mux error_response_def fail_def split: option.splits)
qed

theorem logout_endpoint_revokes_nothing_witness:
  "serve sample_env (\<lambda>h. h) sample_cfg sample_logout_request sample_world = (None, sample_world) \<and>
   snd (serve sample_env sample_cors sample_cfg sample_logout_request sample_world) = sample_world"
proof -
  have "logout_request sample_logout_request" by (simp add: logout_request_def sample_logout_request_def)
  from logout_endpoint_revokes_nothing [OF this] sample_cors_spec show ?thesis
    by (auto simp: request_Cookie_def sample_logout_request_def)
qed

end
