(* ===== verification/Email_Templates.thy ===== *)
theory Email_Templates
  imports Domain_Model
begin

text \<open>
  internal/email/templates.go: the subject and the HTML body of a job, and the message that
  worker.go makes of them. Texts are bytes of UTF-8; the parts of the page that the three
  templates share are written once.
\<close>

section \<open>Jobs\<close>

type_synonym JobType = string

definition JobWelcome :: JobType where
  "JobWelcome = ''welcome''"

definition JobTransactionSuccess :: JobType where
  "JobTransactionSuccess = ''transaction_success''"

definition JobTransactionFailed :: JobType where
  "JobTransactionFailed = ''transaction_failed''"

record Job =
  job_Type :: JobType
  job_To :: string
  job_Username :: string
  job_ExtraData :: "(string \<times> string) list"

text \<open>Reading a Go map: the zero value when the key is absent.\<close>

definition extra :: "Job \<Rightarrow> string \<Rightarrow> string" where
  "extra job k = (case map_of (job_ExtraData job) k of None \<Rightarrow> [] | Some v \<Rightarrow> v)"

definition newline :: string where
  "newline = [CHR 0x0A]"

fun join_lines :: "string list \<Rightarrow> string" where
  "join_lines [] = []"
| "join_lines [l] = l"
| "join_lines (l # ls) = l @ newline @ join_lines ls"

section \<open>Templates\<close>

definition page_top :: "string list" where
  \<open>page_top =
     ['''',
      ''<!DOCTYPE html>'',
      ''<html>'',
      ''<head><meta charset="UTF-8"></head>'',
      ''<body style="font-family: 'Segoe UI', Arial, sans-serif; background: #0f0f0f; color: #e0e0e0; padding: 40px;">'',
      ''  <div style="max-width: 560px; margin: auto; background: #1a1a2e; border-radius: 12px; padding: 32px; border: 1px solid #2a2a4a;">'']\<close>

definition page_bottom :: "string list" where
  \<open>page_bottom =
     [''  </div>'',
      ''</body>'',
      ''</html>'']\<close>

definition mail_page :: "string list \<Rightarrow> string" where
  "mail_page content = join_lines (page_top @ content @ page_bottom)"

definition renderWelcome :: "Job \<Rightarrow> string \<times> string" where
  \<open>renderWelcome job =
     ((''Welcome to OmniLedger '' @ [CHR 0xF0, CHR 0x9F, CHR 0x8F, CHR 0xA6],
      mail_page
     [''    <h1 style="color: #a78bfa; margin-top: 0;">Welcome to OmniLedger</h1>'',
      ''    <p>Hello <strong>'' @ job_Username job @ ''</strong>,</p>'',
      ''    <p>Your account has been created successfully. You are now part of the most secure banking system ever built.</p>'',
      ''    <hr style="border-color: #2a2a4a;">'',
      ''    <p style="font-size: 13px; color: #888;">If you did not create this account, please contact support immediately.</p>'']))\<close>

definition renderTransactionSuccess :: "Job \<Rightarrow> string \<times> string" where
  \<open>renderTransactionSuccess job =
     (let amount = extra job ''amount''; txnID = extra job ''transaction_id''; direction = extra job ''direction'' in
     (''Transaction Successful '' @ [CHR 0xE2, CHR 0x80, CHR 0x94] @ '' '' @ [CHR 0xE2, CHR 0x82, CHR 0xB9] @ amount @ '' '' @ direction,
      mail_page
     [''    <h1 style="color: #34d399; margin-top: 0;">Transaction Successful '' @ [CHR 0xE2, CHR 0x9C, CHR 0x93] @ ''</h1>'',
      ''    <p>Hello <strong>'' @ job_Username job @ ''</strong>,</p>'',
      ''    <p>Your transaction has been completed successfully.</p>'',
      ''    <table style="width: 100%; border-collapse: collapse; margin: 16px 0;">'',
      ''      <tr><td style="padding: 8px; color: #888;">Amount</td><td style="padding: 8px; font-weight: bold;">'' @ [CHR 0xE2, CHR 0x82, CHR 0xB9] @ amount @ ''</td></tr>'',
      ''      <tr><td style="padding: 8px; color: #888;">Direction</td><td style="padding: 8px;">'' @ direction @ ''</td></tr>'',
      ''      <tr><td style="padding: 8px; color: #888;">Transaction ID</td><td style="padding: 8px; font-family: monospace; font-size: 12px;">'' @ txnID @ ''</td></tr>'',
      ''    </table>'',
      ''    <hr style="border-color: #2a2a4a;">'',
      ''    <p style="font-size: 13px; color: #888;">This is an automated notification from OmniLedger.</p>'']))\<close>

definition renderTransactionFailed :: "Job \<Rightarrow> string \<times> string" where
  \<open>renderTransactionFailed job =
     (let amount = extra job ''amount''; reason = extra job ''reason'' in
     (''Transaction Failed '' @ [CHR 0xE2, CHR 0x80, CHR 0x94] @ '' '' @ [CHR 0xE2, CHR 0x82, CHR 0xB9] @ amount,
      mail_page
     [''    <h1 style="color: #f87171; margin-top: 0;">Transaction Failed '' @ [CHR 0xE2, CHR 0x9C, CHR 0x97] @ ''</h1>'',
      ''    <p>Hello <strong>'' @ job_Username job @ ''</strong>,</p>'',
      ''    <p>Unfortunately, your transaction of <strong>'' @ [CHR 0xE2, CHR 0x82, CHR 0xB9] @ amount @ ''</strong> could not be processed.</p>'',
      ''    <table style="width: 100%; border-collapse: collapse; margin: 16px 0;">'',
      ''      <tr><td style="padding: 8px; color: #888;">Amount</td><td style="padding: 8px; font-weight: bold;">'' @ [CHR 0xE2, CHR 0x82, CHR 0xB9] @ amount @ ''</td></tr>'',
      ''      <tr><td style="padding: 8px; color: #888;">Reason</td><td style="padding: 8px; color: #f87171;">'' @ reason @ ''</td></tr>'',
      ''    </table>'',
      ''    <hr style="border-color: #2a2a4a;">'',
      ''    <p style="font-size: 13px; color: #888;">Please retry or contact support if the issue persists.</p>'']))\<close>

definition RenderTemplate :: "Job \<Rightarrow> string \<times> string" where
  "RenderTemplate job =
     (if job_Type job = JobWelcome then renderWelcome job
      else if job_Type job = JobTransactionSuccess then renderTransactionSuccess job
      else if job_Type job = JobTransactionFailed then renderTransactionFailed job
      else (''OmniLedger Notification'', ''<p>You have a new notification from OmniLedger.</p>''))"

section \<open>The message\<close>

record SMTPConfig =
  smtp_Host :: string
  smtp_Port :: string
  smtp_Username :: string
  smtp_Password :: string
  smtp_From :: string

definition crlf :: string where
  "crlf = [CHR 0x0D, CHR 0x0A]"

definition mail_message :: "SMTPConfig \<Rightarrow> Job \<Rightarrow> string" where
  \<open>mail_message cfg job =
     (case RenderTemplate job of (subject, body) \<Rightarrow>
        ''From: '' @ smtp_From cfg @ crlf @ ''To: '' @ job_To job @ crlf @ ''Subject: '' @ subject @ crlf @
        ''MIME-Version: 1.0'' @ crlf @ ''Content-Type: text/html; charset="UTF-8"'' @ crlf @ crlf @ body)\<close>

end
