(* ===== verification/Email_Worker.thy ===== *)
theory Email_Worker
  imports Email_Templates "HOL-Library.Multiset"
begin

text \<open>
  internal/email/worker.go: the worker pool as a state machine. The goroutines of the pool,
  the producers and the goroutine that shuts the pool down interleave; a step is one
  channel operation or one delivery. A \<open>select\<close> takes any of its ready cases. The queue
  is buffered, as main.go makes it. What became of each job is recorded: \<open>wk_accepted\<close>,
  \<open>wk_taken\<close> and \<open>wk_sent\<close> are histories, not state of the program. \<open>SendMail\<close> is
  the network, a parameter; it is given the credentials of \<open>smtp.PlainAuth\<close>: identity, user,
  password and host.
\<close>

datatype smtp_auth = PlainAuth string string string string

type_synonym send_mail = "string \<Rightarrow> smtp_auth \<Rightarrow> string \<Rightarrow> string list \<Rightarrow> string \<Rightarrow> string option"

section \<open>State\<close>

datatype goroutine = Waiting | Sending Job | Exited

datatype shutdown_phase = Running | QuitClosed | JobsClosed | Stopped

record Worker =
  wk_jobs :: "Job list"
  wk_capacity :: nat
  wk_smtp :: SMTPConfig
  wk_pool :: "goroutine list"
  wk_phase :: shutdown_phase
  wk_panicked :: bool
  wk_accepted :: "Job list"
  wk_dropped :: "Job list"
  wk_taken :: "Job list"
  wk_sent :: "(Job \<times> string option) list"

definition NewWorker :: "SMTPConfig \<Rightarrow> nat \<Rightarrow> nat \<Rightarrow> Worker" where
  "NewWorker cfg poolSize queueSize =
     \<lparr>wk_jobs = [], wk_capacity = queueSize, wk_smtp = cfg, wk_pool = [], wk_phase = Running, wk_panicked = False,
      wk_accepted = [], wk_dropped = [], wk_taken = [], wk_sent = []\<rparr>"

definition Start :: "nat \<Rightarrow> Worker \<Rightarrow> Worker" where
  "Start poolSize w = w\<lparr>wk_pool := wk_pool w @ replicate poolSize Waiting\<rparr>"

section \<open>Steps\<close>

text \<open>The channel \<open>quit\<close> is closed from \<open>QuitClosed\<close> on, the channel \<open>jobs\<close> from \<open>JobsClosed\<close> on.\<close>

definition quit_closed :: "Worker \<Rightarrow> bool" where
  "quit_closed w \<longleftrightarrow> wk_phase w \<noteq> Running"

definition jobs_closed :: "Worker \<Rightarrow> bool" where
  "jobs_closed w \<longleftrightarrow> wk_phase w = JobsClosed \<or> wk_phase w = Stopped"

definition Enqueue :: "Job \<Rightarrow> Worker \<Rightarrow> Worker" where
  "Enqueue job w =
     (if jobs_closed w then w\<lparr>wk_panicked := True\<rparr>
      else if length (wk_jobs w) < wk_capacity w
        then w\<lparr>wk_jobs := wk_jobs w @ [job], wk_accepted := wk_accepted w @ [job]\<rparr>
      else w\<lparr>wk_dropped := wk_dropped w @ [job]\<rparr>)"

definition send :: "send_mail \<Rightarrow> SMTPConfig \<Rightarrow> Job \<Rightarrow> string option" where
  "send SendMail cfg job =
     SendMail (smtp_Host cfg @ '':'' @ smtp_Port cfg)
       (PlainAuth [] (smtp_Username cfg) (smtp_Password cfg) (smtp_Host cfg)) (smtp_From cfg) [job_To job] (mail_message cfg job)"

text \<open>
  The loop of \<open>process\<close>, one case of its \<open>select\<close> at a time, and the three statements of
  \<open>Shutdown\<close>. The result is \<open>None\<close> where the step has to wait.
\<close>

datatype worker_event =
    Submit Job
  | Receive nat
  | Deliver nat
  | SeeClosed nat
  | SeeQuit nat
  | CloseQuit
  | CloseJobs
  | WaitDone

definition process_receive :: "nat \<Rightarrow> Worker \<Rightarrow> Worker option" where
  "process_receive i w =
     (case wk_jobs w of
        [] \<Rightarrow> None
      | job # rest \<Rightarrow>
          if i < length (wk_pool w) \<and> wk_pool w ! i = Waiting
          then Some (w\<lparr>wk_jobs := rest, wk_pool := (wk_pool w)[i := Sending job], wk_taken := wk_taken w @ [job]\<rparr>)
          else None)"

definition process_deliver ::
  "send_mail \<Rightarrow> nat \<Rightarrow> Worker \<Rightarrow> Worker option" where
  "process_deliver SendMail i w =
     (if i < length (wk_pool w) then
        (case wk_pool w ! i of
           Sending job \<Rightarrow> Some (w\<lparr>wk_pool := (wk_pool w)[i := Waiting],
             wk_sent := wk_sent w @ [(job, send SendMail (wk_smtp w) job)]\<rparr>)
         | _ \<Rightarrow> None)
      else None)"

definition process_exit :: "bool \<Rightarrow> nat \<Rightarrow> Worker \<Rightarrow> Worker option" where
  "process_exit ready i w =
     (if ready \<and> i < length (wk_pool w) \<and> wk_pool w ! i = Waiting
      then Some (w\<lparr>wk_pool := (wk_pool w)[i := Exited]\<rparr>) else None)"

definition Shutdown_step :: "shutdown_phase \<Rightarrow> shutdown_phase \<Rightarrow> bool \<Rightarrow> Worker \<Rightarrow> Worker option" where
  "Shutdown_step from to ready w = (if wk_phase w = from \<and> ready then Some (w\<lparr>wk_phase := to\<rparr>) else None)"

fun worker_step ::
  "send_mail \<Rightarrow> Worker \<Rightarrow> worker_event \<Rightarrow> Worker option" where
  "worker_step SendMail w (Submit job) = Some (Enqueue job w)"
| "worker_step SendMail w (Receive i) = process_receive i w"
| "worker_step SendMail w (Deliver i) = process_deliver SendMail i w"
| "worker_step SendMail w (SeeClosed i) = process_exit (jobs_closed w \<and> wk_jobs w = []) i w"
| "worker_step SendMail w (SeeQuit i) = process_exit (quit_closed w) i w"
| "worker_step SendMail w CloseQuit = Shutdown_step Running QuitClosed True w"
| "worker_step SendMail w CloseJobs = Shutdown_step QuitClosed JobsClosed True w"
| "worker_step SendMail w WaitDone = Shutdown_step JobsClosed Stopped (list_all (\<lambda>g. g = Exited) (wk_pool w)) w"

fun worker_run ::
  "send_mail \<Rightarrow> Worker \<Rightarrow> worker_event list \<Rightarrow> Worker option" where
  "worker_run SendMail w [] = Some w"
| "worker_run SendMail w (e # es) =
     (case worker_step SendMail w e of None \<Rightarrow> None | Some w' \<Rightarrow> worker_run SendMail w' es)"

section \<open>The invariant\<close>

fun carried :: "goroutine \<Rightarrow> Job list" where
  "carried (Sending job) = [job]"
| "carried _ = []"

definition in_flight :: "Worker \<Rightarrow> Job list" where
  "in_flight w = concat (map carried (wk_pool w))"

definition worker_ok :: "Worker \<Rightarrow> bool" where
  "worker_ok w \<longleftrightarrow>
     length (wk_jobs w) \<le> wk_capacity w \<and> wk_taken w @ wk_jobs w = wk_accepted w \<and>
     mset (wk_taken w) = mset (map fst (wk_sent w)) + mset (in_flight w) \<and>
     (wk_phase w = Stopped \<longrightarrow> list_all (\<lambda>g. g = Exited) (wk_pool w)) \<and> (wk_panicked w \<longrightarrow> jobs_closed w)"

lemma in_flight_update:
  "i < length (wk_pool w) \<Longrightarrow>
     mset (concat (map carried ((wk_pool w)[i := g]))) + mset (carried (wk_pool w ! i)) = mset (in_flight w) + mset (carried g)"
proof -
  assume i: "i < length (wk_pool w)"
  have "mset (concat (map carried (xs[i := g]))) + mset (carried (xs ! i)) = mset (concat (map carried xs)) + mset (carried g)"
    if "i < length xs" for xs
    using that by (induction xs arbitrary: i) (auto split: nat.splits simp: ac_simps)
  with i show ?thesis by (simp add: in_flight_def)
qed

lemmas worker_step_defs = process_receive_def process_deliver_def process_exit_def Shutdown_step_def Enqueue_def
  jobs_closed_def quit_closed_def

lemma worker_ok_start: "worker_ok (Start n (NewWorker cfg n q))"
proof -
  have "concat (map carried (replicate n Waiting)) = []" by (induction n) auto
  then show ?thesis by (simp add: worker_ok_def Start_def NewWorker_def in_flight_def)
qed

lemma worker_step_ok:
  assumes "worker_step SendMail w e = Some w'" and "worker_ok w"
  shows "worker_ok w'"
proof (cases e)
  case (Receive i)
  then show ?thesis
    using assms in_flight_update [of i w]
    by (auto simp: worker_ok_def worker_step_defs in_flight_def list_all_length nth_list_update split: list.splits if_splits)
next
  case (Deliver i)
  then show ?thesis
    using assms in_flight_update [of i w Waiting]
    by (auto simp: worker_ok_def worker_step_defs in_flight_def list_all_length nth_list_update split: goroutine.splits if_splits)
next
  case (SeeClosed i)
  then show ?thesis
    using assms in_flight_update [of i w Exited]
    by (auto simp: worker_ok_def worker_step_defs in_flight_def list_all_length nth_list_update split: if_splits)
next
  case (SeeQuit i)
  then show ?thesis
    using assms in_flight_update [of i w Exited]
    by (auto simp: worker_ok_def worker_step_defs in_flight_def list_all_length nth_list_update split: if_splits)
qed (use assms in \<open>auto simp: worker_ok_def worker_step_defs in_flight_def split: if_splits\<close>)

interpretation pool: step_system
  "\<lambda>w. \<exists>cfg n q. w = Start n (NewWorker cfg n q)"
  "\<lambda>w e w'. worker_step SendMail w e = Some w'"
  worker_ok
  for SendMail
  by unfold_locales (auto intro: worker_ok_start worker_step_ok)

lemma worker_run_run: "worker_run SendMail w es = Some w' \<Longrightarrow> pool.run SendMail w es w'"
  by (induction es arbitrary: w) (auto intro: pool.run_nil pool.run_cons split: option.splits)

section \<open>Shutting down\<close>

text \<open>Every step but a submission brings the pool closer to its end.\<close>

fun goroutine_weight :: "goroutine \<Rightarrow> nat" where
  "goroutine_weight Waiting = 1"
| "goroutine_weight (Sending job) = 2"
| "goroutine_weight Exited = 0"

fun phase_weight :: "shutdown_phase \<Rightarrow> nat" where
  "phase_weight Running = 3"
| "phase_weight QuitClosed = 2"
| "phase_weight JobsClosed = 1"
| "phase_weight Stopped = 0"

definition worker_weight :: "Worker \<Rightarrow> nat" where
  "worker_weight w = 2 * length (wk_jobs w) + sum_list (map goroutine_weight (wk_pool w)) + phase_weight (wk_phase w)"

fun submission :: "worker_event \<Rightarrow> bool" where
  "submission (Submit job) = True"
| "submission _ = False"

lemma pool_weight_update:
  "i < length gs \<Longrightarrow>
     sum_list (map goroutine_weight (gs[i := g])) + goroutine_weight (gs ! i) =
     sum_list (map goroutine_weight gs) + goroutine_weight g"
  by (induction gs arbitrary: i) (auto split: nat.splits)

lemma pool_weight_moves:
  "i < length gs \<Longrightarrow> gs ! i = Waiting \<Longrightarrow> sum_list (map goroutine_weight (gs[i := Sending j])) = Suc (sum_list (map goroutine_weight gs))"
  "i < length gs \<Longrightarrow> gs ! i = Sending j \<Longrightarrow> Suc (sum_list (map goroutine_weight (gs[i := Waiting]))) = sum_list (map goroutine_weight gs)"
  "i < length gs \<Longrightarrow> gs ! i = Waiting \<Longrightarrow> Suc (sum_list (map goroutine_weight (gs[i := Exited]))) = sum_list (map goroutine_weight gs)"
  using pool_weight_update [of i gs "Sending j"] pool_weight_update [of i gs Waiting] pool_weight_update [of i gs Exited] by simp_all

lemma worker_step_weight:
  assumes "worker_step SendMail w e = Some w'" and "\<not> submission e"
  shows "worker_weight w' < worker_weight w"
proof (cases e)
  case (Receive i)
  then show ?thesis using assms
    by (auto simp: worker_weight_def process_receive_def pool_weight_moves(1) split: list.splits if_splits)
next
  case (Deliver i)
  then show ?thesis using assms pool_weight_moves(2) [of i "wk_pool w"]
    by (fastforce simp: worker_weight_def process_deliver_def split: goroutine.splits if_splits)
next
  case (SeeClosed i)
  then show ?thesis using assms pool_weight_moves(3) [of i "wk_pool w"]
    by (fastforce simp: worker_weight_def process_exit_def split: if_splits)
next
  case (SeeQuit i)
  then show ?thesis using assms pool_weight_moves(3) [of i "wk_pool w"]
    by (fastforce simp: worker_weight_def process_exit_def split: if_splits)
qed (use assms in \<open>auto simp: worker_weight_def Shutdown_step_def split: if_splits\<close>)

lemma worker_progress:
  assumes "wk_phase w \<noteq> Stopped"
  shows "\<exists>e w'. \<not> submission e \<and> worker_step SendMail w e = Some w'"
proof (cases "wk_phase w")
  case Running
  then have "worker_step SendMail w CloseQuit = Some (w\<lparr>wk_phase := QuitClosed\<rparr>)" by (simp add: Shutdown_step_def)
  then show ?thesis by (metis submission.simps(6))
next
  case QuitClosed
  then have "worker_step SendMail w CloseJobs = Some (w\<lparr>wk_phase := JobsClosed\<rparr>)" by (simp add: Shutdown_step_def)
  then show ?thesis by (metis submission.simps(7))
next
  case JobsClosed
  show ?thesis
  proof (cases "list_all (\<lambda>g. g = Exited) (wk_pool w)")
    case True
    with JobsClosed have "worker_step SendMail w WaitDone = Some (w\<lparr>wk_phase := Stopped\<rparr>)" by (simp add: Shutdown_step_def)
    then show ?thesis by (metis submission.simps(8))
  next
    case False
    then obtain i where i: "i < length (wk_pool w)" "wk_pool w ! i \<noteq> Exited" by (auto simp: list_all_length)
    show ?thesis
    proof (cases "wk_pool w ! i")
      case Waiting
      with i JobsClosed have "worker_step SendMail w (SeeQuit i) = Some (w\<lparr>wk_pool := (wk_pool w)[i := Exited]\<rparr>)"
        by (simp add: worker_step_defs)
      then show ?thesis by (metis submission.simps(5))
    next
      case (Sending job)
      with i have "\<exists>w'. worker_step SendMail w (Deliver i) = Some w'" by (simp add: worker_step_defs)
      then show ?thesis by (metis submission.simps(3))
    qed (use i in simp)
  qed
qed (use assms in simp)

lemma worker_run_short:
  "worker_run SendMail w es = Some w' \<Longrightarrow> list_all (\<lambda>e. \<not> submission e) es \<Longrightarrow>
     length es + worker_weight w' \<le> worker_weight w"
proof (induction es arbitrary: w)
  case (Cons e es)
  then obtain v where "worker_step SendMail w e = Some v" "worker_run SendMail v es = Some w'"
    by (auto split: option.splits)
  then show ?case using Cons worker_step_weight [of SendMail w e v] by fastforce
qed simp

lemma worker_run_stops:
  "\<exists>es w'. list_all (\<lambda>e. \<not> submission e) es \<and> worker_run SendMail w es = Some w' \<and> wk_phase w' = Stopped"
proof (induction "worker_weight w" arbitrary: w rule: less_induct)
  case less
  show ?case
  proof (cases "wk_phase w = Stopped")
    case True
    then show ?thesis by (intro exI [of _ "[]"] exI [of _ w]) simp
  next
    case False
    then obtain e v where e: "\<not> submission e" "worker_step SendMail w e = Some v"
      using worker_progress by blast
    then obtain es w' where "list_all (\<lambda>e. \<not> submission e) es" "worker_run SendMail v es = Some w'" "wk_phase w' = Stopped"
      using less [OF worker_step_weight [OF e(2,1)]] by blast
    with e show ?thesis by (intro exI [of _ "e # es"] exI [of _ w']) simp
  qed
qed

section \<open>Where a message's body starts\<close>

text \<open>A mail reader takes the first empty line as the end of the header.\<close>

fun split_message :: "string \<Rightarrow> string \<times> string" where
  "split_message [] = ([], [])"
| "split_message (c # cs) =
     (if take 4 (c # cs) = crlf @ crlf then ([], drop 4 (c # cs))
      else (case split_message cs of (h, b) \<Rightarrow> (c # h, b)))"

lemma split_message_line:
  "CHR 0x0D \<notin> set l \<Longrightarrow> split_message (l @ rest) = (case split_message rest of (h, b) \<Rightarrow> (l @ h, b))"
  by (induction l) (auto simp: crlf_def split: prod.splits)

lemma split_message_next:
  "c \<noteq> CHR 0x0D \<Longrightarrow> split_message (crlf @ c # rest) = (case split_message (c # rest) of (h, b) \<Rightarrow> (crlf @ h, b))"
  by (cases rest) (auto simp: crlf_def split: prod.splits)

lemma split_line_next:
  "CHR 0x0D \<notin> set l \<Longrightarrow> c \<noteq> CHR 0x0D \<Longrightarrow>
     snd (split_message (l @ crlf @ c # rest)) = snd (split_message (c # rest))"
  by (simp add: split_message_line split_message_next split: prod.splits)

lemma split_message_end: "split_message (crlf @ crlf @ body) = ([], body)"
  by (simp add: crlf_def)

section \<open>Properties\<close>

text \<open>
  Property C37. The queue is first in, first out and bounded, and no accepted job is
  duplicated: in every state the pool can reach, the jobs taken from the queue followed by
  those still in it are the accepted ones in order, each accepted job is sent, being sent
  or waiting, and once the pool has stopped exactly the jobs left in the queue are lost.
\<close>

theorem worker_accounts_for_jobs:
  assumes "worker_run SendMail (Start n (NewWorker cfg n q)) es = Some w"
  shows "wk_taken w @ wk_jobs w = wk_accepted w \<and> length (wk_jobs w) \<le> wk_capacity w \<and>
    mset (wk_accepted w) = mset (map fst (wk_sent w)) + mset (in_flight w) + mset (wk_jobs w) \<and>
    (wk_phase w = Stopped \<longrightarrow> mset (wk_accepted w) = mset (map fst (wk_sent w)) + mset (wk_jobs w))"
proof -
  have ok: "worker_ok w"
    by (rule pool.run_from_start [OF _ worker_run_run [OF assms]]) blast
  have "in_flight w = []" if "list_all (\<lambda>g. g = Exited) (wk_pool w)"
    using that by (auto simp: in_flight_def list_all_iff)
  moreover have "mset (wk_accepted w) = mset (wk_taken w) + mset (wk_jobs w)"
    using ok by (metis worker_ok_def mset_append)
  ultimately show ?thesis using ok by (auto simp: worker_ok_def)
qed

definition sample_mail :: SMTPConfig where
  "sample_mail = \<lparr>smtp_Host = ''mail'', smtp_Port = ''587'', smtp_Username = ''u'', smtp_Password = ''p'', smtp_From = ''a@b''\<rparr>"

definition sample_job :: "string \<Rightarrow> Job" where
  "sample_job name = \<lparr>job_Type = JobWelcome, job_To = name @ ''@x'', job_Username = name, job_ExtraData = []\<rparr>"

definition sample_pool_end :: Worker where
  "sample_pool_end = the (worker_run (\<lambda>_ _ _ _ _. None) (Start 1 (NewWorker sample_mail 1 100))
     [Submit (sample_job ''a''), Submit (sample_job ''b''), Receive 0, CloseQuit, CloseJobs, Deliver 0, SeeQuit 0, WaitDone])"

lemmas sample_pool_simps = worker_step_defs Start_def NewWorker_def sample_pool_end_def

lemma sample_pool_run:
  "worker_run (\<lambda>_ _ _ _ _. None) (Start 1 (NewWorker sample_mail 1 100))
     [Submit (sample_job ''a''), Submit (sample_job ''b''), Receive 0, CloseQuit, CloseJobs, Deliver 0, SeeQuit 0, WaitDone] =
   Some sample_pool_end"
  by (simp add: sample_pool_simps)

theorem worker_accounts_for_jobs_witness:
  "mset (wk_accepted sample_pool_end) = mset (map fst (wk_sent sample_pool_end)) + mset (wk_jobs sample_pool_end) \<and>
   wk_jobs sample_pool_end = [sample_job ''b'']"
proof -
  have "wk_phase sample_pool_end = Stopped" "wk_jobs sample_pool_end = [sample_job ''b'']"
    by (simp_all add: sample_pool_simps)
  then show ?thesis using worker_accounts_for_jobs [OF sample_pool_run] by blast
qed

text \<open>
  Property C38. \<open>Shutdown\<close> returns: from every state of the pool, whatever is queued or
  being sent, the steps of the pool and of the shutdown lead to the stopped state, none of
  their sequences is longer than the weight of the state, and one that has not reached the
  stopped state can be continued. (A delivery is taken to end.)
\<close>

theorem shutdown_terminates:
  "(\<exists>es w'. list_all (\<lambda>e. \<not> submission e) es \<and> worker_run SendMail w es = Some w' \<and> wk_phase w' = Stopped) \<and>
   \<not> (\<exists>es w'. list_all (\<lambda>e. \<not> submission e) es \<and> worker_run SendMail w es = Some w' \<and> worker_weight w < length es) \<and>
   (wk_phase w = Stopped \<or> (\<exists>e w'. \<not> submission e \<and> worker_step SendMail w e = Some w'))"
  using worker_run_stops [of SendMail w] worker_progress [of w SendMail] worker_run_short
  by (metis add_leD1 leD)

text \<open>
  Property C39. The queue is not drained: a job that was accepted can be lost by an orderly
  shutdown, because a worker that waits for a job also sees the closed \<open>quit\<close> channel and
  may take that case. A submission after the shutdown panics.
\<close>

theorem shutdown_loses_accepted_job:
  "\<exists>es w. worker_run SendMail (Start 1 (NewWorker cfg 1 100)) es = Some w \<and> wk_phase w = Stopped \<and>
     wk_accepted w = [job] \<and> wk_sent w = [] \<and> wk_panicked (Enqueue job' w)"
proof -
  let ?es = "[Submit job, CloseQuit, CloseJobs, SeeQuit 0, WaitDone]"
  obtain w where "worker_run SendMail (Start 1 (NewWorker cfg 1 100)) ?es = Some w" "wk_phase w = Stopped"
    "wk_accepted w = [job]" "wk_sent w = []"
    by (simp add: worker_step_defs Start_def NewWorker_def)
  then show ?thesis by (intro exI [of _ ?es] exI [of _ w]) (simp add: worker_step_defs)
qed

text \<open>
  A mail arrives as written: when sender, recipient and subject hold no
  carriage return, a reader that splits the message at its first empty line gets the
  rendered page as the body.
\<close>

theorem mail_body_intact:
  assumes "CHR 0x0D \<notin> set (smtp_From cfg)" and "CHR 0x0D \<notin> set (job_To job)"
    and "CHR 0x0D \<notin> set (fst (RenderTemplate job))"
  shows "snd (split_message (mail_message cfg job)) = snd (RenderTemplate job)"
proof -
  obtain subject body where r: "RenderTemplate job = (subject, body)" by fastforce
  let ?from = "''From: '' @ smtp_From cfg" and ?to = "''To: '' @ job_To job" and ?subject = "''Subject: '' @ subject"
    and ?mime = "''MIME-Version: 1.0''" and ?type = "''Content-Type: text/html; charset='' @ [CHR 0x22] @ ''UTF-8'' @ [CHR 0x22]"
  have no_cr: "CHR 0x0D \<notin> set ?from" "CHR 0x0D \<notin> set ?to" "CHR 0x0D \<notin> set ?subject" "CHR 0x0D \<notin> set ?mime"
    "CHR 0x0D \<notin> set ?type"
    using assms r by auto
  define r5 where "r5 = ?type @ crlf @ crlf @ body"
  define r4 where "r4 = ?mime @ crlf @ r5"
  define r3 where "r3 = ?subject @ crlf @ r4"
  define r2 where "r2 = ?to @ crlf @ r3"
  have starts: "\<exists>t. r2 = CHR ''T'' # t" "\<exists>t. r3 = CHR ''S'' # t" "\<exists>t. r4 = CHR ''M'' # t" "\<exists>t. r5 = CHR ''C'' # t"
    by (simp_all add: r2_def r3_def r4_def r5_def)
  have "snd (split_message (?from @ crlf @ r2)) = snd (split_message r2)"
    using starts(1) split_line_next [OF no_cr(1)] by fastforce
  moreover have "snd (split_message r2) = snd (split_message r3)"
    unfolding r2_def using starts(2) split_line_next [OF no_cr(2)] by fastforce
  moreover have "snd (split_message r3) = snd (split_message r4)"
    unfolding r3_def using starts(3) split_line_next [OF no_cr(3)] by fastforce
  moreover have "snd (split_message r4) = snd (split_message r5)"
    unfolding r4_def using starts(4) split_line_next [OF no_cr(4)] by fastforce
  moreover have "snd (split_message r5) = body"
    unfolding r5_def split_message_line [OF no_cr(5)] by (simp add: split_message_end)
  moreover have "mail_message cfg job = ?from @ crlf @ r2"
    by (simp add: mail_message_def r r2_def r3_def r4_def r5_def)
  ultimately show ?thesis by (simp add: r)
qed

theorem mail_body_intact_witness:
  "snd (split_message (mail_message sample_mail (sample_job ''a''))) = snd (RenderTemplate (sample_job ''a''))"
  by (rule mail_body_intact)
    (simp_all add: sample_mail_def sample_job_def RenderTemplate_def renderWelcome_def)

end
