(* ===== verification/Concurrent_Transfers.thy ===== *)
theory Concurrent_Transfers
  imports Transfer_Props
begin

text \<open>
  Transfers of many clients at once. Each request is a process with the three stages of
  \<open>TransferFunds\<close>: the claim of its key in Redis, the SQL transaction, the release or
  confirmation of the key. The stages of different requests interleave in any order; an SQL
  transaction is one step, because it runs at the isolation level SERIALIZABLE. The rest of
  the system, and time, may change the world between two steps: Redis in any way (keys
  expire, are evicted, are lost), the tables as long as the invariant of the bank holds and
  the books only grow.
\<close>

section \<open>Processes\<close>

datatype stage =
    Arrived
  | Claimed string
  | Executed string "goerr + uuid"
  | Answered "goerr + TransferResponse"

record 'r clients =
  cl_world :: "'r world"
  cl_stage :: "nat \<Rightarrow> stage"

definition advance :: "'r env \<Rightarrow> (nat \<Rightarrow> TransferRequest) \<Rightarrow> nat \<Rightarrow> 'r clients \<Rightarrow> 'r clients option" where
  "advance E reqs i s =
     (case cl_stage s i of
        Arrived \<Rightarrow>
          (case transfer_claim E (reqs i) (cl_world s) of
             (Inl e, w) \<Rightarrow> Some \<lparr>cl_world = w, cl_stage = (cl_stage s)(i := Answered (Inl e))\<rparr>
           | (Inr key, w) \<Rightarrow> Some \<lparr>cl_world = w, cl_stage = (cl_stage s)(i := Claimed key)\<rparr>)
      | Claimed key \<Rightarrow>
          (case transfer_execute E (reqs i) (cl_world s) of
             (result, w) \<Rightarrow> Some \<lparr>cl_world = w, cl_stage = (cl_stage s)(i := Executed key result)\<rparr>)
      | Executed key result \<Rightarrow>
          (case transfer_finish E key result (cl_world s) of
             (r, w) \<Rightarrow> Some \<lparr>cl_world = w, cl_stage = (cl_stage s)(i := Answered r)\<rparr>)
      | Answered r \<Rightarrow> None)"

definition elsewhere_ok :: "db \<Rightarrow> db \<Rightarrow> bool" where
  "elsewhere_ok d d' \<longleftrightarrow> (bank_ok d \<longrightarrow> bank_ok d') \<and> appends d d'"

datatype 'r client_event = Advance nat | Elsewhere "'r world"

inductive client_step ::
  "'r env \<Rightarrow> (nat \<Rightarrow> TransferRequest) \<Rightarrow> 'r clients \<Rightarrow> 'r client_event \<Rightarrow> 'r clients \<Rightarrow> bool" for E reqs where
  step_advance: "advance E reqs i s = Some t \<Longrightarrow> client_step E reqs s (Advance i) t"
| step_elsewhere: "elsewhere_ok (w_db (cl_world s)) (w_db w) \<Longrightarrow> client_step E reqs s (Elsewhere w) (s\<lparr>cl_world := w\<rparr>)"

text \<open>The requests that went through, with the identifier of their transaction.\<close>

fun stage_txn :: "stage \<Rightarrow> uuid option" where
  "stage_txn (Executed key (Inr txnID)) = Some txnID"
| "stage_txn (Answered (Inr res)) = Some (res_TransactionID res)"
| "stage_txn _ = None"

definition succeeded :: "'r clients \<Rightarrow> nat \<Rightarrow> uuid \<Rightarrow> bool" where
  "succeeded s i txnID \<longleftrightarrow> stage_txn (cl_stage s i) = Some txnID"

definition clients_ok :: "(nat \<Rightarrow> TransferRequest) \<Rightarrow> 'r clients \<Rightarrow> bool" where
  "clients_ok reqs s \<longleftrightarrow>
     bank_ok (w_db (cl_world s)) \<and>
     (\<forall>i txnID. succeeded s i txnID \<longrightarrow>
        (\<exists>r \<in> set (transactions (w_db (cl_world s))). tr_id r = txnID \<and> tr_key r = req_IdempotencyKey (reqs i))) \<and>
     (\<forall>i j txnID. succeeded s i txnID \<longrightarrow> succeeded s j txnID \<longrightarrow> i = j)"

section \<open>The invariant\<close>

lemma appends_rows: "appends d d' \<Longrightarrow> set (transactions d) \<subseteq> set (transactions d')"
  by (auto simp: appends_def)

text \<open>A step that keeps the set of successful requests needs only that the books grow.\<close>

lemma clients_ok_grow:
  assumes "clients_ok reqs s" and "elsewhere_ok (w_db (cl_world s)) (w_db (cl_world t))"
    and "\<And>i txnID. succeeded t i txnID \<Longrightarrow> succeeded s i txnID"
  shows "clients_ok reqs t"
  using assms appends_rows [of "w_db (cl_world s)" "w_db (cl_world t)"]
  unfolding clients_ok_def elsewhere_ok_def by (metis subsetD)

lemma elsewhere_ok_same: "d' = d \<Longrightarrow> elsewhere_ok d d'"
  using reflpD [OF appends_refl] by (simp add: elsewhere_ok_def)

lemma elsewhere_ok_transfer: "transfer_effect E req txnID n d d' \<Longrightarrow> decimal_spec E \<Longrightarrow> elsewhere_ok d d'"
  using transfer_effect_bank_ok append_txn_appends unfolding elsewhere_ok_def
  by (metis transfer_effect_posting)

lemma advance_ok:
  assumes "advance E reqs i s = Some t" and "decimal_spec E" and ok: "clients_ok reqs s"
  shows "clients_ok reqs t"
proof (cases "cl_stage s i")
  case Arrived
  obtain c w where run: "transfer_claim E (reqs i) (cl_world s) = (c, w)" by fastforce
  have db: "w_db (cl_world t) = w_db (cl_world s)"
    using assms(1) Arrived transfer_claim_db [of E "reqs i" "cl_world s"] run
    by (auto simp: advance_def split: sum.splits)
  show ?thesis
    by (rule clients_ok_grow [OF ok elsewhere_ok_same [OF db]])
      (use assms(1) Arrived in \<open>auto simp: advance_def succeeded_def split: prod.splits sum.splits if_splits\<close>)
next
  case (Claimed key)
  obtain result w where run: "transfer_execute E (reqs i) (cl_world s) = (result, w)" by fastforce
  have t: "t = \<lparr>cl_world = w, cl_stage = (cl_stage s)(i := Executed key result)\<rparr>"
    using assms(1) Claimed run by (simp add: advance_def)
  show ?thesis
  proof (cases result)
    case (Inl e)
    have "elsewhere_ok (w_db (cl_world s)) (w_db w)"
      using transfer_execute_Inl [of E "reqs i" "cl_world s" e w] run Inl elsewhere_ok_same elsewhere_ok_transfer assms(2)
      by metis
    then show ?thesis
      by (intro clients_ok_grow [OF ok]) (auto simp: t succeeded_def Inl split: if_splits)
  next
    case (Inr txnID)
    then obtain n where eff: "transfer_effect E (reqs i) txnID n (w_db (cl_world s)) (w_db w)"
      using transfer_execute_Inr [of E "reqs i" "cl_world s" txnID w] run by auto
    obtain r x y where r: "w_db w = append_txn r [x, y] (w_db (cl_world s))" "posting_ok (w_db (cl_world s)) r [x, y]"
      "tr_id r = txnID" "tr_key r = req_IdempotencyKey (reqs i)"
      using eff by (rule transfer_effect_posting) blast
    have new: "txnID \<notin> tr_id ` set (transactions (w_db (cl_world s)))" using r(2,3) by (simp add: posting_ok_def)
    have succ: "succeeded t j k \<longleftrightarrow> (if j = i then k = txnID else succeeded s j k)" for j k
      by (auto simp: t succeeded_def Inr)
    have old: "\<exists>r \<in> set (transactions (w_db (cl_world s))). tr_id r = k \<and> tr_key r = req_IdempotencyKey (reqs j)"
      if "succeeded s j k" for j k
      using ok that by (auto simp: clients_ok_def)
    have "bank_ok (w_db w)"
      using transfer_effect_bank_ok [OF eff assms(2)] ok by (simp add: clients_ok_def)
    moreover have "\<exists>q \<in> set (transactions (w_db w)). tr_id q = k \<and> tr_key q = req_IdempotencyKey (reqs j)"
      if "succeeded t j k" for j k
      using that old [of j k] r by (auto simp: succ split: if_splits)
    moreover have "j = l" if "succeeded t j k" "succeeded t l k" for j l k
      using that old [of j k] old [of l k] new ok unfolding succ clients_ok_def
      by (metis imageI)
    ultimately show ?thesis by (auto simp: clients_ok_def t)
  qed
next
  case (Executed key result)
  obtain r w where run: "transfer_finish E key result (cl_world s) = (r, w)" by fastforce
  have t: "t = \<lparr>cl_world = w, cl_stage = (cl_stage s)(i := Answered r)\<rparr>"
    using assms(1) Executed run by (simp add: advance_def)
  have db: "w_db (cl_world t) = w_db (cl_world s)"
    using transfer_finish_db [of E key result "cl_world s"] run by (simp add: t)
  show ?thesis
    by (rule clients_ok_grow [OF ok elsewhere_ok_same [OF db]])
      (use run Executed in \<open>auto simp: t succeeded_def transfer_finish_def rollback_key_def split: sum.splits if_splits\<close>)
next
  case (Answered r)
  with assms(1) show ?thesis by (simp add: advance_def)
qed

interpretation clients: step_system
  "\<lambda>s. decimal_spec E \<and> bank_ok (w_db (cl_world s)) \<and> cl_stage s = (\<lambda>_. Arrived)"
  "client_step E reqs"
  "\<lambda>s. decimal_spec E \<and> clients_ok reqs s"
  for E reqs
proof unfold_locales
  fix s :: "'a clients"
  assume "decimal_spec E \<and> bank_ok (w_db (cl_world s)) \<and> cl_stage s = (\<lambda>_. Arrived)"
  then show "decimal_spec E \<and> clients_ok reqs s" by (simp add: clients_ok_def succeeded_def)
next
  fix s t :: "'a clients" and e
  assume ok: "decimal_spec E \<and> clients_ok reqs s" and "client_step E reqs s e t"
  from this(2) have "clients_ok reqs t"
  proof (cases rule: client_step.cases)
    case (step_advance i)
    with ok show ?thesis using advance_ok by blast
  next
    case (step_elsewhere w)
    then show ?thesis
      by (intro clients_ok_grow [of reqs s t]) (use ok in \<open>auto simp: succeeded_def\<close>)
  qed
  with ok show "decimal_spec E \<and> clients_ok reqs t" by blast
qed

section \<open>Schedules\<close>

text \<open>A schedule without interference, for evaluation: the processes in the order they move.\<close>

fun schedule :: "'r env \<Rightarrow> (nat \<Rightarrow> TransferRequest) \<Rightarrow> nat list \<Rightarrow> 'r clients \<Rightarrow> 'r clients option" where
  "schedule E reqs [] s = Some s"
| "schedule E reqs (i # is) s = (case advance E reqs i s of None \<Rightarrow> None | Some t \<Rightarrow> schedule E reqs is t)"

lemma schedule_run: "schedule E reqs is s = Some t \<Longrightarrow> clients.run E reqs s (map Advance is) t"
  by (induction "is" arbitrary: s) (auto intro: clients.run_nil clients.run_cons step_advance split: option.splits)

lemma transfer_finish_run: "transfer_finish E key r w = (x, w') \<Longrightarrow> w_db w' = w_db w"
  by (metis transfer_finish_db snd_conv)

lemma client_step_appends:
  assumes "client_step E reqs s e t" and "decimal_spec E"
  shows "appends (w_db (cl_world s)) (w_db (cl_world t))"
  using assms(1)
proof (cases rule: client_step.cases)
  case (step_elsewhere w)
  then show ?thesis by (simp add: elsewhere_ok_def)
next
  case (step_advance i)
  let ?d = "w_db (cl_world s)"
  have same: "w_db w = ?d \<Longrightarrow> appends ?d (w_db w)" for w :: "'a world"
    using reflpD [OF appends_refl] by simp
  obtain c w where claim: "transfer_claim E (reqs i) (cl_world s) = (c, w)" by fastforce
  obtain result w1 where exec: "transfer_execute E (reqs i) (cl_world s) = (result, w1)" by fastforce
  have "appends ?d (w_db w1)"
  proof (cases result)
    case (Inl e)
    then show ?thesis using transfer_execute_Inl [of E "reqs i" "cl_world s" e w1] exec same elsewhere_ok_transfer assms(2)
      unfolding elsewhere_ok_def by metis
  next
    case (Inr txnID)
    then show ?thesis using transfer_execute_Inr [of E "reqs i" "cl_world s" txnID w1] exec elsewhere_ok_transfer assms(2)
      unfolding elsewhere_ok_def by metis
  qed
  moreover have "w_db w = ?d" using transfer_claim_db [of E "reqs i" "cl_world s"] claim by simp
  ultimately show ?thesis
    using step_advance(2) claim exec same by (auto simp: advance_def split: stage.splits sum.splits prod.splits dest!: transfer_finish_run)
qed

section \<open>Two clients\<close>

text \<open>Two transfers of 2.50 with different keys; the second claims its key before the first is executed.\<close>

definition two_requests :: "nat \<Rightarrow> TransferRequest" where
  "two_requests i = (if i = 0 then sample_req else sample_req\<lparr>req_IdempotencyKey := 78\<rparr>)"

definition two_arrived :: "sample_redis clients" where
  "two_arrived = \<lparr>cl_world = sample_world, cl_stage = (\<lambda>_. Arrived)\<rparr>"

definition two_answered :: "sample_redis clients" where
  "two_answered = the (schedule sample_env two_requests [0, 1, 0, 1, 1, 0] two_arrived)"

lemma two_clients:
  "clients.run sample_env two_requests two_arrived (map Advance [0, 1, 0, 1, 1, 0]) two_answered"
  "succeeded two_answered 0 1002" "succeeded two_answered 1 1016"
proof -
  have "map_option (\<lambda>t. (stage_txn (cl_stage t 0), stage_txn (cl_stage t 1)))
      (schedule sample_env two_requests [0, 1, 0, 1, 1, 0] two_arrived) = Some (Some 1002, Some 1016)"
    by code_simp
  then have "schedule sample_env two_requests [0, 1, 0, 1, 1, 0] two_arrived = Some two_answered"
    and succ: "succeeded two_answered 0 1002" "succeeded two_answered 1 1016"
    by (auto simp: two_answered_def succeeded_def)
  then show "clients.run sample_env two_requests two_arrived (map Advance [0, 1, 0, 1, 1, 0]) two_answered"
    by (intro schedule_run)
  from succ show "succeeded two_answered 0 1002" "succeeded two_answered 1 1016" .
qed

lemma two_arrived_ok: "bank_ok (w_db (cl_world two_arrived))" "cl_stage two_arrived = (\<lambda>_. Arrived)"
  using sample_bank_ok by (simp_all add: two_arrived_def sample_world_def)

section \<open>Properties\<close>

text \<open>
  Property C32. However the stages of concurrent transfers interleave, and whatever happens
  to Redis meanwhile, no two requests with the same idempotency key go through: successful
  requests have distinct transactions and distinct keys, each with its committed row. The
  unique index of the table guarantees it, not the claim in Redis.
\<close>

theorem concurrent_key_once:
  assumes "decimal_spec E" and "bank_ok (w_db (cl_world s))" and "cl_stage s = (\<lambda>_. Arrived)"
    and "clients.run E reqs s es t" and "succeeded t i x" and "succeeded t j y" and "i \<noteq> j"
  shows "x \<noteq> y \<and> req_IdempotencyKey (reqs i) \<noteq> req_IdempotencyKey (reqs j) \<and>
    (\<exists>r \<in> set (transactions (w_db (cl_world t))). tr_id r = x \<and> tr_key r = req_IdempotencyKey (reqs i))"
proof -
  have ok: "clients_ok reqs t"
    using clients.run_from_start [OF _ assms(4)] assms(1-3) by blast
  then have "x \<noteq> y" using assms(5-7) by (auto simp: clients_ok_def)
  obtain r where r: "r \<in> set (transactions (w_db (cl_world t)))" "tr_id r = x" "tr_key r = req_IdempotencyKey (reqs i)"
    using ok assms(5) by (auto simp: clients_ok_def)
  obtain q where q: "q \<in> set (transactions (w_db (cl_world t)))" "tr_id q = y" "tr_key q = req_IdempotencyKey (reqs j)"
    using ok assms(6) by (auto simp: clients_ok_def)
  have "distinct (map tr_key (transactions (w_db (cl_world t))))"
    using ok by (simp add: clients_ok_def bank_ok_def schema_ok_def transactions_ok_def)
  then have "tr_key r \<noteq> tr_key q" using r q \<open>x \<noteq> y\<close> by (metis distinct_map inj_onD)
  with r q \<open>x \<noteq> y\<close> show ?thesis by auto
qed

theorem concurrent_key_once_witness:
  "(1002 :: uuid) \<noteq> 1016 \<and> req_IdempotencyKey (two_requests 0) \<noteq> req_IdempotencyKey (two_requests 1) \<and>
   (\<exists>r \<in> set (transactions (w_db (cl_world two_answered))). tr_id r = 1002 \<and> tr_key r = req_IdempotencyKey (two_requests 0))"
  using concurrent_key_once [OF sample_decimal two_arrived_ok two_clients zero_neq_one] .

text \<open>
  Property C33. Concurrent transfers keep the invariant of the bank at every moment, and
  between any two moments the books only grow.
\<close>

theorem concurrent_keeps_bank:
  assumes "decimal_spec E" and "bank_ok (w_db (cl_world s))" and "cl_stage s = (\<lambda>_. Arrived)"
    and "clients.run E reqs s es t"
  shows "bank_ok (w_db (cl_world t)) \<and> appends (w_db (cl_world s)) (w_db (cl_world t))"
proof -
  have start: "decimal_spec E \<and> bank_ok (w_db (cl_world s)) \<and> cl_stage s = (\<lambda>_. Arrived)" using assms by blast
  have "clients_ok reqs t" using clients.run_from_start [OF start assms(4)] by blast
  moreover have "appends (w_db (cl_world s)) (w_db (cl_world t))"
  proof (rule clients.run_rel [where R = "\<lambda>s t. appends (w_db (cl_world s)) (w_db (cl_world t))", OF assms(4)])
    show "decimal_spec E \<and> clients_ok reqs s" using clients.start_inv [OF start] .
  qed (use appends_refl appends_trans client_step_appends assms(1) in \<open>auto simp: reflp_def transp_def\<close>)
  ultimately show ?thesis by (simp add: clients_ok_def)
qed

theorem concurrent_keeps_bank_witness:
  "bank_ok (w_db (cl_world two_answered)) \<and> appends sample_db (w_db (cl_world two_answered))"
  using concurrent_keeps_bank [OF sample_decimal two_arrived_ok two_clients(1)] by (simp add: two_arrived_def sample_world_def)

end
