(* ===== verification/Row_Locks.thy ===== *)
theory Row_Locks
  imports Transfer_Props Funding_Service
begin

text \<open>
  The row locks that the two services take on accounts, and what PostgreSQL does with them:
  SELECT FOR UPDATE excludes everyone else, the check of a foreign key takes a KEY SHARE
  lock that excludes only FOR UPDATE; a transaction keeps its locks to its end and waits
  while another holds an incompatible one. Transfers lock in the order of the identifiers'
  texts and cannot deadlock among themselves; a funding locks its target first and the
  system account after it, and can. The waits of two insertions of the same key in a unique
  index, and the queue in which waiters stand, have no model.
\<close>

section \<open>Lock plans\<close>

datatype lock_mode = ForUpdate | KeyShare

type_synonym lock_request = "uuid \<times> lock_mode"

fun compatible :: "lock_mode \<Rightarrow> lock_mode \<Rightarrow> bool" where
  "compatible KeyShare KeyShare = True"
| "compatible _ _ = False"

text \<open>
  The requests of \<open>transfer_body\<close> in order: four SELECT FOR UPDATE, the foreign keys of the
  transaction, and those of the debit and the credit.
\<close>

definition transfer_locks :: "'r env \<Rightarrow> TransferRequest \<Rightarrow> lock_request list" where
  "transfer_locks E req =
     (case lock_order E req of (firstLock, secondLock) \<Rightarrow>
       [(firstLock, ForUpdate), (secondLock, ForUpdate),
        (req_FromAccountID req, ForUpdate), (req_ToAccountID req, ForUpdate),
        (req_FromAccountID req, KeyShare), (req_ToAccountID req, KeyShare),
        (req_FromAccountID req, KeyShare), (req_ToAccountID req, KeyShare)])"

text \<open>Those of \<open>fund_body\<close>: the target, the foreign keys of the transaction, that of the credit.\<close>

definition fund_locks :: "FundRequest \<Rightarrow> uuid \<Rightarrow> lock_request list" where
  "fund_locks req systemAcct =
     [(fund_ToAccountID req, ForUpdate), (systemAcct, KeyShare), (fund_ToAccountID req, KeyShare),
      (fund_ToAccountID req, KeyShare)]"

text \<open>The rows a committed transaction has locked with SELECT FOR UPDATE are those of its plan.\<close>

lemma transfer_body_locks:
  assumes "transfer_body E req txnID tx = (Inr u, tx')"
  shows "tx_locks tx' = tx_locks tx @ map fst (filter (\<lambda>l. snd l = ForUpdate) (transfer_locks E req))"
  using assms
  by (auto simp: transfer_body_def transfer_locks_def attempt_Inr store_Inr split: prod.splits if_splits)

lemma fund_body_locks:
  assumes "fund_body E req txnID sys tx = (Inr u, tx')"
  shows "tx_locks tx' = tx_locks tx @ map fst (filter (\<lambda>l. snd l = ForUpdate) (fund_locks req (a_ID sys)))"
  using assms by (auto simp: fund_body_def fund_locks_def attempt_Inr store_Inr split: if_splits)

text \<open>The rows it has locked for their foreign keys are those that its new rows refer to.\<close>

definition referred :: "txn_row list \<Rightarrow> ledger_row list \<Rightarrow> uuid list" where
  "referred ts es = concat (map (\<lambda>t. [tr_from t, tr_to t]) ts) @ map lr_account es"

lemma transfer_body_key_share:
  assumes "transfer_body E req txnID tx = (Inr u, tx')"
  shows "\<exists>ts es. transactions (tx_db tx') = transactions (tx_db tx) @ ts \<and> ledger (tx_db tx') = ledger (tx_db tx) @ es \<and>
    map fst (filter (\<lambda>l. snd l = KeyShare) (transfer_locks E req)) = referred ts es"
  using transfer_body_Inr [OF assms]
  by (auto simp: transfer_effect_def transfer_row_defs transfer_locks_def referred_def split: prod.splits)

lemma fund_body_key_share:
  assumes "fund_body E req txnID sys tx = (Inr u, tx')"
  shows "\<exists>ts es. transactions (tx_db tx') = transactions (tx_db tx) @ ts \<and> ledger (tx_db tx') = ledger (tx_db tx) @ es \<and>
    map fst (filter (\<lambda>l. snd l = KeyShare) (fund_locks req (a_ID sys))) = referred ts es"
  using fund_body_Inr [OF assms]
  by (auto simp: fund_effect_def entry_defs fund_locks_def referred_def)

section \<open>The lock manager\<close>

text \<open>
  Transactions \<open>0, 1, ...\<close> with their plans; the state is how many requests of its plan each
  has been granted. A finished transaction has released its locks.
\<close>

type_synonym grants = "nat \<Rightarrow> nat"

definition unfinished :: "lock_request list list \<Rightarrow> grants \<Rightarrow> nat \<Rightarrow> bool" where
  "unfinished plans g i \<longleftrightarrow> i < length plans \<and> g i < length (plans ! i)"

definition held :: "lock_request list list \<Rightarrow> grants \<Rightarrow> nat \<Rightarrow> lock_request list" where
  "held plans g i = (if unfinished plans g i then take (g i) (plans ! i) else [])"

definition blocked_by :: "lock_request list list \<Rightarrow> grants \<Rightarrow> nat \<Rightarrow> nat \<Rightarrow> bool" where
  "blocked_by plans g i j \<longleftrightarrow>
     i \<noteq> j \<and> (case plans ! i ! g i of (row, m) \<Rightarrow> list_ex (\<lambda>(row', m'). row' = row \<and> \<not> compatible m m') (held plans g j))"

definition grantable :: "lock_request list list \<Rightarrow> grants \<Rightarrow> nat \<Rightarrow> bool" where
  "grantable plans g i \<longleftrightarrow> unfinished plans g i \<and> list_all (\<lambda>j. \<not> blocked_by plans g i j) [0..<length plans]"

inductive lock_step :: "lock_request list list \<Rightarrow> grants \<Rightarrow> nat \<Rightarrow> grants \<Rightarrow> bool" for plans where
  grant: "grantable plans g i \<Longrightarrow> lock_step plans g i (g(i := Suc (g i)))"

text \<open>Two transactions never hold incompatible locks on a row.\<close>

definition exclusive :: "lock_request list list \<Rightarrow> grants \<Rightarrow> bool" where
  "exclusive plans g \<longleftrightarrow>
     (\<forall>i j row m m'. i \<noteq> j \<longrightarrow> (row, m) \<in> set (held plans g i) \<longrightarrow> (row, m') \<in> set (held plans g j) \<longrightarrow> compatible m m')"

lemma held_unfinished: "l \<in> set (held plans g i) \<Longrightarrow> unfinished plans g i"
  by (auto simp: held_def split: if_splits)

lemma held_grant:
  assumes "unfinished plans g i"
  shows "set (held plans (g(i := Suc (g i))) k) \<subseteq> (if k = i then insert (plans ! i ! g i) (set (held plans g i)) else set (held plans g k))"
  using assms by (auto simp: held_def unfinished_def take_Suc_conv_app_nth)

lemma compatible_sym: "compatible m m' = compatible m' m"
  by (cases m; cases m') simp_all

lemma lock_step_exclusive:
  assumes "lock_step plans g i g'" and "exclusive plans g"
  shows "exclusive plans g'"
  using assms(1)
proof cases
  case grant
  then have un: "unfinished plans g i" and free: "\<And>j. j < length plans \<Longrightarrow> \<not> blocked_by plans g i j"
    by (auto simp: grantable_def list_all_iff)
  have new: "compatible m m'" if "plans ! i ! g i = (row, m)" "(row, m') \<in> set (held plans g j)" "j \<noteq> i" for row m m' j
  proof -
    have "j < length plans" using held_unfinished [OF that(2)] by (simp add: unfinished_def)
    from free [OF this] that show ?thesis by (auto simp: blocked_by_def list_ex_iff)
  qed
  show ?thesis
    unfolding exclusive_def
  proof (intro allI impI)
    fix a b row m m'
    assume ab: "a \<noteq> b" and "(row, m) \<in> set (held plans g' a)" and "(row, m') \<in> set (held plans g' b)"
    then have "(row, m) \<in> (if a = i then insert (plans ! i ! g i) (set (held plans g i)) else set (held plans g a))"
      and "(row, m') \<in> (if b = i then insert (plans ! i ! g i) (set (held plans g i)) else set (held plans g b))"
      unfolding grant(1) using held_grant [OF un] by blast+
    then show "compatible m m'"
      using ab assms(2) new [of row m m' b] new [of row m' m a]
      unfolding exclusive_def by (auto simp: compatible_sym split: if_splits) (metis compatible_sym)+
  qed
qed

interpretation locks: step_system "\<lambda>g. g = (\<lambda>_. 0)" "lock_step plans" "exclusive plans" for plans
proof unfold_locales
  fix plans g g' and i :: nat
  show "g = (\<lambda>_. 0) \<Longrightarrow> exclusive plans g" by (simp add: exclusive_def held_def)
  show "exclusive plans g \<Longrightarrow> lock_step plans g i g' \<Longrightarrow> exclusive plans g'" by (rule lock_step_exclusive)
qed

section \<open>Ordered plans do not deadlock\<close>

text \<open>The shape of a transfer's plan: both rows first, in ascending order, then only rows it has.\<close>

definition ordered_plan :: "(uuid \<Rightarrow> 'k::linorder) \<Rightarrow> lock_request list \<Rightarrow> bool" where
  "ordered_plan key p \<longleftrightarrow>
     (\<exists>a b rest. p = (a, ForUpdate) # (b, ForUpdate) # rest \<and> key a < key b \<and> fst ` set rest \<subseteq> {a, b})"

lemma transfer_locks_ordered:
  assumes "uuid_spec E" and "req_FromAccountID req \<noteq> req_ToAccountID req"
  shows "ordered_plan (uuid_String E) (transfer_locks E req)"
proof -
  have "uuid_String E (req_FromAccountID req) \<noteq> uuid_String E (req_ToAccountID req)"
    using assms by (auto simp: uuid_spec_def inj_def)
  then show ?thesis by (auto simp: ordered_plan_def transfer_locks_def lock_order_def)
qed

lemma blockedE:
  assumes "blocked_by plans g i j"
  obtains m' where "j \<noteq> i" "(fst (plans ! i ! g i), m') \<in> set (held plans g j)" "\<not> compatible (snd (plans ! i ! g i)) m'"
  using assms by (auto simp: blocked_by_def list_ex_iff split: prod.splits)

text \<open>A transaction with ordered plan that waits has at most its first lock.\<close>

lemma ordered_plan_waits:
  assumes plan: "ordered_plan key (plans ! i)" and un: "unfinished plans g i"
    and blk: "blocked_by plans g i j" and ex: "exclusive plans g"
  shows "g i < 2"
proof (rule ccontr)
  assume "\<not> g i < 2"
  then obtain k where k: "g i = Suc (Suc k)" by (metis add_2_eq_Suc le_add_diff_inverse not_less)
  from plan obtain a b rest where p: "plans ! i = (a, ForUpdate) # (b, ForUpdate) # rest" "fst ` set rest \<subseteq> {a, b}"
    by (auto simp: ordered_plan_def)
  from un have "k < length rest" unfolding unfinished_def p(1) k by simp
  then have "fst (plans ! i ! g i) \<in> {a, b}" using p(2) by (auto simp: p(1) k image_subset_iff)
  then have "(fst (plans ! i ! g i), ForUpdate) \<in> set (held plans g i)"
    using un by (auto simp: held_def p(1) k)
  moreover obtain m' where "j \<noteq> i" "(fst (plans ! i ! g i), m') \<in> set (held plans g j)"
    using blk by (rule blockedE)
  ultimately have "compatible ForUpdate m'" using ex unfolding exclusive_def by metis
  then show False by simp
qed

text \<open>The transaction it waits for waits for a greater row, if it waits itself.\<close>

lemma ordered_plan_ascends:
  assumes plans: "\<And>j. j < length plans \<Longrightarrow> ordered_plan key (plans ! j)" and ex: "exclusive plans g"
    and i: "unfinished plans g i" "blocked_by plans g i j" and j: "unfinished plans g j" "blocked_by plans g j k"
  shows "key (fst (plans ! i ! g i)) < key (fst (plans ! j ! g j))"
proof -
  from j(1) have pj: "ordered_plan key (plans ! j)" using plans by (simp add: unfinished_def)
  then obtain a b rest where p: "plans ! j = (a, ForUpdate) # (b, ForUpdate) # rest" "key a < key b"
    by (auto simp: ordered_plan_def)
  obtain m' where m': "(fst (plans ! i ! g i), m') \<in> set (held plans g j)" using i(2) by (rule blockedE)
  then have "g j \<noteq> 0" by (cases "g j") (simp_all add: held_def)
  with ordered_plan_waits [OF pj j ex] have "g j = 1" by simp
  with m' p show ?thesis by (auto simp: held_def split: if_splits)
qed

lemma ordered_plans_progress:
  assumes plans: "\<And>j. j < length plans \<Longrightarrow> ordered_plan key (plans ! j)" and ex: "exclusive plans g"
    and i: "unfinished plans g i"
  shows "\<exists>j. grantable plans g j"
proof (rule ccontr)
  assume none: "\<not> ?thesis"
  define U where "U = {j. unfinished plans g j}"
  define wait where "wait j = key (fst (plans ! j ! g j))" for j
  have "U \<subseteq> {..<length plans}" by (auto simp: U_def unfinished_def)
  then have fin: "finite U" by (rule finite_subset) simp
  have blk: "\<exists>j'. blocked_by plans g j j'" if "j \<in> U" for j
    using none that by (auto simp: grantable_def list_all_iff U_def)
  have up: "\<exists>j' \<in> U. wait j < wait j'" if "j \<in> U" for j
  proof -
    from blk [OF that] obtain j' where j': "blocked_by plans g j j'" ..
    then obtain m' where "(fst (plans ! j ! g j), m') \<in> set (held plans g j')" by (rule blockedE)
    then have un: "unfinished plans g j'" by (rule held_unfinished)
    with blk obtain k where "blocked_by plans g j' k" by (auto simp: U_def)
    with ordered_plan_ascends [OF plans ex _ j' un] that un show ?thesis by (auto simp: U_def wait_def)
  qed
  have "U \<noteq> {}" using i by (auto simp: U_def)
  with fin obtain j where "j \<in> U" "wait j = Max (wait ` U)" by (metis (mono_tags) Max_in finite_imageI imageE image_is_empty)
  with up fin show False by (metis Max_ge finite_imageI imageI leD)
qed

section \<open>Schedules of grants\<close>

text \<open>Granting in a given order, as long as each next request can be granted.\<close>

fun run_locks :: "lock_request list list \<Rightarrow> nat list \<Rightarrow> grants \<Rightarrow> grants option" where
  "run_locks plans [] g = Some g"
| "run_locks plans (i # is) g = (if grantable plans g i then run_locks plans is (g(i := Suc (g i))) else None)"

lemma run_locks_run: "run_locks plans is g = Some g' \<Longrightarrow> step_system.run (lock_step plans) g is g'"
proof (induction "is" arbitrary: g)
  case (Cons i "is")
  then have gr: "grantable plans g i" and rest: "run_locks plans is (g(i := Suc (g i))) = Some g'"
    by (simp_all split: if_splits)
  show ?case by (rule locks.run_cons [OF lock_step.grant [OF gr] Cons.IH [OF rest]])
qed (auto intro: locks.run_nil)

text \<open>What is left to grant; every grant takes one from it.\<close>

definition remaining :: "lock_request list list \<Rightarrow> grants \<Rightarrow> nat" where
  "remaining plans g = (\<Sum>i<length plans. length (plans ! i) - g i)"

lemma remaining_grant:
  assumes "grantable plans g i"
  shows "remaining plans (g(i := Suc (g i))) < remaining plans g"
  unfolding remaining_def
proof (rule sum_strict_mono_ex1)
  from assms have "unfinished plans g i" by (simp add: grantable_def)
  then show "\<exists>j\<in>{..<length plans}. length (plans ! j) - (g(i := Suc (g i))) j < length (plans ! j) - g j"
    by (intro bexI [of _ i]) (auto simp: unfinished_def)
qed auto

lemma ordered_plans_finish:
  assumes plans: "\<And>j. j < length plans \<Longrightarrow> ordered_plan key (plans ! j)"
  shows "exclusive plans g \<Longrightarrow> \<exists>more g'. run_locks plans more g = Some g' \<and> (\<forall>i. \<not> unfinished plans g' i)"
proof (induction "remaining plans g" arbitrary: g rule: less_induct)
  case less
  show ?case
  proof (cases "\<exists>i. unfinished plans g i")
    case True
    with ordered_plans_progress [OF plans less.prems] obtain j where j: "grantable plans g j" by blast
    have "exclusive plans (g(j := Suc (g j)))" by (rule lock_step_exclusive [OF lock_step.grant [OF j] less.prems])
    from less.hyps [OF remaining_grant [OF j] this] obtain more g' where
      "run_locks plans more (g(j := Suc (g j))) = Some g'" "\<forall>i. \<not> unfinished plans g' i" by blast
    with j show ?thesis by (intro exI [of _ "j # more"] exI [of _ g']) simp
  next
    case False
    then show ?thesis by (intro exI [of _ "[]"] exI [of _ g]) simp
  qed
qed

text \<open>
  Property C35. Deadlock freedom of transfers. However many transfers run at once and in
  whatever order their row locks have been granted so far, they can go on: while one of them
  is unfinished some pending request can be granted, and from every reachable state there is
  an order of the remaining grants in which all of them finish.
\<close>

theorem transfers_never_deadlock:
  assumes "uuid_spec E" and "list_all (\<lambda>req. req_FromAccountID req \<noteq> req_ToAccountID req) reqs"
    and "run_locks (map (transfer_locks E) reqs) granted (\<lambda>_. 0) = Some g"
  shows "(\<exists>more g'. run_locks (map (transfer_locks E) reqs) more g = Some g' \<and>
            (\<forall>i. \<not> unfinished (map (transfer_locks E) reqs) g' i)) \<and>
         (\<forall>i. unfinished (map (transfer_locks E) reqs) g i \<longrightarrow> (\<exists>j. grantable (map (transfer_locks E) reqs) g j))"
proof -
  let ?plans = "map (transfer_locks E) reqs"
  have ord: "ordered_plan (uuid_String E) (?plans ! j)" if "j < length ?plans" for j
    using that assms by (auto simp: list_all_length intro: transfer_locks_ordered)
  have ex: "exclusive ?plans g" by (rule locks.run_from_start [OF refl run_locks_run [OF assms(3)]])
  from ordered_plans_finish [OF ord ex] ordered_plans_progress [OF ord ex] show ?thesis by blast
qed

definition back_req :: TransferRequest where
  "back_req = sample_req\<lparr>req_FromAccountID := req_ToAccountID sample_req, req_ToAccountID := req_FromAccountID sample_req\<rparr>"

theorem transfers_never_deadlock_witness:
  "\<exists>j. grantable (map (transfer_locks sample_env) [sample_req, back_req]) ((\<lambda>_. 0)(0 := 1)) j"
proof -
  have "list_all (\<lambda>req. req_FromAccountID req \<noteq> req_ToAccountID req) [sample_req, back_req]"
    by (simp add: sample_req_def back_req_def)
  moreover have "run_locks (map (transfer_locks sample_env) [sample_req, back_req]) [0] (\<lambda>_. 0) = Some ((\<lambda>_. 0)(0 := 1))"
    by (simp add: grantable_def unfinished_def transfer_locks_def lock_order_def blocked_by_def held_def)
  moreover have "unfinished (map (transfer_locks sample_env) [sample_req, back_req]) ((\<lambda>_. 0)(0 := 1)) 1"
    by (simp add: unfinished_def transfer_locks_def lock_order_def)
  ultimately show ?thesis using transfers_never_deadlock [OF sample_uuid] by blast
qed

text \<open>
  Property C36. A funding can deadlock with a transfer. The funding holds its target and waits
  for the KEY SHARE lock on the system account, which the foreign key of its transaction
  needs; a transfer between the two accounts, in either direction, holds the system account,
  whose identifier comes first, and waits for the target. Nothing can be granted to anybody;
  PostgreSQL ends one of the two with an error after its deadlock timeout.
\<close>

theorem fund_and_transfer_can_deadlock:
  assumes "uuid_String E systemAcct < uuid_String E (fund_ToAccountID f)"
    and "{req_FromAccountID req, req_ToAccountID req} = {systemAcct, fund_ToAccountID f}"
  shows "\<exists>g. run_locks [fund_locks f systemAcct, transfer_locks E req] [0, 1] (\<lambda>_. 0) = Some g \<and>
             unfinished [fund_locks f systemAcct, transfer_locks E req] g 0 \<and>
             unfinished [fund_locks f systemAcct, transfer_locks E req] g 1 \<and>
             (\<forall>i. \<not> grantable [fund_locks f systemAcct, transfer_locks E req] g i)"
proof -
  let ?plans = "[fund_locks f systemAcct, transfer_locks E req]" and ?g = "(\<lambda>_. 0 :: nat)(0 := 1, 1 := 1)"
  have ne: "systemAcct \<noteq> fund_ToAccountID f" using assms(1) by auto
  have "lock_order E req = (systemAcct, fund_ToAccountID f)"
    using assms by (auto simp: lock_order_def doubleton_eq_iff)
  then obtain rest where plan: "transfer_locks E req = (systemAcct, ForUpdate) # (fund_ToAccountID f, ForUpdate) # rest"
    by (simp add: transfer_locks_def)
  have "run_locks ?plans [0, 1] (\<lambda>_. 0) = Some ?g"
    using ne by (simp add: grantable_def unfinished_def plan fund_locks_def blocked_by_def held_def fun_upd_twist)
  moreover have "unfinished ?plans ?g 0" "unfinished ?plans ?g 1"
    by (simp_all add: unfinished_def plan fund_locks_def)
  moreover have "\<not> grantable ?plans ?g i" for i
  proof -
    have blk: "blocked_by ?plans ?g 0 1" "blocked_by ?plans ?g 1 0"
      using ne by (simp_all add: unfinished_def plan fund_locks_def blocked_by_def held_def)
    have two: "[0..<length ?plans] = [0, 1]" by simp
    show ?thesis
      unfolding grantable_def two using blk by (cases "i = 0 \<or> i = 1") (auto simp: unfinished_def)
  qed
  ultimately show ?thesis by blast
qed

theorem fund_and_transfer_can_deadlock_witness:
  "\<exists>g. run_locks [fund_locks \<lparr>fund_ToAccountID = 11, fund_Amount = 5\<rparr> 1, transfer_locks sample_env (back_req\<lparr>req_FromAccountID := 11, req_ToAccountID := 1\<rparr>)]
         [0, 1] (\<lambda>_. 0) = Some g"
proof -
  have "uuid_String sample_env 1 < uuid_String sample_env 11" by code_simp
  then have first: "uuid_String sample_env 1 < uuid_String sample_env (fund_ToAccountID \<lparr>fund_ToAccountID = 11, fund_Amount = 5\<rparr>)"
    by simp
  have both: "{req_FromAccountID (back_req\<lparr>req_FromAccountID := 11, req_ToAccountID := 1\<rparr>),
      req_ToAccountID (back_req\<lparr>req_FromAccountID := 11, req_ToAccountID := 1\<rparr>)} =
      {1, fund_ToAccountID \<lparr>fund_ToAccountID = 11, fund_Amount = 5\<rparr>}"
    by auto
  show ?thesis using fund_and_transfer_can_deadlock [OF first both] by blast
qed

end
