(* ===== verification/Handler_Props.thy ===== *)
theory Handler_Props
  imports Handlers Double_Rounding
begin

text \<open>
  Properties of the account endpoints: who gets an answer, what the pages of the history
  are, and the arithmetic of the pagination.
\<close>

section \<open>Pages\<close>

text \<open>The history of an account as it should be shown, newest transaction first.\<close>

definition history_of :: "db \<Rightarrow> uuid \<Rightarrow> TransactionHistoryItem list" where
  "history_of d a = map (history_item a) (sort_key (\<lambda>r. - tr_created r) (filter (involves a) (transactions d)))"

lemma length_history_of: "length (history_of d a) = length (filter (involves a) (transactions d))"
  by (simp add: history_of_def)

text \<open>With distinct times the scan order is irrelevant.\<close>

lemma history_scan:
  assumes "scan_spec E" and "distinct (map tr_created (filter (involves a) (transactions d)))"
  shows "map (history_item a) (sort_key (\<lambda>r. - tr_created r) (filter (involves a) (pg_scan_transactions E n (transactions d)))) =
    history_of d a"
proof -
  let ?f = "\<lambda>r. - tr_created r" and ?xs = "filter (involves a) (pg_scan_transactions E n (transactions d))"
    and ?ys = "filter (involves a) (transactions d)"
  have m: "mset ?xs = mset ?ys" using assms(1) by (metis mset_filter scan_spec_def)
  have "inj_on tr_created (set ?ys)" using assms(2) distinct_map by blast
  then have "inj_on ?f (set ?xs)" using mset_eq_setD [OF m] by (simp add: inj_on_def)
  then have "sort_key ?f ?xs = sort_key ?f ?ys"
    by (intro sort_key_inj_key_eq) (use m in simp_all)
  then show ?thesis by (simp add: history_of_def)
qed

lemma page_offset_exact:
  assumes "1 \<le> p" "1 \<le> n" "(p - 1) * n < 2 ^ 63"
  shows "page_offset p n = (p - 1) * n"
proof -
  have "p - 1 \<le> (p - 1) * n" using assms by (simp add: mult_le_cancel_left1)
  then have "int64 (p - 1) = p - 1" using assms by (intro int64_id) simp_all
  moreover have "0 \<le> (p - 1) * n" using assms by simp
  then have "int64 ((p - 1) * n) = (p - 1) * n" using assms(3) by (intro int64_id) linarith+
  ultimately show ?thesis by (simp add: page_offset_def)
qed

lemma history_page:
  assumes "pg_reliable E" and "scan_spec E" and "distinct (map tr_created (filter (involves a) (transactions (w_db w))))"
    and "1 \<le> p" "1 \<le> n" "(p - 1) * n < 2 ^ 63"
  shows "fst (GetTransactionHistory E a n (page_offset p n) w) =
    Inr (take (nat n) (drop (nat ((p - 1) * n)) (history_of (w_db w) a)), int (length (history_of (w_db w) a)))"
proof -
  have "0 \<le> (p - 1) * n" using assms(4,5) by simp
  then show ?thesis
    using assms(1,5) history_scan [OF assms(2,3)]
    by (simp add: GetTransactionHistory_def page_offset_exact [OF assms(4-6)] io_defs db_stmt_reliable select_def
        select_history_def length_history_of not_less flip: take_map drop_map)
qed

lemma pages_concat: "concat (map (\<lambda>p. take n (drop (p * n) xs)) [0..<k]) = take (k * n) xs"
proof (induction k)
  case (Suc k)
  then show ?case by (simp add: take_add [of "k * n" n xs] add.commute [of n])
qed simp

section \<open>The number of pages\<close>

lemma total_pages_exact:
  assumes "0 \<le> n" "n < 2 ^ 52" "0 < p" "p < 2 ^ 53"
  shows "total_pages n p = (n + p - 1) div p"
proof -
  have "float64_of_int n = n" "float64_of_int p = p" using assms by (auto intro!: float64_of_int_small)
  then have "total_pages n p = int ((nat n + nat p - 1) div nat p)"
    unfolding total_pages_def using assms float64_div_ceiling [of "nat n" "nat p"] by (simp add: nat_less_iff)
  also have "\<dots> = (n + p - 1) div p" using assms by (simp add: zdiv_int of_nat_diff)
  finally show ?thesis .
qed

lemma Atoi_range: "Atoi s = (True, n) \<Longrightarrow> - (2 ^ 63) \<le> n \<and> n < 2 ^ 63"
  by (auto simp: Atoi_def Let_def split: if_splits option.splits)

lemma parseIntParam_range: "0 \<le> fallback \<Longrightarrow> fallback < 2 ^ 63 \<Longrightarrow> parseIntParam r k fallback < 2 ^ 63"
  using Atoi_range by (fastforce simp: parseIntParam_def Let_def split: prod.splits)

lemma page_of_range: "1 \<le> page_of r \<and> page_of r < 2 ^ 63"
  using parseIntParam_range [of defaultPage r "''page''"] by (auto simp: page_of_def defaultPage_def Let_def)

lemma per_page_of_range: "1 \<le> per_page_of r \<and> per_page_of r \<le> 100"
  by (auto simp: per_page_of_def defaultPerPage_def maxPerPage_def Let_def)

section \<open>Ownership\<close>

lemma account_queries_db [simp]:
  "w_db (snd (GetAccountsByUserID E u w)) = w_db w" "w_db (snd (GetBalanceReadOnly E a w)) = w_db w"
  by (simp_all add: GetAccountsByUserID_def GetBalanceReadOnly_def)

lemma verifyOwnership_Some:
  assumes "verifyOwnership E u a (rw, w) = (x, (rw', w'))"
  shows "\<exists>owned. x = Inr owned \<and> w_db w' = w_db w \<and>
    (case owned of
       None \<Rightarrow> \<exists>m. rw' = writeJSON 500 m rw \<or> rw' = writeJSON 403 m rw
     | Some acc \<Rightarrow> rw' = rw \<and> acc \<in> set (pg_scan_accounts E (w_tick w) (accounts (w_db w))) \<and> a_ID acc = a \<and> a_UserID acc = u)"
proof -
  obtain r w1 where run: "GetAccountsByUserID E u w = (r, w1)" by fastforce
  then have db: "w_db w1 = w_db w" using account_queries_db(1) [of E u w] by simp
  show ?thesis
  proof (cases r)
    case (Inl e)
    with assms run db show ?thesis
      by (auto simp: verifyOwnership_def attempt_def call_def error_response_def ok_def)
  next
    case (Inr accts)
    then have "set accts \<subseteq> {x \<in> set (pg_scan_accounts E (w_tick w) (accounts (w_db w))). a_UserID x = u}"
      using run by (auto simp: GetAccountsByUserID_Inr)
    moreover have "acc \<in> set accts \<and> a_ID acc = a" if "find (\<lambda>acc. a_ID acc = a) accts = Some acc" for acc
      using that by (auto simp: find_Some_iff)
    moreover have "verifyOwnership E u a (rw, w) =
        (case find (\<lambda>acc. a_ID acc = a) accts of
           Some acc \<Rightarrow> (Inr (Some acc), (rw, w1))
         | None \<Rightarrow> (Inr None, (writeJSON 403 (error_body ''account does not belong to authenticated user'') rw, w1)))"
      using run Inr by (simp add: verifyOwnership_def attempt_def call_def error_response_def ok_def split: option.splits)
    ultimately show ?thesis
      using assms db by (cases "find (\<lambda>acc. a_ID acc = a) accts") auto
  qed
qed

text \<open>Behind the check of the owner an answer with status 200 is one for the owner's account.\<close>

lemma owned_200:
  assumes "attempt (verifyOwnership E u a) (\<lambda>owned. case owned of None \<Rightarrow> ok () | Some acc \<Rightarrow> f acc) (new_response, w) = (x, (rw, w'))"
    and "rw_Status rw = Some 200"
  shows "\<exists>acc w1. acc \<in> set (pg_scan_accounts E (w_tick w) (accounts (w_db w))) \<and> a_ID acc = a \<and> a_UserID acc = u \<and>
    w_db w1 = w_db w \<and> f acc (new_response, w1) = (x, (rw, w'))"
proof -
  obtain y rw1 w1 where own: "verifyOwnership E u a (new_response, w) = (y, (rw1, w1))" by (metis prod.exhaust)
  from verifyOwnership_Some [OF own] obtain owned where y: "y = Inr owned" "w_db w1 = w_db w"
    and case_owned: "case owned of None \<Rightarrow> \<exists>m. rw1 = writeJSON 500 m new_response \<or> rw1 = writeJSON 403 m new_response
      | Some acc \<Rightarrow> rw1 = new_response \<and> acc \<in> set (pg_scan_accounts E (w_tick w) (accounts (w_db w))) \<and> a_ID acc = a \<and> a_UserID acc = u"
    by blast
  show ?thesis
  proof (cases owned)
    case None
    then show ?thesis using assms own y case_owned by (auto simp: attempt_def)
  next
    case (Some acc)
    then show ?thesis using assms own y case_owned by (intro exI [of _ acc] exI [of _ w1]) (simp add: attempt_def)
  qed
qed

lemma GetBalanceReadOnly_Inr:
  "GetBalanceReadOnly E a w = (Inr b, w') \<Longrightarrow> b = decimal_of_numeric (balance_of (ledger (w_db w)) a)"
  by (auto simp: GetBalanceReadOnly_def db_stmt_Inr select_def)

lemma handleGetBalance_200:
  assumes "handleGetBalance E r (new_response, w) = (x, (rw, w'))" and "rw_Status rw = Some 200"
  shows "\<exists>acc. uuid_Parse E (rq_PathID r) = Some (a_ID acc) \<and>
    acc \<in> set (pg_scan_accounts E (w_tick w) (accounts (w_db w))) \<and> a_UserID acc = UserIDFromCtx (rq_Context r) \<and>
    w_db w' = w_db w \<and> rw_Body rw = [json_BalanceResponse E \<lparr>b_AccountID = a_ID acc, b_Currency = a_Currency acc,
      b_Balance = dec_StringFixed E (decimal_of_numeric (balance_of (ledger (w_db w)) (a_ID acc))) 4\<rparr>]"
proof (cases "uuid_Parse E (rq_PathID r)")
  case None
  then show ?thesis using assms by (auto simp: handleGetBalance_def error_response_def Let_def)
next
  case (Some a)
  with assms(1) owned_200 [OF _ assms(2)] obtain acc w1 where acc: "acc \<in> set (pg_scan_accounts E (w_tick w) (accounts (w_db w)))"
      "a_ID acc = a" "a_UserID acc = UserIDFromCtx (rq_Context r)" "w_db w1 = w_db w"
    and run: "attempt (call (GetBalanceReadOnly E a)) (\<lambda>res. case res of
        Inl err \<Rightarrow> error_response 500 ''failed to compute balance''
      | Inr balance \<Rightarrow> respond (writeJSON 200 (json_BalanceResponse E
          \<lparr>b_AccountID = a, b_Currency = a_Currency acc, b_Balance = dec_StringFixed E balance 4\<rparr>))) (new_response, w1) = (x, (rw, w'))"
    unfolding handleGetBalance_def Let_def by fastforce
  obtain res w2 where bal: "GetBalanceReadOnly E a w1 = (res, w2)" by fastforce
  then have "w_db w2 = w_db w" using account_queries_db(2) [of E a w1] acc by simp
  moreover obtain b where "res = Inr b"
    using run bal assms(2) by (cases res) (auto simp: attempt_def call_def error_response_def)
  ultimately show ?thesis
    using run bal acc Some GetBalanceReadOnly_Inr [of E a w1]
    by (intro exI [of _ acc]) (auto simp: attempt_def call_def)
qed

section \<open>The answer of the history endpoint\<close>

lemma verifyOwnership_reliable:
  assumes "pg_reliable E" and "scan_spec E" and "acc \<in> set (accounts (w_db w))" and "a_UserID acc = u"
  shows "\<exists>own w1. verifyOwnership E u (a_ID acc) (rw, w) = (Inr (Some own), (rw, w1)) \<and> w_db w1 = w_db w"
proof -
  obtain accts w1 where run: "GetAccountsByUserID E u w = (Inr accts, w1)" "w_db w1 = w_db w"
    and acc: "acc \<in> set accts"
    using assms scan_accounts_set [OF assms(2)]
    by (auto simp: GetAccountsByUserID_def db_stmt_reliable select_def map_error_def)
  then obtain own where "find (\<lambda>x. a_ID x = a_ID acc) accts = Some own"
    by (cases "find (\<lambda>x. a_ID x = a_ID acc) accts") (auto simp: find_None_iff)
  with run show ?thesis
    by (intro exI [of _ own] exI [of _ w1]) (simp add: verifyOwnership_def attempt_def call_def)
qed

definition page_request :: "request \<Rightarrow> int \<Rightarrow> int \<Rightarrow> request" where
  "page_request r n p = r\<lparr>rq_Query := [(''page'', FormatInt p), (''per_page'', FormatInt n)]\<rparr>"

lemma FormatInt_Nil: "FormatInt n \<noteq> []"
  by (simp add: FormatInt_def)

lemma page_request_params:
  assumes "1 \<le> p" "p < 2 ^ 63" "1 \<le> n" "n \<le> 100"
  shows "page_of (page_request r n p) = p" "per_page_of (page_request r n p) = n"
proof -
  have "Atoi (FormatInt p) = (True, p)" "Atoi (FormatInt n) = (True, n)" using assms by (auto intro!: Atoi_FormatInt)
  then show "page_of (page_request r n p) = p" "per_page_of (page_request r n p) = n"
    using assms by (simp_all add: page_of_def per_page_of_def parseIntParam_def page_request_def Get_def
        FormatInt_Nil maxPerPage_def)
qed

lemma handleGetHistory_answer:
  assumes "pg_reliable E" and "scan_spec E" and acc: "acc \<in> set (accounts (w_db w))"
    and "distinct (map tr_created (filter (involves (a_ID acc)) (transactions (w_db w))))"
    and "uuid_Parse E (rq_PathID r) = Some (a_ID acc)" and "UserIDFromCtx (rq_Context r) = a_UserID acc"
    and "(page_of r - 1) * per_page_of r < 2 ^ 63"
  shows "\<exists>w'. handleGetHistory E r (new_response, w) =
    (let H = history_of (w_db w) (a_ID acc); p = page_of r; n = per_page_of r in
     (Inr (), (writeJSON 200 (json_PaginatedHistory E
        \<lparr>ph_Items = take (nat n) (drop (nat ((p - 1) * n)) H), ph_Total = int (length H), ph_Page = p, ph_PerPage = n,
         ph_TotalPages = total_pages (int (length H)) n\<rparr>) new_response, w'))) \<and> w_db w' = w_db w"
proof -
  obtain own w1 where own: "verifyOwnership E (a_UserID acc) (a_ID acc) (new_response, w) = (Inr (Some own), (new_response, w1))"
    and db: "w_db w1 = w_db w"
    using verifyOwnership_reliable [OF assms(1,2) acc refl] by metis
  obtain res w2 where page: "GetTransactionHistory E (a_ID acc) (per_page_of r) (page_offset (page_of r) (per_page_of r)) w1 = (res, w2)"
    by fastforce
  have "distinct (map tr_created (filter (involves (a_ID acc)) (transactions (w_db w1))))" using assms(4) db by simp
  from history_page [OF assms(1,2) this _ _ assms(7)] page_of_range per_page_of_range page db
  have "res = Inr (take (nat (per_page_of r)) (drop (nat ((page_of r - 1) * per_page_of r)) (history_of (w_db w) (a_ID acc))),
      int (length (history_of (w_db w) (a_ID acc))))"
    by simp
  moreover have "w_db w2 = w_db w" using GetTransactionHistory_db page db by (metis snd_conv)
  ultimately show ?thesis
    using own page assms(5,6) by (intro exI [of _ w2]) (simp add: handleGetHistory_def attempt_def call_def Let_def)
qed

section \<open>Properties\<close>

text \<open>
  Property C17. An account's balance is shown only to its owner: the balance endpoint answers
  200 only when the account of the path is one of the authenticated user's, and the
  answer is then the signed sum of that account's ledger entries. Nothing is changed.
\<close>

theorem balance_only_for_owner:
  assumes "scan_spec E" and "handleGetBalance E r (new_response, w) = (x, (rw, w'))" and "rw_Status rw = Some 200"
  shows "\<exists>acc \<in> set (accounts (w_db w)). uuid_Parse E (rq_PathID r) = Some (a_ID acc) \<and>
    a_UserID acc = UserIDFromCtx (rq_Context r) \<and> w_db w' = w_db w \<and>
    rw_Body rw = [json_BalanceResponse E \<lparr>b_AccountID = a_ID acc, b_Currency = a_Currency acc,
      b_Balance = dec_StringFixed E (decimal_of_numeric (balance_of (ledger (w_db w)) (a_ID acc))) 4\<rparr>]"
  using handleGetBalance_200 [OF assms(2,3)] scan_accounts_set [OF assms(1)] by auto

text \<open>
  Property C18. The pages of the history are the whole history: when the server answers every
  statement and the times of an account's transactions differ, the owner who asks for the
  pages \<open>1\<close> to \<open>total_pages\<close>, with any page size up to 100, receives each transaction of
  the account once, newest first, and each answer states the number of transactions and of
  pages (the ceiling of their quotient, although it is computed in floating point).
\<close>

theorem history_pages_partition:
  assumes "pg_reliable E" and "scan_spec E" and "acc \<in> set (accounts d)"
    and "distinct (map tr_created (filter (involves (a_ID acc)) (transactions d)))"
    and "length (filter (involves (a_ID acc)) (transactions d)) < 2 ^ 52"
    and "uuid_Parse E (rq_PathID r) = Some (a_ID acc)" and "UserIDFromCtx (rq_Context r) = a_UserID acc"
    and "1 \<le> n" and "n \<le> 100" and "\<And>p. w_db (ws p) = d"
  shows "let H = history_of d (a_ID acc); P = (int (length H) + n - 1) div n;
             page = (\<lambda>p. take (nat n) (drop (nat ((p - 1) * n)) H)) in
    concat (map page [1..P]) = H \<and>
    (\<forall>p. 1 \<le> p \<and> p \<le> P \<longrightarrow> (\<exists>w'. handleGetHistory E (page_request r n p) (new_response, ws p) =
       (Inr (), (writeJSON 200 (json_PaginatedHistory E \<lparr>ph_Items = page p, ph_Total = int (length H), ph_Page = p,
          ph_PerPage = n, ph_TotalPages = P\<rparr>) new_response, w'))))"
proof -
  define H where "H = history_of d (a_ID acc)"
  define P where "P = (int (length H) + n - 1) div n"
  have len: "int (length H) < 2 ^ 52" using assms(5) by (simp add: H_def length_history_of)
  have P: "P * n \<le> int (length H) + n - 1" "int (length H) \<le> P * n" "0 \<le> P"
  proof -
    have "P * n + (int (length H) + n - 1) mod n = int (length H) + n - 1" by (simp add: P_def)
    moreover have "0 \<le> (int (length H) + n - 1) mod n" "(int (length H) + n - 1) mod n < n" using assms(8) by simp_all
    ultimately show "P * n \<le> int (length H) + n - 1" "int (length H) \<le> P * n" by linarith+
    show "0 \<le> P" using assms(8) by (simp add: P_def pos_imp_zdiv_nonneg_iff)
  qed
  have "P \<le> P * n" using P(3) assms(8) by (simp add: mult_le_cancel_left1)
  moreover have "int (length H) < 4503599627370496" using len by simp
  ultimately have "P < 9223372036854775808" "P * n < 9223372036854775808" using P(1,2) assms(9) by linarith+
  then have bound: "P < 2 ^ 63" "P * n < 2 ^ 63" by simp_all
  have "concat (map (\<lambda>p. take (nat n) (drop (nat ((p - 1) * n)) H)) [1..P]) = take (nat P * nat n) H"
  proof -
    have "[1..P] = map (\<lambda>k. int k + 1) [0..<nat P]"
    proof (rule nth_equalityI)
      fix i assume "i < length [1..P]"
      then show "[1..P] ! i = map (\<lambda>k. int k + 1) [0..<nat P] ! i" by (simp add: nth_upto)
    qed simp
    moreover have "nat (int k * n) = k * nat n" for k using assms(8) by (simp add: nat_mult_distrib)
    ultimately show ?thesis by (simp add: comp_def pages_concat)
  qed
  moreover have "length H \<le> nat P * nat n"
    using P(2,3) assms(8) by (simp flip: nat_mult_distrib)
  moreover have "\<exists>w'. handleGetHistory E (page_request r n p) (new_response, ws p) =
       (Inr (), (writeJSON 200 (json_PaginatedHistory E \<lparr>ph_Items = take (nat n) (drop (nat ((p - 1) * n)) H), ph_Total = int (length H),
          ph_Page = p, ph_PerPage = n, ph_TotalPages = P\<rparr>) new_response, w'))" if p: "1 \<le> p" "p \<le> P" for p
  proof -
    have params: "page_of (page_request r n p) = p" "per_page_of (page_request r n p) = n"
      using p bound assms(8,9) by (auto intro!: page_request_params)
    have "(p - 1) * n \<le> P * n" using p assms(8) by (intro mult_right_mono) simp_all
    moreover have "total_pages (int (length H)) n = P"
      unfolding P_def using len assms(8,9) by (intro total_pages_exact) simp_all
    moreover have "rq_PathID (page_request r n p) = rq_PathID r" "rq_Context (page_request r n p) = rq_Context r"
      by (simp_all add: page_request_def)
    ultimately show ?thesis
      using handleGetHistory_answer [of E acc "ws p" "page_request r n p"] assms(1-7,10) bound(2)
      by (auto simp: params H_def Let_def)
  qed
  ultimately show ?thesis by (simp add: H_def P_def Let_def)
qed

text \<open>
  Property C21. The arithmetic of the pagination: whatever the query says, page and page size
  end up at least 1 and the page size at most 100; the offset is exact as long as it fits in
  a 64-bit \<open>int\<close>; the number of pages is the exact ceiling below \<open>2 ^ 52\<close> transactions.
  Beyond, the offset wraps around: a huge page shows the first one again, and another makes
  the offset negative, which the server rejects, so the owner gets status 500.
\<close>

theorem pagination_bounds:
  "1 \<le> page_of r \<and> page_of r < 2 ^ 63 \<and> 1 \<le> per_page_of r \<and> per_page_of r \<le> 100 \<and>
   (page_offset (page_of r) (per_page_of r) = (page_of r - 1) * per_page_of r) = ((page_of r - 1) * per_page_of r < 2 ^ 63) \<and>
   (\<exists>q. page_of q = 2 ^ 62 + 1 \<and> per_page_of q = 100 \<and> page_offset (page_of q) (per_page_of q) = 0) \<and>
   (\<exists>q. page_offset (page_of q) (per_page_of q) < 0)"
proof -
  have "page_offset (page_of r) (per_page_of r) < 2 ^ 63" using int64_range by (simp add: page_offset_def)
  then have exact: "(page_offset (page_of r) (per_page_of r) = (page_of r - 1) * per_page_of r) = ((page_of r - 1) * per_page_of r < 2 ^ 63)"
    using page_offset_exact [of "page_of r" "per_page_of r"] page_of_range [of r] per_page_of_range [of r] by metis
  let ?q = "page_request r 100"
  have "page_of (?q p) = p" "per_page_of (?q p) = 100" if "1 \<le> p" "p < 2 ^ 63" for p
    using that page_request_params [of p 100 r] by simp_all
  then have "page_of (?q (2 ^ 62 + 1)) = 2 ^ 62 + 1" "per_page_of (?q (2 ^ 62 + 1)) = 100"
    "page_of (?q (2 ^ 61 + 1)) = 2 ^ 61 + 1" "per_page_of (?q (2 ^ 61 + 1)) = 100"
    by simp_all
  moreover have "page_offset (2 ^ 62 + 1) 100 = 0" "page_offset (2 ^ 61 + 1) 100 < 0"
    by (simp_all add: page_offset_def int64_def)
  ultimately show ?thesis using exact page_of_range [of r] per_page_of_range [of r] by metis
qed

section \<open>A sample account\<close>

text \<open>Three transactions of the account 11, newest last.\<close>

definition sample_history_db :: db where
  "sample_history_db = sample_db\<lparr>transactions := map (\<lambda>i.
     \<lparr>tr_id = 50 + of_nat i, tr_from = system_uuid, tr_to = 11, tr_amount = 10000, tr_status = TxnStatusCompleted,
      tr_key = 60 + of_nat i, tr_created = int i, tr_updated = int i\<rparr>) [0..<3]\<rparr>"

definition sample_account :: Account where
  "sample_account = \<lparr>a_ID = 11, a_UserID = 10, a_Currency = ''INR'', a_Status = AccountStatusActive, a_CreatedAt = 0\<rparr>"

definition sample_owner_request :: request where
  "sample_owner_request = \<lparr>rq_Method = ''GET'', rq_Path = ''/api/v1/accounts'', rq_PathID = sample_uuid_String 11,
     rq_Header = [], rq_Query = [], rq_Cookies = [], rq_RemoteAddr = [], rq_Body = [],
     rq_Context = ctx_Background\<lparr>ctx_UserID := Some 10\<rparr>\<rparr>"

definition sample_history_world :: "sample_redis world" where
  "sample_history_world = sample_world\<lparr>w_db := sample_history_db\<rparr>"

lemma sample_owner:
  "uuid_Parse sample_env (rq_PathID sample_owner_request) = Some (a_ID sample_account)"
  "UserIDFromCtx (rq_Context sample_owner_request) = a_UserID sample_account"
  "sample_account \<in> set (accounts sample_history_db)"
  by code_simp+

theorem history_pages_partition_witness:
  "\<exists>w'. handleGetHistory sample_env (page_request sample_owner_request 2 2) (new_response, sample_history_world) =
     (Inr (), (writeJSON 200 (json_PaginatedHistory sample_env \<lparr>ph_Items = drop 2 (history_of sample_history_db 11),
        ph_Total = 3, ph_Page = 2, ph_PerPage = 2, ph_TotalPages = 2\<rparr>) new_response, w'))"
proof -
  have len: "length (filter (involves 11) (transactions sample_history_db)) = 3" by code_simp
  have "distinct (map tr_created (filter (involves (a_ID sample_account)) (transactions sample_history_db)))"
    by code_simp
  from history_pages_partition [OF sample_reliable sample_scan sample_owner(3) this _ sample_owner(1,2), of 2 "\<lambda>_. sample_history_world"]
  show ?thesis
    by (simp add: Let_def length_history_of len sample_account_def sample_history_world_def)
      (auto simp: length_history_of len dest: spec [of _ "2 :: int"])
qed

theorem balance_only_for_owner_witness:
  "\<exists>rw w' acc. snd (handleGetBalance sample_env sample_owner_request (new_response, sample_world)) = (rw, w') \<and>
     rw_Status rw = Some 200 \<and> acc \<in> set (accounts sample_db) \<and> a_ID acc = 11 \<and> a_UserID acc = 10 \<and>
     rw_Body rw = [json_BalanceResponse sample_env \<lparr>b_AccountID = 11, b_Currency = a_Currency acc,
       b_Balance = dec_StringFixed sample_env (decimal_of_numeric (balance_of (ledger sample_db) 11)) 4\<rparr>]"
proof -
  obtain x rw w' where run: "handleGetBalance sample_env sample_owner_request (new_response, sample_world) = (x, (rw, w'))"
    by (metis prod.exhaust)
  have "rw_Status (fst (snd (handleGetBalance sample_env sample_owner_request (new_response, sample_world)))) = Some 200"
    by code_simp
  with run have ok: "rw_Status rw = Some 200" by simp
  from balance_only_for_owner [OF sample_scan run ok] show ?thesis
    using sample_owner run ok by (auto simp: sample_account_def sample_world_def)
qed

end
