(* ===== verification/Answer_Props.thy ===== *)
theory Answer_Props
  imports Api_Props
begin

text \<open>
  Every request is answered once: a handler sets one status and writes at most one document,
  on every path and whatever the database, Redis or the libraries do, and nothing panics but
  the logout handler on a short cookie. A handler is followed action by action, from a
  response in which nothing is written to one that holds an answer.
\<close>

named_theorems answers_intros "rules for actions that answer"

section \<open>Answers\<close>

definition blank :: "ResponseWriter \<Rightarrow> bool" where
  "blank rw \<longleftrightarrow> rw_Status rw = None \<and> rw_Body rw = []"

definition answer_codes :: "int list" where
  "answer_codes = [200, 201, 400, 401, 403, 404, 409, 422, 429, 500]"

text \<open>The router answers without a document.\<close>

definition one_answer :: "ResponseWriter \<Rightarrow> bool" where
  "one_answer rw \<longleftrightarrow>
     (case rw_Status rw of
        None \<Rightarrow> False
      | Some c \<Rightarrow> (c \<in> set answer_codes \<and> length (rw_Body rw) = 1) \<or> (c \<in> {301, 404, 405} \<and> rw_Body rw = []))"

definition answers :: "('r, unit) action \<Rightarrow> bool" where
  "answers m \<longleftrightarrow> (\<forall>rw w. blank rw \<longrightarrow> (\<exists>rw' w'. m (rw, w) = (Inr (), (rw', w')) \<and> one_answer rw'))"

lemma answersI: "(\<And>rw w. blank rw \<Longrightarrow> \<exists>rw' w'. m (rw, w) = (Inr (), (rw', w')) \<and> one_answer rw') \<Longrightarrow> answers m"
  by (simp add: answers_def)

lemma answers_writeJSON [answers_intros]: "c \<in> set answer_codes \<Longrightarrow> answers (respond (writeJSON c j))"
  by (auto simp: answers_def blank_def one_answer_def)

lemma answers_error_response [answers_intros]: "c \<in> set answer_codes \<Longrightarrow> answers (error_response c m)"
  unfolding error_response_def by (rule answers_writeJSON)

lemma writeAuthError_JSON: "writeAuthError c m = writeJSON c (error_body m)"
  by (simp add: writeAuthError_def writeJSON_def fun_eq_iff)

lemma answers_writeAuthError [answers_intros]: "c \<in> set answer_codes \<Longrightarrow> answers (respond (writeAuthError c m))"
  unfolding writeAuthError_JSON by (rule answers_writeJSON)

lemma answers_call [answers_intros]: "(\<And>r. answers (f r)) \<Longrightarrow> answers (attempt (call m) f)"
  by (rule answersI) (auto simp: answers_def attempt_def call_def split: prod.splits)

lemma answers_cookie [answers_intros]: "answers m \<Longrightarrow> answers (attempt (respond (SetTokenCookie t s)) (\<lambda>_. m))"
  by (rule answersI) (auto simp: answers_def attempt_def SetTokenCookie_def SetCookie_def blank_def Let_def)

lemma answers_sum [answers_intros]:
  "(\<And>e. answers (f e)) \<Longrightarrow> (\<And>a. answers (g a)) \<Longrightarrow> answers (case x of Inl e \<Rightarrow> f e | Inr a \<Rightarrow> g a)"
  by (cases x) auto

lemma answers_option [answers_intros]:
  "answers m \<Longrightarrow> (\<And>a. answers (f a)) \<Longrightarrow> answers (case x of None \<Rightarrow> m | Some a \<Rightarrow> f a)"
  by (cases x) auto

lemma answers_if [answers_intros]: "answers m \<Longrightarrow> answers n \<Longrightarrow> answers (if b then m else n)"
  by simp

lemma answers_prod [answers_intros]: "(\<And>a b. answers (f a b)) \<Longrightarrow> answers (case x of (a, b) \<Rightarrow> f a b)"
  by (cases x) auto

text \<open>The check of the owner answers itself or leaves the response blank.\<close>

lemma answers_owned [answers_intros]:
  assumes "\<And>acc. answers (f acc)"
  shows "answers (attempt (verifyOwnership E u a) (\<lambda>owned. case owned of None \<Rightarrow> ok () | Some acc \<Rightarrow> f acc))"
proof (rule answersI)
  fix rw and w :: "'a world"
  assume blank: "blank rw"
  obtain r w1 where run: "GetAccountsByUserID E u w = (r, w1)" by fastforce
  have refused: "one_answer (writeJSON c j rw)" if "c = 403 \<or> c = 500" for c j
    using that blank by (auto simp: one_answer_def answer_codes_def blank_def)
  show "\<exists>rw' w'. attempt (verifyOwnership E u a) (\<lambda>owned. case owned of None \<Rightarrow> ok () | Some acc \<Rightarrow> f acc) (rw, w) =
      (Inr (), (rw', w')) \<and> one_answer rw'"
  proof (cases "\<exists>accts acc. r = Inr accts \<and> find (\<lambda>x. a_ID x = a) accts = Some acc")
    case True
    then obtain accts acc where "r = Inr accts" "find (\<lambda>x. a_ID x = a) accts = Some acc" by blast
    moreover obtain rw' w' where "f acc (rw, w1) = (Inr (), (rw', w'))" "one_answer rw'"
      using assms [of acc] blank unfolding answers_def by blast
    ultimately show ?thesis using run by (simp add: verifyOwnership_def attempt_def call_def ok_def)
  next
    case False
    with run refused show ?thesis
      by (cases r) (auto simp: verifyOwnership_def attempt_def call_def error_response_def ok_def split: option.splits)
  qed
qed

section \<open>Middlewares and handlers\<close>

lemma answers_Limit [answers_intros]: "(\<And>q. answers (next q)) \<Longrightarrow> answers (Limit E cfg route next r)"
proof (rule answersI)
  fix rw and w :: "'a world"
  assume "\<And>q. answers (next q)" and "blank rw"
  moreover have "blank (limit_headers cfg now remaining rw)" for now remaining
    using \<open>blank rw\<close> by (simp add: blank_def limit_headers_def)
  moreover have "one_answer (too_many cfg (limit_headers cfg now remaining rw))" for now remaining
    using \<open>blank rw\<close> by (simp add: blank_def limit_headers_def too_many_def one_answer_def answer_codes_def Encode_def WriteHeader_def)
  ultimately show "\<exists>rw' w'. Limit E cfg route next r (rw, w) = (Inr (), (rw', w')) \<and> one_answer rw'"
    by (auto simp: Limit_def Let_def answers_def split: prod.splits sum.splits)
qed

lemma answers_Protect [answers_intros]: "(\<And>q. answers (next q)) \<Longrightarrow> answers (Protect E secret next r)"
  unfolding Protect_def by (intro answers_intros) (simp_all add: answer_codes_def)

lemma answers_requireSystemUser [answers_intros]: "(\<And>q. answers (next q)) \<Longrightarrow> answers (requireSystemUser E next r)"
  unfolding requireSystemUser_def Let_def by (intro answers_intros) (simp_all add: answer_codes_def)

lemma error_codes: "mapErrorToHTTP e \<in> set answer_codes" "mapAuthErrorToHTTP e \<in> set answer_codes"
  by (simp_all add: mapErrorToHTTP_def mapAuthErrorToHTTP_def answer_codes_def)

lemma answers_handlers [answers_intros]:
  "answers (ServeTransfer E r)" "answers (HandleRegister E s b r)" "answers (HandleLogin E s b r)"
  "answers (handleGetAccounts E r)" "answers (handleGetBalance E r)" "answers (handleGetHistory E r)"
  "answers (handleFund E r)"
  unfolding ServeTransfer_def handleTransfer_def HandleRegister_def handleRegister_def HandleLogin_def handleLogin_def
    handleGetAccounts_def handleGetBalance_def handleGetHistory_def handleFund_def Let_def
  by (intro answers_intros; (rule error_codes | simp add: answer_codes_def))+

lemma answers_health [answers_intros]: "answers (health r)"
  by (rule answersI) (simp add: health_def one_answer_def answer_codes_def blank_def Encode_def WriteHeader_def header_Set_def)

section \<open>Every route\<close>

lemma mux_route_mem: "mux_route rs r = Some (i, h) \<Longrightarrow> \<exists>p. (p, h) \<in> set rs \<and> match_pattern p r = Some i"
  by (induction rs r rule: mux_route.induct) (auto split: option.splits)

lemma answers_logout:
  assumes "rq_Context r = ctx_Background" and "\<And>v. request_Cookie r ''vault_token'' = Some v \<Longrightarrow> 8 \<le> length v"
  shows "answers (handleLogout E r)"
  unfolding handleLogout_anonymous [OF assms(1)] using assms(2)
  by (cases "request_Cookie r ''vault_token''")
    (auto simp: not_less intro!: answers_error_response simp: answer_codes_def)

lemma answers_routes:
  assumes "(p, h) \<in> set (main_routes E cfg)"
  shows "(\<forall>r. answers (h r)) \<or> (h = handleLogout E \<and> p = Pattern ''POST'' ''/api/v1/auth/logout'')"
  using assms
  unfolding main_routes_def RegisterAuthRoutes_def RegisterAccountRoutes_def RegisterFundingRoutes_def Let_def
  by (auto intro!: answers_intros)

lemma answers_router: "c \<in> {301, 404, 405} \<Longrightarrow> answers (respond (WriteHeader c))"
  by (rule answersI) (auto simp: one_answer_def blank_def WriteHeader_def)

lemma answers_unrouted:
  assumes "mux_route rs r = None \<or> (rq_Method r \<noteq> ''CONNECT'' \<and> clean_path (rq_Path r) \<noteq> rq_Path r)"
  shows "answers (serve_mux rs r)"
  using assms by (auto simp: serve_mux_def intro!: answers_router)

lemma match_segments_self:
  "list_all (\<lambda>p. p \<noteq> ''{id}'') ps \<Longrightarrow> match_segments ps ss = Some i \<Longrightarrow> ss = ps"
  by (induction ps ss arbitrary: i rule: match_segments.induct) (auto split: option.splits if_splits)

lemma path_segments_Nil: "path_segments s \<noteq> []"
  by (cases s) (auto split: list.splits)

lemma path_segments_inj: "path_segments s = path_segments t \<Longrightarrow> s = t"
proof (induction s arbitrary: t)
  case Nil
  then show ?case by (cases t) (auto simp: path_segments_Nil [symmetric] split: if_splits list.splits)
next
  case (Cons c s)
  then show ?case
    using path_segments_Nil [of s] by (cases t) (auto simp: path_segments_Nil split: if_splits list.splits)
qed

lemma logout_pattern:
  assumes "match_pattern (Pattern ''POST'' ''/api/v1/auth/logout'') r = Some i"
  shows "rq_Method r = ''POST'' \<and> rq_Path r = ''/api/v1/auth/logout''"
proof -
  have "rq_Method r = ''POST''" and m: "match_segments (path_segments ''/api/v1/auth/logout'') (path_segments (rq_Path r)) = Some i"
    using assms by (auto split: if_splits)
  moreover have "list_all (\<lambda>p. p \<noteq> ''{id}'') (path_segments ''/api/v1/auth/logout'')" by simp
  from match_segments_self [OF this m] have "rq_Path r = ''/api/v1/auth/logout''" by (rule path_segments_inj)
  ultimately show ?thesis by blast
qed

text \<open>
  Property C12. Every request is answered exactly once: whatever the request, the route, the
  database, Redis and the libraries do, the handlers set one of ten status codes
  and write one document, and the router itself answers 301, 404 or 405; nothing is
  written twice. The
  only panic of the whole server is that of the logout endpoint on a cookie of fewer than
  eight bytes.
\<close>

theorem every_request_answered_once:
  "case serve_mux (main_routes E cfg) (r\<lparr>rq_Context := ctx_Background\<rparr>) (new_response, w) of
     (Inr _, (rw, _)) \<Rightarrow> one_answer rw
   | (Inl panic, _) \<Rightarrow> rq_Method r = ''POST'' \<and> rq_Path r = ''/api/v1/auth/logout'' \<and>
       (\<exists>v. request_Cookie r ''vault_token'' = Some v \<and> length v < 8)"
proof -
  let ?r = "r\<lparr>rq_Context := ctx_Background\<rparr>" and ?rs = "main_routes E cfg"
  have "blank new_response" by (simp add: blank_def)
  then have answered: ?thesis if "answers (serve_mux ?rs ?r)"
  proof -
    from that \<open>blank new_response\<close> obtain rw' w' where "serve_mux ?rs ?r (new_response, w) = (Inr (), (rw', w'))" "one_answer rw'"
      unfolding answers_def by blast
    then show ?thesis by simp
  qed
  show ?thesis
  proof (cases "mux_route ?rs ?r = None \<or> (rq_Method ?r \<noteq> ''CONNECT'' \<and> clean_path (rq_Path ?r) \<noteq> rq_Path ?r)")
    case True
    then show ?thesis by (intro answered answers_unrouted)
  next
    case False
    then obtain i h where ih: "mux_route ?rs ?r = Some (i, h)" by fastforce
    with False have run: "serve_mux ?rs ?r = h (?r\<lparr>rq_PathID := i\<rparr>)" by (auto simp: serve_mux_def)
    obtain p where p: "(p, h) \<in> set ?rs" "match_pattern p ?r = Some i" using mux_route_mem [OF ih] by blast
    from answers_routes [OF p(1)] show ?thesis
    proof
      assume "\<forall>r. answers (h r)"
      then show ?thesis by (intro answered) (simp add: run)
    next
      assume h: "h = handleLogout E \<and> p = Pattern ''POST'' ''/api/v1/auth/logout''"
      let ?q = "?r\<lparr>rq_PathID := i\<rparr>"
      have cookie: "request_Cookie ?q = request_Cookie r" by (simp add: request_Cookie_def fun_eq_iff)
      show ?thesis
      proof (cases "\<exists>v. request_Cookie r ''vault_token'' = Some v \<and> length v < 8")
        case True
        moreover have "rq_Method r = ''POST'' \<and> rq_Path r = ''/api/v1/auth/logout''"
          using logout_pattern [of ?r i] p(2) h by simp
        moreover have "\<exists>e s. serve_mux ?rs ?r (new_response, w) = (Inl e, s)"
          using True h cookie by (auto simp: run handleLogout_anonymous fail_def)
        ultimately show ?thesis by auto
      next
        case False
        then have "answers (handleLogout E ?q)" using cookie by (intro answers_logout) (auto simp: not_less)
        then show ?thesis using h by (intro answered) (simp add: run)
      qed
    qed
  qed
qed

end
