(* ===== verification/Endpoint_Props.thy ===== *)
theory Endpoint_Props
  imports Handlers Transfer_Props Auth_Props
begin

text \<open>
  Endpoints from the cookie to the answer: what a transfer request with a live session is
  answered and does, whoever's session it is, and that the cookie a login sets opens a
  session of the user who logged in.
\<close>

section \<open>The transfer endpoint\<close>

text \<open>The status of the answer, from the tables and the request alone.\<close>

definition transfer_status :: "db \<Rightarrow> TransferRequest \<Rightarrow> int" where
  "transfer_status d req =
     (case (lookup_account d (req_FromAccountID req), lookup_account d (req_ToAccountID req)) of
        (Some fromAcct, Some toAcct) \<Rightarrow>
          if a_Status fromAcct \<noteq> AccountStatusActive \<or> a_Status toAcct \<noteq> AccountStatusActive then 403
          else if decimal_of_numeric (balance_of (ledger d) (req_FromAccountID req)) < req_Amount req then 422
          else (case numeric_18_4 (req_Amount req) of
              None \<Rightarrow> 500
            | Some n \<Rightarrow> if n \<le> 0 \<or> req_IdempotencyKey req \<in> tr_key ` set (transactions d) then 500 else 200)
      | _ \<Rightarrow> 404)"

lemma transfer_status_verdict:
  "transfer_status d req = (case transfer_verdict d req of None \<Rightarrow> 200 | Some e \<Rightarrow> mapErrorToHTTP e)"
proof (cases "lookup_account d (req_FromAccountID req)"; cases "lookup_account d (req_ToAccountID req)")
  fix a b
  assume "lookup_account d (req_FromAccountID req) = Some a" "lookup_account d (req_ToAccountID req) = Some b"
  then show ?thesis
    by (cases "numeric_18_4 (req_Amount req)") (simp_all add: transfer_status_def transfer_verdict_def mapErrorToHTTP_def not_less)
qed (simp_all add: transfer_status_def transfer_verdict_def mapErrorToHTTP_def)

lemma status_of_error: "mapErrorToHTTP e \<noteq> 200"
  by (simp add: mapErrorToHTTP_def)

lemma admitted_run:
  "admitted E secret r claims w w' \<Longrightarrow> Protect E secret next r (rw, w) = next (with_claims claims r) (rw, w')"
  by (auto simp: admitted_def Protect_def attempt_def call_def)

lemma TransferFunds_response:
  assumes "TransferFunds E req w = (Inr res, w')"
  shows "res = \<lparr>res_TransactionID = res_TransactionID res, res_Status = TxnStatusCompleted,
    res_Message = ''Transfer completed successfully''\<rparr>"
proof (rule TransferFunds_cases [of E req w])
  fix w1 result w2
  assume "TransferFunds E req w = transfer_finish E (idempKey E req) result w2"
  with assms have "transfer_finish E (idempKey E req) result w2 = (Inr res, w')" by simp
  then show ?thesis by (cases res) (simp add: transfer_finish_Inr)
qed (use assms in simp)

text \<open>
  Property C31. The transfer endpoint behind the session check, for a session of any user:
  when the database is reliable and the key could be claimed, the status is 404, 403, 422
  or 500 by the accounts, their status, the balance and the key, with one error document and no
  change, or 200 with the document of the one transaction that was booked. The user of the
  session occurs nowhere in it: who is logged in may move money out of anyone's account.
\<close>

theorem transfer_endpoint_verdict:
  assumes "pg_reliable E" and "decimal_spec E" and "admitted E secret r claims w w1"
    and "json_Transfer E (rq_Body r) = Some req" and "fresh_ids E (w_tick w1) 16 (w_db w)"
    and "transfer_claim E req w1 = (Inr key, w2)"
  shows "\<exists>rw w'. Protect E secret (ServeTransfer E) r (new_response, w) = (Inr (), (rw, w')) \<and>
    rw_Status rw = Some (transfer_status (w_db w) req) \<and>
    (if transfer_status (w_db w) req = 200
     then \<exists>txnID n. transfer_effect E req txnID n (w_db w) (w_db w') \<and>
       rw_Body rw = [JObj [(''transaction_id'', JUuid E txnID), (''status'', JStr ''Completed''),
         (''message'', JStr ''Transfer completed successfully'')]]
     else (\<exists>m. rw_Body rw = [JObj [(''error'', JStr m)]]) \<and> w_db w' = w_db w)"
proof -
  have db: "w_db w1 = w_db w" using assms(3) by (rule admitted_db)
  obtain res w' where run: "TransferFunds E req w1 = (res, w')" by fastforce
  have verdict: "case transfer_verdict (w_db w1) req of
      Some e \<Rightarrow> fst (TransferFunds E req w1) = Inl e \<and> w_db (snd (TransferFunds E req w1)) = w_db w1
    | None \<Rightarrow> \<exists>res. fst (TransferFunds E req w1) = Inr res"
    using assms(1,2,5,6) db by (intro transfer_verdict_run) simp_all
  have serve: "Protect E secret (ServeTransfer E) r (new_response, w) =
      (Inr (), ((case res of Inl e \<Rightarrow> writeJSON (mapErrorToHTTP e) (error_body (Error (pq_Error E) e)) new_response
        | Inr resp \<Rightarrow> writeJSON 200 (json_TransferResponse E resp) new_response), w'))"
    using run assms(4)
    by (auto simp: admitted_run [OF assms(3)] ServeTransfer_def handleTransfer_def with_claims_def attempt_def call_def
        error_response_def split: sum.splits)
  show ?thesis
  proof (cases "transfer_verdict (w_db w1) req")
    case None
    with verdict run obtain resp where resp: "res = Inr resp" by auto
    from TransferFunds_response [of E req w1 resp w'] run resp
    have "json_TransferResponse E resp = JObj [(''transaction_id'', JUuid E (res_TransactionID resp)),
        (''status'', JStr ''Completed''), (''message'', JStr ''Transfer completed successfully'')]"
      by (metis TransactionStatus_text.simps(2) TransferResponse.select_convs(2,3) json_TransferResponse_def)
    moreover obtain n where "transfer_effect E req (res_TransactionID resp) n (w_db w1) (w_db w')"
      using TransferFunds_Inr run resp by blast
    ultimately show ?thesis
      using serve None resp db by (auto simp: transfer_status_verdict)
  next
    case (Some e)
    with verdict run have "res = Inl e" "w_db w' = w_db w1" by simp_all
    with serve Some db status_of_error [of e] show ?thesis by (auto simp: transfer_status_verdict error_body_def)
  qed
qed

text \<open>Bob's session, and a transfer of 2.50 from Alice's account to Bob's.\<close>

definition bob_token :: string where
  "bob_token = fst (projr (fst (IssueToken sample_env ''secret'' 20 ''bob'' False sample_world)))"

definition bob_claims :: Claims where
  "bob_claims = issue_claims sample_env 20 ''bob'' False (sample_uuid_String 1000) Second"

lemma bob_issue:
  "IssueToken sample_env ''secret'' 20 ''bob'' False sample_world =
     (Inr (bob_token, sample_uuid_String 1000), sample_world\<lparr>w_tick := 2\<rparr>)"
  by (simp add: bob_token_def IssueToken_def Let_def issue_claims_def sample_env_def sample_sign_def
      sample_world_def TokenTTL_def Hour_def Second_def)

definition bob_request :: request where
  "bob_request = sample_request\<lparr>rq_Method := ''POST'', rq_Path := ''/api/v1/transfers'', rq_Cookies := [(''vault_token'', bob_token)]\<rparr>"

definition parsing_env :: "sample_redis env" where
  "parsing_env = sample_env\<lparr>json_Transfer := \<lambda>_. Some sample_req\<rparr>"

definition session_world :: "sample_redis world" where
  "session_world = sample_world\<lparr>w_tick := 3\<rparr>"

lemma bob_valid: "ValidateToken parsing_env ''secret'' bob_token session_world = (Inr bob_claims, sample_world\<lparr>w_tick := 4\<rparr>)"
proof -
  have "ValidateToken parsing_env ''secret'' bob_token session_world = ValidateToken sample_env ''secret'' bob_token session_world"
    by (simp add: ValidateToken_def parsing_env_def)
  moreover have "fst (ValidateToken sample_env ''secret'' bob_token session_world) = Inr bob_claims"
    using issued_token(1) [OF sample_jwt bob_issue, of session_world]
    by (simp add: sample_env_def sample_world_def session_world_def bob_claims_def TokenTTL_def Hour_def Second_def)
  ultimately show ?thesis
    using ValidateToken_tick [of parsing_env "''secret''" bob_token session_world] by (simp add: prod_eq_iff session_world_def)
qed

lemma bob_admitted: "admitted parsing_env ''secret'' bob_request bob_claims session_world (sample_world\<lparr>w_tick := 6\<rparr>)"
proof -
  have "IsBlacklisted parsing_env (c_ID bob_claims) (sample_world\<lparr>w_tick := 4\<rparr>) = (Inr False, sample_world\<lparr>w_tick := 5\<rparr>)"
    by (simp add: IsBlacklisted_def parsing_env_def sample_env_def sample_world_def)
  moreover have "isAccountFrozen parsing_env (c_UserID bob_claims) (sample_world\<lparr>w_tick := 5\<rparr>) = (Inr False, sample_world\<lparr>w_tick := 6\<rparr>)"
    by (simp add: isAccountFrozen_Inr parsing_env_def sample_env_def sample_world_def has_frozen_def sample_db_defs)
  moreover have "request_Cookie bob_request cookieName = Some bob_token"
    by (simp add: request_Cookie_def bob_request_def cookieName_def)
  ultimately show ?thesis using bob_valid unfolding admitted_def by blast
qed

theorem transfer_endpoint_verdict_witness:
  "\<exists>rw w' txnID n. Protect parsing_env ''secret'' (ServeTransfer parsing_env) bob_request (new_response, session_world) = (Inr (), (rw, w')) \<and>
     rw_Status rw = Some 200 \<and> transfer_effect parsing_env sample_req txnID n sample_db (w_db w') \<and>
     a_UserID (the (lookup_account sample_db (req_FromAccountID sample_req))) \<noteq> c_UserID bob_claims"
proof -
  let ?w = "sample_world\<lparr>w_tick := 6\<rparr>"
  have "fresh_ids sample_env 6 16 (w_db session_world)"
    by (rule sample_fresh) (simp_all add: session_world_def sample_world_def sample_db_defs)
  then have fresh: "fresh_ids parsing_env (w_tick ?w) 16 (w_db session_world)"
    by (simp add: fresh_ids_def parsing_env_def)
  obtain key w2 where claim: "transfer_claim parsing_env sample_req ?w = (Inr key, w2)"
    by (simp add: transfer_claim_def parsing_env_def sample_env_def sample_world_def sample_req_def)
  have reliable: "pg_reliable parsing_env" "decimal_spec parsing_env"
    using sample_reliable sample_decimal by (simp_all add: pg_reliable_def decimal_spec_def parsing_env_def)
  have json: "json_Transfer parsing_env (rq_Body bob_request) = Some sample_req" by (simp add: parsing_env_def)
  have "transfer_status (w_db session_world) sample_req = 200"
    "a_UserID (the (lookup_account sample_db (req_FromAccountID sample_req))) \<noteq> c_UserID bob_claims" by code_simp+
  moreover have "w_db session_world = sample_db" by (simp add: session_world_def sample_world_def)
  ultimately show ?thesis
    using transfer_endpoint_verdict [OF reliable bob_admitted json fresh claim] by auto
qed

section \<open>From the login to the session\<close>

text \<open>A successful login endpoint: the login behind it, the document and the one cookie.\<close>

lemma handleLogin_200:
  assumes "handleLogin E secret secure q (new_response, w) = (Inr (), (rw, w'))" and "rw_Status rw = Some 200"
  shows "\<exists>req res. json_Login E (rq_Body q) = Some req \<and> Login E secret req w = (Inr res, w') \<and>
    map (\<lambda>c. (ck_Name c, ck_Value c)) (rw_Cookies rw) = [(''vault_token'', auth_Token res)]"
proof (cases "json_Login E (rq_Body q)")
  case None
  with assms show ?thesis by (auto simp: handleLogin_def error_response_def)
next
  case (Some req)
  obtain res v where run: "Login E secret req w = (res, v)" by fastforce
  have refused: "mapAuthErrorToHTTP e \<noteq> 200" for e by (simp add: mapAuthErrorToHTTP_def)
  show ?thesis
  proof (cases res)
    case (Inl e)
    with assms Some run refused [of e] show ?thesis
      by (auto simp: handleLogin_def attempt_def call_def error_response_def)
  next
    case (Inr a)
    with assms(1) Some run show ?thesis
      by (auto simp: handleLogin_def attempt_def call_def SetTokenCookie_def SetCookie_def Let_def)
  qed
qed

lemma Protect_session:
  assumes "request_Cookie r cookieName = Some t" and "fst (ValidateToken E secret t v) = Inr claims"
    and "redis_kv_spec E kv" and "pg_outcome E (Suc (Suc (w_tick v))) = PgOk"
    and "fst (rdb_Exists E (Suc (w_tick v)) (blacklistPrefix @ c_ID claims) (w_redis v)) = Inr n"
  shows "\<exists>v'. w_db v' = w_db v \<and> Protect E secret next r (rw, v) =
    (if kv (w_redis v) (Suc (w_tick v)) (blacklistPrefix @ c_ID claims) \<noteq> None
       then (Inr (), (writeAuthError 401 ''token has been revoked'' rw, v'))
     else if has_frozen (w_db v) (c_UserID claims) then (Inr (), (writeAuthError 403 ''account is frozen'' rw, v'))
     else next (with_claims claims r) (rw, v'))"
proof -
  let ?v1 = "v\<lparr>w_tick := Suc (w_tick v)\<rparr>"
  have val: "ValidateToken E secret t v = (Inr claims, ?v1)"
    using assms(2) ValidateToken_tick [of E secret t v] by (metis prod.collapse)
  obtain rd where ex: "rdb_Exists E (Suc (w_tick v)) (blacklistPrefix @ c_ID claims) (w_redis v) = (Inr n, rd)"
    using assms(5) by (metis prod.collapse)
  let ?v2 = "v\<lparr>w_redis := rd, w_tick := Suc (Suc (w_tick v))\<rparr>" and ?b = "kv (w_redis v) (Suc (w_tick v)) (blacklistPrefix @ c_ID claims) \<noteq> None"
  have black: "IsBlacklisted E (c_ID claims) ?v1 = (Inr ?b, ?v2)"
    using redis_Exists_D(1) [OF assms(3) ex] by (simp add: IsBlacklisted_def ex)
  have frozen: "isAccountFrozen E (c_UserID claims) ?v2 = (Inr (has_frozen (w_db v) (c_UserID claims)), ?v2\<lparr>w_tick := Suc (Suc (Suc (w_tick v)))\<rparr>)"
    using assms(4) by (simp add: isAccountFrozen_Inr)
  note run = Protect_def attempt_def call_def assms(1) val black
  show ?thesis
  proof (cases ?b)
    case True
    then show ?thesis by (intro exI [of _ ?v2]) (simp add: run)
  next
    case False
    then show ?thesis
      by (intro exI [of _ "?v2\<lparr>w_tick := Suc (Suc (Suc (w_tick v)))\<rparr>"]) (simp add: run frozen)
  qed
qed

text \<open>
  Property C34. The cookie that a successful login sets opens a session of the user who
  logged in: the table has that user, active and with the password, and up to one second
  before the token expires a request that brings the cookie back is refused if the token
  was revoked or the user has a frozen account, and otherwise reaches the handler behind
  the session check with that user's identifier and name in its context.
\<close>

theorem login_opens_session:
  assumes "jwt_spec E" and "redis_kv_spec E kv"
    and "handleLogin E secret secure q (new_response, w) = (Inr (), (rw, w'))" and "rw_Status rw = Some 200"
    and "\<forall>c \<in> set (rw_Cookies rw). request_Cookie r (ck_Name c) = Some (ck_Value c)"
    and "jti = uuid_String E (uuid_New E (w_tick w + 1))"
    and "time_Now E (w_tick v) \<le> time_Now E (w_tick w + 2) + TokenTTL - Second"
    and "fst (rdb_Exists E (w_tick v + 1) (blacklistPrefix @ jti) (w_redis v)) = Inr n"
    and "pg_outcome E (w_tick v + 2) = PgOk"
  shows "\<exists>req u v'. json_Login E (rq_Body q) = Some req \<and>
    u \<in> set (users (w_db w)) \<and> u_Username u = log_Username req \<and> u_IsActive u \<and>
    bcrypt_Compare E (u_PasswordHash u) (log_Password req) = None \<and> w_db v' = w_db v \<and>
    Protect E secret next r (rw2, v) =
      (if kv (w_redis v) (w_tick v + 1) (blacklistPrefix @ jti) \<noteq> None
         then (Inr (), (writeAuthError 401 ''token has been revoked'' rw2, v'))
       else if has_frozen (w_db v) (u_ID u) then (Inr (), (writeAuthError 403 ''account is frozen'' rw2, v'))
       else next (r\<lparr>rq_Context := (rq_Context r)\<lparr>ctx_UserID := Some (u_ID u), ctx_Username := Some (u_Username u),
                     ctx_JTI := Some jti\<rparr>\<rparr>) (rw2, v'))"
proof -
  from handleLogin_200 [OF assms(3,4)] obtain req res where req: "json_Login E (rq_Body q) = Some req"
    and log: "Login E secret req w = (Inr res, w')"
    and ck: "map (\<lambda>c. (ck_Name c, ck_Value c)) (rw_Cookies rw) = [(''vault_token'', auth_Token res)]"
    by (elim exE conjE)
  from Login_Inr [OF log] obtain u j where
    u: "find (\<lambda>u. u_Username u = log_Username req) (users (w_db w)) = Some u" "u_IsActive u"
      "bcrypt_Compare E (u_PasswordHash u) (log_Password req) = None"
    and iss: "IssueToken E secret (u_ID u) (u_Username u) (u_IsSystemUser u) (w\<lparr>w_tick := Suc (w_tick w)\<rparr>) = (Inr (auth_Token res, j), w')"
    by blast
  have j: "j = jti" using iss assms(6) by (simp add: IssueToken_Inr)
  let ?c = "issue_claims E (u_ID u) (u_Username u) (u_IsSystemUser u) jti (time_Now E (Suc (Suc (w_tick w))))"
  have "fst (ValidateToken E secret (auth_Token res) v) = Inr ?c"
    using issued_token(1) [OF assms(1) iss, of v] assms(7) by (simp add: j)
  moreover have "request_Cookie r cookieName = Some (auth_Token res)"
    using ck assms(5) by (auto simp: cookieName_def map_eq_Cons_conv)
  moreover have "c_ID ?c = jti" "c_UserID ?c = u_ID u" "c_Username ?c = u_Username u" by (simp_all add: issue_claims_def)
  ultimately obtain v' where "w_db v' = w_db v" and "Protect E secret next r (rw2, v) =
      (if kv (w_redis v) (w_tick v + 1) (blacklistPrefix @ jti) \<noteq> None
         then (Inr (), (writeAuthError 401 ''token has been revoked'' rw2, v'))
       else if has_frozen (w_db v) (u_ID u) then (Inr (), (writeAuthError 403 ''account is frozen'' rw2, v'))
       else next (with_claims ?c r) (rw2, v'))"
    using Protect_session [of r "auth_Token res" E secret v ?c kv n "next" rw2] assms(2,8,9) by auto
  moreover have "u \<in> set (users (w_db w)) \<and> u_Username u = log_Username req" using u(1) by (auto dest!: find_SomeD)
  moreover have "with_claims ?c r = r\<lparr>rq_Context := (rq_Context r)\<lparr>ctx_UserID := Some (u_ID u),
      ctx_Username := Some (u_Username u), ctx_JTI := Some jti\<rparr>\<rparr>"
    by (simp add: with_claims_def issue_claims_def)
  ultimately show ?thesis
    using req u(2,3) by (intro exI [of _ req] exI [of _ u] exI [of _ v'] conjI) simp_all
qed

text \<open>Alice logs in and comes back with the cookie.\<close>

definition login_env :: "sample_redis env" where
  "login_env = sample_env\<lparr>json_Login := \<lambda>_. Some sample_login\<rparr>"

definition login_answer :: ResponseWriter where
  "login_answer = fst (snd (handleLogin login_env ''secret'' False sample_request (new_response, sample_world)))"

lemma login_answered:
  "handleLogin login_env ''secret'' False sample_request (new_response, sample_world) = (Inr (), (login_answer, sample_world\<lparr>w_tick := 3\<rparr>))"
  "rw_Status login_answer = Some 200" "map ck_Name (rw_Cookies login_answer) = [''vault_token'']"
proof -
  let ?run = "handleLogin login_env ''secret'' False sample_request (new_response, sample_world)"
  have run: "fst ?run = Inr () \<and> snd (snd ?run) = sample_world\<lparr>w_tick := 3\<rparr> \<and> rw_Status (fst (snd ?run)) = Some 200 \<and>
    map ck_Name (rw_Cookies (fst (snd ?run))) = [''vault_token'']"
    by (simp add: handleLogin_def login_env_def Login_def sample_run_defs sample_login_def call_def SetTokenCookie_def SetCookie_def)
  then show "?run = (Inr (), (login_answer, sample_world\<lparr>w_tick := 3\<rparr>))"
    by (simp add: login_answer_def prod_eq_iff)
  from run show "rw_Status login_answer = Some 200" "map ck_Name (rw_Cookies login_answer) = [''vault_token'']"
    by (simp_all add: login_answer_def)
qed

definition back_request :: request where
  "back_request = sample_request\<lparr>rq_Cookies := map (\<lambda>c. (ck_Name c, ck_Value c)) (rw_Cookies login_answer)\<rparr>"

theorem login_opens_session_witness:
  "\<exists>v'. Protect login_env ''secret'' (\<lambda>r. respond (WriteHeader (uint (UserIDFromCtx (rq_Context r))))) back_request
     (new_response, sample_world\<lparr>w_tick := 3\<rparr>) = (Inr (), (WriteHeader 10 new_response, v'))"
proof -
  have specs: "jwt_spec login_env" "redis_kv_spec login_env sr_kv"
    using sample_jwt sample_redis_kv by (simp_all add: jwt_spec_def redis_kv_spec_def login_env_def)
  have cookies: "\<forall>c \<in> set (rw_Cookies login_answer). request_Cookie back_request (ck_Name c) = Some (ck_Value c)"
    using login_answered(3) by (auto simp: back_request_def request_Cookie_def map_eq_Cons_conv)
  let ?next = "\<lambda>r. respond (WriteHeader (uint (UserIDFromCtx (rq_Context r))))" and ?v = "sample_world\<lparr>w_tick := 3\<rparr>"
  let ?jti = "uuid_String login_env (uuid_New login_env (w_tick sample_world + 1))"
  have live: "time_Now login_env (w_tick ?v) \<le> time_Now login_env (w_tick sample_world + 2) + TokenTTL - Second"
    by (simp add: login_env_def sample_env_def sample_world_def TokenTTL_def Hour_def Second_def)
  have answers: "fst (rdb_Exists login_env (w_tick ?v + 1) (blacklistPrefix @ ?jti) (w_redis ?v)) = Inr 0"
    "pg_outcome login_env (w_tick ?v + 2) = PgOk"
    by (simp_all add: login_env_def sample_env_def sample_world_def)
  obtain req u v' where req: "json_Login login_env (rq_Body sample_request) = Some req"
    and u: "u \<in> set (users (w_db sample_world))" "u_Username u = log_Username req"
    and run: "Protect login_env ''secret'' ?next back_request (new_response, ?v) =
      (if sr_kv (w_redis ?v) (w_tick ?v + 1) (blacklistPrefix @ ?jti) \<noteq> None
         then (Inr (), (writeAuthError 401 ''token has been revoked'' new_response, v'))
       else if has_frozen (w_db ?v) (u_ID u) then (Inr (), (writeAuthError 403 ''account is frozen'' new_response, v'))
       else ?next (back_request\<lparr>rq_Context := (rq_Context back_request)\<lparr>ctx_UserID := Some (u_ID u),
              ctx_Username := Some (u_Username u), ctx_JTI := Some ?jti\<rparr>\<rparr>) (new_response, v'))"
    using login_opens_session [OF specs login_answered(1,2) cookies refl live answers, of ?next new_response]
    by (elim exE conjE)
  have "u_ID u = 10"
    using u req by (auto simp: login_env_def sample_login_def sample_world_def sample_db_defs)
  with run show ?thesis
    by (simp add: sr_kv_def sample_world_def has_frozen_def sample_db_defs UserIDFromCtx_def)
qed

end
