(* ===== verification/Main_Process.thy ===== *)
theory Main_Process
  imports Api_Server Email_Worker
begin

text \<open>
  The life of the process, cmd/api/main.go and internal/logger: what \<open>main\<close> starts, in which
  order, where it gives up, and what it releases in the end. The outcomes of the connections,
  of listening and of the server's shutdown are arguments; the result is the list of
  effects. \<open>os.Exit\<close> ends the process at once; only a return runs the deferred calls, the
  last one first.
\<close>

section \<open>Effects\<close>

datatype log_format = TextHandler | JSONHandler

definition Init :: "string \<Rightarrow> log_format" where
  "Init env = (if env = ''development'' then TextHandler else JSONHandler)"

datatype process_effect =
    SetDefaultLogger log_format
  | ConnectPostgres string
  | LimitPool nat nat duration
  | PingRedis string string int
  | StartMail Worker
  | ListenAndServe string duration duration duration
  | ShutdownServer duration
  | ShutdownMail
  | CloseRedis
  | ClosePostgres
  | Exit nat

datatype server_end = ListenFails | Signalled bool

section \<open>The mail pool of the program\<close>

definition main_worker :: "Config \<Rightarrow> Worker" where
  "main_worker cfg = Start 3 (NewWorker
     \<lparr>smtp_Host = cfg_SMTPHost cfg, smtp_Port = cfg_SMTPPort cfg, smtp_Username = cfg_SMTPUsername cfg,
      smtp_Password = cfg_SMTPPassword cfg, smtp_From = cfg_SMTPFrom cfg\<rparr> 3 100)"

section \<open>From start to stop\<close>

text \<open>The deferred calls are collected in the order of their \<open>defer\<close> statements.\<close>

definition return_from :: "process_effect list \<Rightarrow> process_effect list" where
  "return_from deferred = rev deferred"

definition main_serving :: "Config \<Rightarrow> server_end \<Rightarrow> process_effect list \<Rightarrow> process_effect list" where
  "main_serving cfg stop deferred =
     ListenAndServe ('':'' @ cfg_Port cfg) (10 * Second) (15 * Second) (30 * Second) #
     (case stop of
        ListenFails \<Rightarrow> [Exit 1]
      | Signalled stopped \<Rightarrow> ShutdownServer (10 * Second) # (if stopped then return_from deferred else [Exit 1]))"

definition main_process :: "goerr + Config \<Rightarrow> bool \<Rightarrow> bool \<Rightarrow> server_end \<Rightarrow> process_effect list" where
  "main_process load pg redis stop =
     (case load of
        Inl err \<Rightarrow> [Exit 1]
      | Inr cfg \<Rightarrow>
          SetDefaultLogger (Init (cfg_Env cfg)) # ConnectPostgres (cfg_DatabaseURL cfg) #
          (if \<not> pg then [Exit 1] else
           LimitPool 25 10 (5 * 60 * Second) # PingRedis (cfg_RedisURL cfg) (cfg_RedisPassword cfg) (cfg_RedisDB cfg) #
           (if \<not> redis then [Exit 1] else
            StartMail (main_worker cfg) # main_serving cfg stop [ClosePostgres, CloseRedis, ShutdownMail])))"

section \<open>What is released\<close>

definition releases :: "process_effect set" where
  "releases = {ShutdownMail, CloseRedis, ClosePostgres}"

lemmas main_defs = main_process_def main_serving_def return_from_def releases_def

text \<open>
  Either the process exits with an error, and then nothing is released, not even after an
  orderly signal when the server's shutdown runs into its timeout: the mail pool is abandoned
  with its queue. Or everything started is released in reverse order, after the server.
\<close>

lemma main_releases:
  "(Exit 1 \<in> set (main_process load pg redis stop) \<and> set (main_process load pg redis stop) \<inter> releases = {}) \<or>
   (\<exists>started. main_process load pg redis stop =
      started @ [ShutdownServer (10 * Second), ShutdownMail, CloseRedis, ClosePostgres] \<and> set started \<inter> releases = {})"
proof (cases "\<exists>cfg. load = Inr cfg \<and> pg \<and> redis \<and> stop = Signalled True")
  case True
  then obtain cfg where c: "load = Inr cfg" "pg" "redis" "stop = Signalled True" by blast
  let ?started = "[SetDefaultLogger (Init (cfg_Env cfg)), ConnectPostgres (cfg_DatabaseURL cfg), LimitPool 25 10 (5 * 60 * Second),
    PingRedis (cfg_RedisURL cfg) (cfg_RedisPassword cfg) (cfg_RedisDB cfg), StartMail (main_worker cfg),
    ListenAndServe ('':'' @ cfg_Port cfg) (10 * Second) (15 * Second) (30 * Second)]"
  show ?thesis using c by (intro disjI2 exI [of _ ?started]) (simp add: main_defs)
next
  case False
  then show ?thesis
    by (cases stop; cases load; cases pg; cases redis) (auto simp: main_defs)
qed

text \<open>The server runs only with a configuration, a database and Redis.\<close>

lemma main_serves:
  "(\<exists>a r w i. ListenAndServe a r w i \<in> set (main_process load pg redis stop)) \<longleftrightarrow> (\<exists>cfg. load = Inr cfg) \<and> pg \<and> redis"
  by (cases stop; cases load; cases pg; cases redis) (auto simp: main_defs)

text \<open>The pool that the program starts is one of those the state machine starts from.\<close>

lemma main_worker_ok: "worker_ok (main_worker cfg)"
  unfolding main_worker_def by (rule pool.start_inv) blast

end
