(* ===== verification/Spec2Isabelle.thy ===== *)
theory Spec2Isabelle
  imports Transfer_Props Funding_Service Token_Manager Auth_Props Auth_Middleware Limiter_Props Api_Props App_Config Email_Worker Concurrent_Transfers Row_Locks Handler_Props Answer_Props Endpoint_Props Main_Process
begin

text \<open>
  OmniLedger, a bank ledger in Go: a model of the program under src/ and the theorems that
  make it correct.

  \<^bold>\<open>The program.\<close> An HTTP server (cmd/api/main.go) routes requests through middlewares to
  handlers (internal/handler), which call services (internal/service), which read and write
  PostgreSQL tables through a data-access layer (internal/store) and keys in Redis. Money is
  kept as double entry: a transaction row and ledger rows that are only ever appended; the
  balance of an account is the signed sum of its ledger rows.

  \<^bold>\<open>How it is modelled.\<close> A Go function that may fail and changes a state is a function of the
  state with a sum as its result (\<open>io\<close> in Prelude); a raise, early return or panic is a branch.
  The world of a request is a record: the committed tables, the state of Redis and a tick that
  numbers the calls to the outside. What the program calls but does not define (uuid, decimal,
  bcrypt, jwt, the clock, the JSON decoder, PostgreSQL, Redis, rs/cors, godotenv, net/smtp) is a
  field of the record \<open>env\<close> or an argument; what is relied on of it is a named
  hypothesis (\<open>uuid_spec\<close>, \<open>decimal_spec\<close>, \<open>jwt_spec\<close>, \<open>bcrypt_spec\<close>, \<open>redis_kv_spec\<close>,
  \<open>redis_zset_spec\<close>, \<open>scan_spec\<close>, \<open>cors_spec\<close>), and a sample
  environment satisfies them all (Sample\_Env; \<open>sample_cors\<close> in Api\_Props). Every statement may
  succeed, fail before the server acted, or lose its acknowledgement, so a theorem
  without a hypothesis on the outcomes covers all these faults; \<open>pg_reliable\<close> marks the few
  about runs without them. UUIDs are 128-bit words, 64-bit integers wrap around where the
  program computes with them, NUMERIC(18,4) columns round and overflow as documented.

  \<^bold>\<open>Theories and sources.\<close>
  \<^item> Prelude: effects, their inversion and invariant rules (\<open>keeps\<close>), the locale \<open>step_system\<close> of
    state machines, 64-bit integers. Errs: internal/errs. Domain\_Model: internal/model.
    Go\_Std, Double\_Rounding: strconv, durations, float64.
  \<^item> Schema: sql/V1\_\_init\_schema.sql, tables, constraints, triggers, seed. Externals: the
    environment. Store: internal/store/store.go, one definition per method. Books: postings and the
    invariant \<open>bank_ok\<close>: the constraints, no overdraft, and every transaction completed and entered
    with its debit and credit, or with the credit alone where the sender is a system user's
    account. Sample\_Env: a concrete
    environment and a small bank for the witnesses.
  \<^item> Transfer\_Service, Transfer\_Props: internal/service/transfer.go. Concurrent\_Transfers: the same
    method cut at its external calls, interleaved among any number of requests. Row\_Locks: the
    row locks of transfers and fundings. Funding\_Service: internal/service/funding.go.
  \<^item> Token\_Manager: internal/auth/token.go. Auth\_Service, Auth\_Props: internal/service/auth.go.
    Auth\_Middleware: internal/auth/middleware.go. Rate\_Limiter, Limiter\_Props:
    internal/middleware/ratelimit.go. Middleware\_Interface: the contract \<open>guard\<close> of all middlewares
    and of their compositions.
  \<^item> Http: requests, responses and the JSON form of the payloads. Handlers, Handler\_Props:
    internal/handler. App\_Config: internal/config. Api\_Server, Api\_Props, Answer\_Props: the routes of
    cmd/api/main.go and the Register...Routes methods, and a request to the server. Endpoint\_Props: a
    transfer request and a login from the cookie to the answer. Main\_Process: the start and
    stop of the process and internal/logger.
  \<^item> Email\_Templates, Email\_Worker: internal/email, the pool as a state machine over its channels.

  \<^bold>\<open>Interfaces.\<close> \<open>step_system\<close> (an invariant, kept by each step) is interpreted by the server
  (\<open>api\<close>), the concurrent transfers (\<open>clients\<close>), the lock manager (\<open>locks\<close>) and the mail pool
  (\<open>pool\<close>). \<open>guard\<close> (a middleware answers or passes on, and leaves the tables alone) is interpreted by
  the session check (\<open>protect\<close>), the rate limiter (\<open>limit\<close>) and the privilege check
  (\<open>system_user\<close>); \<open>guard_pair\<close> composes two of them.
  \<open>posting_book\<close> (balances under appended rows) is interpreted by the ledger (\<open>book\<close>).

  \<^bold>\<open>What the theorems show.\<close>
  \<^item> Transfers: the exact effect, atomicity under faults, the invariant of the bank, conservation
    of money, one use of a key, the life of the key in Redis, the verdict as a reference
    function, and the refinement of an abstract bank. Under concurrency: a key goes through once
    whatever Redis does, the invariant holds at every moment, transfers never deadlock among
    themselves, but a funding and a transfer can.
  \<^item> The server as a whole: no sequence of requests breaks the books or changes the total; from the
    seed it never books anything, because the funding endpoint refuses everybody; the logout
    endpoint revokes nothing; a transfer request is answered by accounts, balance and key, and
    the user of its session has no say in whose account is debited. Every
    request is answered exactly once, and only the logout endpoint can panic.
  \<^item> Sessions: which requests the check admits, tokens from issue to expiry and revocation,
    registration and login, and that the cookie of a login opens that user's session. The rate limiter equals a log of admitted requests.
  \<^item> Funding: the exact effect, the invariant, and what an error leaves behind.
  \<^item> Accounts: balances only for the owner; the pages of the history partition it; the range and the
    overflow of the pagination.
  \<^item> Mail: every accepted job is accounted for, a shutdown ends, and may lose accepted jobs; the
    message keeps its body. The process releases what it started, in reverse order, or exits and
    releases nothing. Configuration: what \<open>Load\<close> reads back.

  \<^bold>\<open>Bounds and fuel.\<close> No definition uses fuel: all recursion is structural or has a termination
  proof, and the state machines are step relations over event lists of any length. The
  limiter's theorems take the requests of one client and route in the order of their times,
  each reaching Redis within a second; page counts are exact below \<open>2 ^ 52\<close> transactions.

  \<^bold>\<open>Not modelled.\<close> Sockets, connection pools, timeouts and signals (Main\_Process has their outcomes only), and what
  is logged; cancellation of a request's context
  in the middle of a call (it appears as a failed call); the browser client under frontend/;
  the tests. SQL transactions run at SERIALIZABLE and are therefore single steps in the
  interleavings. The router's own answers (301, 404, 405) have a status only, and paths are taken
  without percent escapes; PostgreSQL refuses malformed text where it is stored, and a lookup by
  such a text finds nothing. An unbuffered mail queue, which the program does not use, is left out.
\<close>

end
